(* ===== verification/Spfs_Prelude.thy ===== *)
theory Spfs_Prelude
  imports Main "HOL-Library.Word"
begin

text \<open>
  Shared vocabulary of the spfs development: machine integers, the outcome of running kernel
  code (a value or a crash), the bytes of a buffer, host and wire byte order, and the two
  combinators that model "if the call fails, return this code".

  Machine: the sizes are those of x86-64 Linux, the platform the module is built for
  (\<open>unsigned long\<close>, \<open>size_t\<close> and \<open>sector_t\<close> have 64 bits, the host is little-endian).
\<close>

section \<open>Machine integers\<close>

type_synonym byte = "8 word"
type_synonym u16 = "16 word"
type_synonym u32 = "32 word"
type_synonym u64 = "64 word"

text \<open>A buffer is the content of \<open>b_data\<close>; \<open>b_size\<close> is its length.\<close>

type_synonym buf = "byte list"

section \<open>Outcomes\<close>

text \<open>
  \<open>BugOn\<close>: a \<open>BUG\<close> or \<open>BUG_ON\<close> fired. \<open>BadAccess\<close>: the code read or wrote outside the
  buffer it was given, which C leaves undefined. \<open>NullDeref\<close>: it went through a null or an
  error pointer. \<open>SelfDeadlock\<close>: it locked a mutex that the same task left locked.
  \<open>DivByZero\<close>: it divided an integer by zero.
  \<open>NoFuel\<close>: the loop did not stop within the fuel.
\<close>

datatype crash = BugOn | BadAccess | NullDeref | SelfDeadlock | DivByZero | NoFuel

datatype 'a outcome = Done 'a | Crash crash

definition bnd :: "'a outcome \<Rightarrow> ('a \<Rightarrow> 'b outcome) \<Rightarrow> 'b outcome" where
  "bnd m k = (case m of Done v \<Rightarrow> k v | Crash c \<Rightarrow> Crash c)"

definition bug_on :: "bool \<Rightarrow> 'a outcome \<Rightarrow> 'a outcome" where
  "bug_on c k = (if c then Crash BugOn else k)"

lemma bnd_simps [simp]:
  "bnd (Done v) k = k v"
  "bnd (Crash c) k = Crash c"
  by (simp_all add: bnd_def)

lemma bnd_Done_iff: "bnd m k = Done r \<longleftrightarrow> (\<exists>v. m = Done v \<and> k v = Done r)"
  by (cases m) auto

lemma bnd_assoc: "bnd (bnd m k) h = bnd m (\<lambda>v. bnd (k v) h)"
  by (cases m) auto

lemma bnd_cong: "(\<And>v. m = Done v \<Longrightarrow> k v = h v) \<Longrightarrow> bnd m k = bnd m h"
  by (cases m) auto

lemma bug_on_simps [simp]:
  "bug_on True k = Crash BugOn"
  "bug_on False k = k"
  by (simp_all add: bug_on_def)

lemma bug_on_Done_iff: "bug_on c k = Done r \<longleftrightarrow> \<not> c \<and> k = Done r"
  by (simp add: bug_on_def)

section \<open>Return codes\<close>

text \<open>The errno values of Linux; a C function returns their negation.\<close>

definition EIO :: int where "EIO = 5"
definition EINTR :: int where "EINTR = 4"
definition ENOENT :: int where "ENOENT = 2"
definition ENOMEM :: int where "ENOMEM = 12"
definition EINVAL :: int where "EINVAL = 22"
definition ENAMETOOLONG :: int where "ENAMETOOLONG = 36"

lemmas errno_defs = EIO_def EINTR_def ENOENT_def ENOMEM_def EINVAL_def ENAMETOOLONG_def

section \<open>Bytes of a buffer\<close>

text \<open>
  \<open>load b off n\<close>: the \<open>n\<close> bytes at \<open>off\<close>. \<open>store b off xs\<close>: \<open>memcpy\<close> of \<open>xs\<close> to
  \<open>off\<close>. Both are used after a bound check only.
\<close>

definition load :: "buf \<Rightarrow> nat \<Rightarrow> nat \<Rightarrow> byte list" where
  "load b off n = take n (drop off b)"

definition store :: "buf \<Rightarrow> nat \<Rightarrow> byte list \<Rightarrow> buf" where
  "store b off xs = take off b @ xs @ drop (off + length xs) b"

lemma length_load [simp]: "off + n \<le> length b \<Longrightarrow> length (load b off n) = n"
  by (simp add: load_def)

lemma length_store [simp]: "off + length xs \<le> length b \<Longrightarrow> length (store b off xs) = length b"
  by (simp add: store_def)

lemma load_store_same [simp]:
  "off + length xs \<le> length b \<Longrightarrow> n = length xs \<Longrightarrow> load (store b off xs) off n = xs"
  by (simp add: load_def store_def)

lemma load_store_before:
  assumes "p + n \<le> off" and "off + length xs \<le> length b"
  shows "load (store b off xs) p n = load b p n"
proof -
  have "take off (store b off xs) = take off b"
    using assms by (simp add: store_def)
  moreover have "take n (drop p c) = take n (drop p (take off c))" for c :: buf
    using assms by (simp add: drop_take min_def)
  ultimately show ?thesis by (metis load_def)
qed

lemma load_store_after:
  "off + length xs \<le> p \<Longrightarrow> off + length xs \<le> length b \<Longrightarrow>
    load (store b off xs) p n = load b p n"
  by (simp add: load_def store_def)

lemma load_store_inside:
  assumes "off \<le> p" and "p + n \<le> off + length xs" and "off + length xs \<le> length b"
  shows "load (store b off xs) p n = take n (drop (p - off) xs)"
  using assms by (simp add: load_def store_def)

lemma store_store_append:
  assumes "off + length xs + length ys \<le> length b"
  shows "store (store b off xs) (off + length xs) ys = store b off (xs @ ys)"
  using assms by (simp add: store_def ac_simps)

lemma load_add: "load b p (n + m) = load b p n @ load b (p + n) m"
  unfolding load_def take_add drop_drop by (simp add: add.commute)

lemma load_prefix:
  assumes "load b p (n + m) = xs @ ys" and "length xs = n" and "p + n \<le> length b"
  shows "load b p n = xs" and "load b (p + n) m = ys"
proof -
  have "load b p n @ load b (p + n) m = xs @ ys" using assms(1) by (simp add: load_add)
  then show "load b p n = xs" and "load b (p + n) m = ys"
    using assms(2,3) by (simp_all add: append_eq_append_conv)
qed

lemma store_append:
  assumes "p = off + length xs" and "off + length xs + length ys \<le> length b"
  shows "store (store b off xs) p ys = store b off (xs @ ys)"
  using assms by (simp add: store_store_append)

lemma store_nil [simp]: "store b off [] = b"
  by (simp add: store_def)

section \<open>Little-endian memory and the byte swaps\<close>

primrec le_bytes :: "nat \<Rightarrow> nat \<Rightarrow> byte list" where
  "le_bytes 0 v = []"
| "le_bytes (Suc n) v = of_nat v # le_bytes n (v div 256)"

primrec le_num :: "byte list \<Rightarrow> nat" where
  "le_num [] = 0"
| "le_num (b # bs) = unat b + 256 * le_num bs"

lemma length_le_bytes [simp]: "length (le_bytes n v) = n"
  by (induction n arbitrary: v) auto

lemma unat_byte_less [simp]: "unat (b :: byte) < 256"
  using unsigned_less [of b, where 'a = nat] by simp

lemma le_num_less: "le_num bs < 256 ^ length bs"
proof (induction bs)
  case Nil
  then show ?case by simp
next
  case (Cons b bs)
  have "unat b + 256 * le_num bs < 256 + 256 * le_num bs" by simp
  also have "\<dots> \<le> 256 * 256 ^ length bs" using Cons.IH by simp
  finally show ?case by simp
qed

lemma le_num_le_bytes: "le_num (le_bytes n v) = v mod 256 ^ n"
proof (induction n arbitrary: v)
  case 0
  then show ?case by simp
next
  case (Suc n)
  have "unat (of_nat v :: byte) = v mod 256" by (simp add: unat_of_nat)
  then show ?case by (simp add: Suc.IH mod_mult2_eq)
qed

lemma byte_256_mult [simp]: "(256 :: byte) * x = 0"
proof -
  have "unat ((256 :: byte) * x) = (unat (256 :: byte) * unat x) mod 2 ^ LENGTH(8)"
    by (rule unat_word_ariths(2))
  also have "\<dots> = 0" by simp
  finally show ?thesis by (simp add: unat_eq_0)
qed

lemma le_bytes_le_num: "length bs = n \<Longrightarrow> le_bytes n (le_num bs) = bs"
proof (induction bs arbitrary: n)
  case Nil
  then show ?case by simp
next
  case (Cons b bs)
  then obtain m where n: "n = Suc m" and m: "length bs = m" by auto
  have "of_nat (unat b + 256 * le_num bs) = (b :: byte)"
    by simp
  moreover have "(unat b + 256 * le_num bs) div 256 = le_num bs" by simp
  ultimately show ?case using Cons.IH [OF m] by (simp add: n)
qed

text \<open>Big-endian, the byte order of the wire format, is the reverse.\<close>

definition be_bytes :: "nat \<Rightarrow> nat \<Rightarrow> byte list" where
  "be_bytes n v = rev (le_bytes n v)"

definition be_num :: "byte list \<Rightarrow> nat" where
  "be_num bs = le_num (rev bs)"

lemma length_be_bytes [simp]: "length (be_bytes n v) = n"
  by (simp add: be_bytes_def)

lemma be_num_be_bytes: "be_num (be_bytes n v) = v mod 256 ^ n"
  by (simp add: be_num_def be_bytes_def le_num_le_bytes)

lemma be_bytes_be_num: "length bs = n \<Longrightarrow> be_bytes n (be_num bs) = bs"
  by (simp add: be_num_def be_bytes_def le_bytes_le_num)

lemma be_num_less: "be_num bs < 256 ^ length bs"
  using le_num_less [of "rev bs"] by (simp add: be_num_def)

text \<open>The kernel's byte-order conversions on a little-endian host are byte swaps.\<close>

definition bswap :: "nat \<Rightarrow> 'a::len word \<Rightarrow> 'a word" where
  "bswap n x = of_nat (le_num (rev (le_bytes n (unat x))))"

definition cpu_to_be16 :: "u16 \<Rightarrow> u16" where "cpu_to_be16 = bswap 2"
definition be16_to_cpu :: "u16 \<Rightarrow> u16" where "be16_to_cpu = bswap 2"
definition cpu_to_be32 :: "u32 \<Rightarrow> u32" where "cpu_to_be32 = bswap 4"
definition be32_to_cpu :: "u32 \<Rightarrow> u32" where "be32_to_cpu = bswap 4"
definition cpu_to_be64 :: "u64 \<Rightarrow> u64" where "cpu_to_be64 = bswap 8"
definition be64_to_cpu :: "u64 \<Rightarrow> u64" where "be64_to_cpu = bswap 8"

text \<open>What a variable of \<open>n\<close> bytes looks like in memory, and reading it back.\<close>

definition to_mem :: "nat \<Rightarrow> 'a::len word \<Rightarrow> byte list" where
  "to_mem n x = le_bytes n (unat x)"

definition of_mem :: "byte list \<Rightarrow> 'a::len word" where
  "of_mem bs = of_nat (le_num bs)"

lemma length_to_mem [simp]: "length (to_mem n x) = n"
  by (simp add: to_mem_def)

lemma unat_bswap:
  fixes x :: "'a::len word"
  assumes "256 ^ n = (2 :: nat) ^ LENGTH('a)"
  shows "unat (bswap n x) = le_num (rev (le_bytes n (unat x)))"
proof -
  have "le_num (rev (le_bytes n (unat x))) < 2 ^ LENGTH('a)"
    using le_num_less [of "rev (le_bytes n (unat x))"] assms by simp
  then show ?thesis by (simp add: bswap_def unat_of_nat)
qed

lemma to_mem_bswap:
  fixes x :: "'a::len word"
  assumes "256 ^ n = (2 :: nat) ^ LENGTH('a)"
  shows "to_mem n (bswap n x) = be_bytes n (unat x)"
  by (simp add: to_mem_def be_bytes_def unat_bswap [OF assms] le_bytes_le_num)

lemma bswap_of_mem:
  fixes bs :: "byte list"
  assumes "256 ^ n = (2 :: nat) ^ LENGTH('a::len)" and "length bs = n"
  shows "bswap n (of_mem bs :: 'a word) = of_nat (be_num bs)"
proof -
  have "unat (of_nat (le_num bs) :: 'a word) = le_num bs"
    using le_num_less [of bs] assms by (simp add: unat_of_nat)
  then show ?thesis
    using assms by (simp add: bswap_def of_mem_def be_num_def le_bytes_le_num)
qed

lemma bswap_bswap:
  fixes x :: "'a::len word"
  assumes n: "256 ^ n = (2 :: nat) ^ LENGTH('a)"
  shows "bswap n (bswap n x) = x"
proof -
  have "unat x mod 256 ^ n = unat x"
    using n unsigned_less [of x, where 'a = nat] by simp
  moreover have "le_bytes n (unat (bswap n x)) = rev (le_bytes n (unat x))"
    by (simp add: unat_bswap [OF n] le_bytes_le_num)
  ultimately show ?thesis
    by (simp add: bswap_def le_num_le_bytes)
qed

lemma le_bytes_0 [simp]: "le_bytes n 0 = replicate n 0"
  by (induction n) simp_all

lemma le_num_replicate_0 [simp]: "le_num (replicate n 0) = 0"
  by (induction n) simp_all

lemma bswap_0 [simp]: "bswap n 0 = 0"
  by (simp add: bswap_def)

lemma to_mem_cpu_to_be [simp]:
  "to_mem 2 (cpu_to_be16 v) = be_bytes 2 (unat v)"
  "to_mem 4 (cpu_to_be32 w) = be_bytes 4 (unat w)"
  "to_mem 8 (cpu_to_be64 x) = be_bytes 8 (unat x)"
  by (simp_all add: cpu_to_be16_def cpu_to_be32_def cpu_to_be64_def to_mem_bswap)

lemma be_to_cpu_of_mem [simp]:
  "length bs = 2 \<Longrightarrow> be16_to_cpu (of_mem bs) = of_nat (be_num bs)"
  "length bs = 4 \<Longrightarrow> be32_to_cpu (of_mem bs) = of_nat (be_num bs)"
  "length bs = 8 \<Longrightarrow> be64_to_cpu (of_mem bs) = of_nat (be_num bs)"
  by (simp_all add: be16_to_cpu_def be32_to_cpu_def be64_to_cpu_def bswap_of_mem)

lemma be32_to_cpu_cpu_to_be32 [simp]:
  "be32_to_cpu (cpu_to_be32 x) = x"
  "cpu_to_be32 (be32_to_cpu x) = x"
  by (simp_all add: be32_to_cpu_def cpu_to_be32_def bswap_bswap)

lemma of_nat_be_num_be_bytes [simp]:
  "of_nat (be_num (be_bytes 2 (unat (v :: u16)))) = v"
  "of_nat (be_num (be_bytes 4 (unat (w :: u32)))) = w"
  "of_nat (be_num (be_bytes 8 (unat (x :: u64)))) = x"
  using unsigned_less [of v, where 'a = nat] unsigned_less [of w, where 'a = nat]
    unsigned_less [of x, where 'a = nat]
  by (simp_all add: be_num_be_bytes)

section \<open>Conversions between the widths\<close>

lemma unat_ucast_u32_u64 [simp]: "unat (ucast (x :: u32) :: u64) = unat x"
proof -
  have "unat (ucast x :: u64) = take_bit 64 (unat x)"
    by (simp add: unsigned_ucast_eq)
  also have "\<dots> = unat x"
    using unsigned_less [of x, where 'a = nat] by (simp add: take_bit_nat_eq_self)
  finally show ?thesis .
qed

lemma unat_ucast_u64_u32: "unat (ucast (x :: u64) :: u32) = unat x mod 2 ^ 32"
proof -
  have "unat (ucast x :: u32) = take_bit 32 (unat x)"
    by (simp add: unsigned_ucast_eq)
  then show ?thesis by (simp only: take_bit_eq_mod)
qed

lemma unat_ucast_u64_u32_small [simp]:
  "unat (x :: u64) < 2 ^ 32 \<Longrightarrow> unat (ucast x :: u32) = unat x"
  by (simp add: unat_ucast_u64_u32)

lemma ucast_u32_le_iff: "(x :: u64) \<le> ucast (y :: u32) \<longleftrightarrow> unat x \<le> unat y"
  by (simp add: word_le_nat_alt)

lemma ucast_u32_less_iff: "(x :: u64) < ucast (y :: u32) \<longleftrightarrow> unat x < unat y"
  by (simp add: word_less_nat_alt)

lemma u32_bound: "unat (x :: u32) < 2 ^ 32"
  using unsigned_less [of x, where 'a = nat] by simp

lemma u64_bound: "unat (x :: u64) < 2 ^ 64"
  using unsigned_less [of x, where 'a = nat] by simp

lemma unat_add_small:
  "unat (x :: u64) + unat y < 2 ^ 64 \<Longrightarrow> unat (x + y) = unat x + unat y"
  by (simp add: unat_word_ariths)

lemma ucast_of_nat_u64_u32: "(ucast (of_nat n :: u64) :: u32) = of_nat n"
  by (rule word_unat_eq_iff [THEN iffD2])
    (simp add: unat_ucast_u64_u32 unat_of_nat mod_mod_cancel)

lemma sint_u64_small:
  assumes "unat (x :: u64) < 2 ^ 63"
  shows "sint x = int (unat x)"
proof -
  have "int (unat x) < int (2 ^ 63)" using assms by (simp only: of_nat_less_iff)
  then have "uint x < 2 ^ 63" by simp
  moreover have "- (2 ^ 63) \<le> uint x" by (rule order_trans [OF _ uint_nonnegative]) simp
  ultimately have "signed_take_bit 63 (uint x) = uint x"
    by (intro signed_take_bit_int_eq_self)
  then show ?thesis by (simp add: sint_uint)
qed

section \<open>Early returns\<close>

text \<open>
  \<open>read_or m e k\<close>: "if the read \<open>m\<close> returns false, return \<open>e\<close>", else go on with the value
  and the new position. \<open>write_or m e bh pos k\<close>: the same for a write; when it fails, the
  buffer and the position are what the earlier writes left.
\<close>

definition read_or ::
  "('a \<times> nat) option outcome \<Rightarrow> 'e \<Rightarrow> ('a \<Rightarrow> nat \<Rightarrow> ('e + 'b) outcome) \<Rightarrow> ('e + 'b) outcome"
where
  "read_or m e k = bnd m (\<lambda>r. case r of None \<Rightarrow> Done (Inl e) | Some (v, pos) \<Rightarrow> k v pos)"

definition write_or ::
  "(buf \<times> nat) option outcome \<Rightarrow> int \<Rightarrow> buf \<Rightarrow> nat \<Rightarrow>
    (buf \<Rightarrow> nat \<Rightarrow> (int \<times> buf \<times> nat) outcome) \<Rightarrow> (int \<times> buf \<times> nat) outcome"
where
  "write_or m e bh pos k =
     bnd m (\<lambda>r. case r of None \<Rightarrow> Done (e, bh, pos) | Some (bh', pos') \<Rightarrow> k bh' pos')"

lemma read_or_simps [simp]:
  "read_or (Done None) e k = Done (Inl e)"
  "read_or (Done (Some (v, pos))) e k = k v pos"
  "read_or (Crash c) e k = Crash c"
  by (simp_all add: read_or_def)

lemma write_or_simps [simp]:
  "write_or (Done None) e bh pos k = Done (e, bh, pos)"
  "write_or (Done (Some (bh', pos'))) e bh pos k = k bh' pos'"
  "write_or (Crash c) e bh pos k = Crash c"
  by (simp_all add: write_or_def)

lemma read_or_Inl:
  "read_or m e k = Done (Inl x) \<longleftrightarrow>
    m = Done None \<and> x = e \<or> (\<exists>v pos. m = Done (Some (v, pos)) \<and> k v pos = Done (Inl x))"
  by (cases m) (auto simp: read_or_def split: option.split)

lemma read_or_Inr:
  "read_or m e k = Done (Inr x) \<longleftrightarrow> (\<exists>v pos. m = Done (Some (v, pos)) \<and> k v pos = Done (Inr x))"
  by (cases m) (auto simp: read_or_def split: option.split)

text \<open>However far a chain of writes gets, the size of the buffer stays.\<close>

definition keeps :: "nat \<Rightarrow> (int \<times> buf \<times> nat) outcome \<Rightarrow> bool" where
  "keeps n m \<longleftrightarrow> (\<forall>res b pos. m = Done (res, b, pos) \<longrightarrow> length b = n)"

lemma keeps_Done [intro]: "length b = n \<Longrightarrow> keeps n (Done (res, b, pos))"
  by (simp add: keeps_def)

lemma keeps_write_or [intro]:
  assumes "length bh = n" and "\<And>b' pos'. m = Done (Some (b', pos')) \<Longrightarrow> length b' = length bh"
    and "\<And>b' pos'. length b' = n \<Longrightarrow> keeps n (k b' pos')"
  shows "keeps n (write_or m e bh pos k)"
proof (cases m)
  case (Done r)
  show ?thesis
  proof (cases r)
    case None
    then show ?thesis using Done assms(1) by (simp add: keeps_Done)
  next
    case (Some q)
    then show ?thesis using Done assms by (cases q) simp
  qed
qed (simp add: keeps_def)

lemma keeps_result:
  "bnd m (\<lambda>(res, bh, pos). Done (res, bh)) = Done (res, b') \<Longrightarrow> keeps n m \<Longrightarrow> length b' = n"
  by (auto simp: keeps_def bnd_Done_iff)

end
