(* ===== verification/Sb_Util.thy ===== *)
theory Sb_Util
  imports Spfs_Prelude
begin

text \<open>
  The cursor based reads and writes of util.c. Each checks how many bytes remain after the
  position, moves a value between the buffer and the caller in big-endian order, and advances
  the position. The C functions return a bool and change their arguments; here \<open>None\<close> is
  false (nothing changed) and \<open>Some\<close> carries the new value and position.
\<close>

section \<open>The functions of util.c\<close>

definition spfs_sb_remaining :: "buf \<Rightarrow> nat \<Rightarrow> nat outcome" where
  "spfs_sb_remaining bh pos = bug_on (length bh < pos) (Done (length bh - pos))"

definition spfs_sb_read_u16 :: "buf \<Rightarrow> nat \<Rightarrow> (u16 \<times> nat) option outcome" where
  "spfs_sb_read_u16 bh pos =
     bnd (spfs_sb_remaining bh pos) (\<lambda>remaining.
       if remaining < 2 then Done None
       else Done (Some (be16_to_cpu (of_mem (load bh pos 2)), pos + 2)))"

definition spfs_sb_write_u16 :: "buf \<Rightarrow> nat \<Rightarrow> u16 \<Rightarrow> (buf \<times> nat) option outcome" where
  "spfs_sb_write_u16 bh pos val =
     bnd (spfs_sb_remaining bh pos) (\<lambda>remaining.
       if remaining < 2 then Done None
       else Done (Some (store bh pos (to_mem 2 (cpu_to_be16 val)), pos + 2)))"

definition spfs_sb_read_u32 :: "buf \<Rightarrow> nat \<Rightarrow> (u32 \<times> nat) option outcome" where
  "spfs_sb_read_u32 bh pos =
     bnd (spfs_sb_remaining bh pos) (\<lambda>remaining.
       if remaining < 4 then Done None
       else Done (Some (be32_to_cpu (of_mem (load bh pos 4)), pos + 4)))"

definition spfs_sb_write_u32 :: "buf \<Rightarrow> nat \<Rightarrow> u32 \<Rightarrow> (buf \<times> nat) option outcome" where
  "spfs_sb_write_u32 bh pos val =
     bnd (spfs_sb_remaining bh pos) (\<lambda>remaining.
       if remaining < 4 then Done None
       else Done (Some (store bh pos (to_mem 4 (cpu_to_be32 val)), pos + 4)))"

definition spfs_sb_read_u64 :: "buf \<Rightarrow> nat \<Rightarrow> (u64 \<times> nat) option outcome" where
  "spfs_sb_read_u64 bh pos =
     bnd (spfs_sb_remaining bh pos) (\<lambda>remaining.
       if remaining < 8 then Done None
       else Done (Some (be64_to_cpu (of_mem (load bh pos 8)), pos + 8)))"

definition spfs_sb_write_u64 :: "buf \<Rightarrow> nat \<Rightarrow> u64 \<Rightarrow> (buf \<times> nat) option outcome" where
  "spfs_sb_write_u64 bh pos val =
     bnd (spfs_sb_remaining bh pos) (\<lambda>remaining.
       if remaining < 8 then Done None
       else Done (Some (store bh pos (to_mem 8 (cpu_to_be64 val)), pos + 8)))"

text \<open>
  Inode numbers and sector numbers are 64-bit in memory and 32-bit on the wire. The bound
  check uses the size of the in-memory type (8 bytes), the copy moves 4.
\<close>

definition spfs_sb_read_ino :: "buf \<Rightarrow> nat \<Rightarrow> (u64 \<times> nat) option outcome" where
  "spfs_sb_read_ino bh pos =
     bnd (spfs_sb_remaining bh pos) (\<lambda>remaining.
       if remaining < 8 then Done None
       else let dummy = of_mem (load bh pos 4) in
            Done (Some (ucast (be32_to_cpu dummy), pos + 4)))"

definition spfs_sb_write_ino :: "buf \<Rightarrow> nat \<Rightarrow> u64 \<Rightarrow> (buf \<times> nat) option outcome" where
  "spfs_sb_write_ino bh pos val =
     bnd (spfs_sb_remaining bh pos) (\<lambda>remaining.
       if remaining < 8 then Done None
       else let dummy = cpu_to_be32 (ucast val) in
            Done (Some (store bh pos (to_mem 4 dummy), pos + 4)))"

definition spfs_sb_read_sector :: "buf \<Rightarrow> nat \<Rightarrow> (u64 \<times> nat) option outcome" where
  "spfs_sb_read_sector bh pos =
     bnd (spfs_sb_remaining bh pos) (\<lambda>remaining.
       if remaining < 8 then Done None
       else let dummy = of_mem (load bh pos 4) in
            Done (Some (ucast (be32_to_cpu dummy), pos + 4)))"

definition spfs_sb_write_sector :: "buf \<Rightarrow> nat \<Rightarrow> u64 \<Rightarrow> (buf \<times> nat) option outcome" where
  "spfs_sb_write_sector bh pos val =
     bnd (spfs_sb_remaining bh pos) (\<lambda>remaining.
       if remaining < 8 then Done None
       else let dummy = ucast val; dummy = cpu_to_be32 dummy in
            Done (Some (store bh pos (to_mem 4 dummy), pos + 4)))"

definition spfs_sb_read_str :: "buf \<Rightarrow> nat \<Rightarrow> nat \<Rightarrow> (byte list \<times> nat) option outcome" where
  "spfs_sb_read_str bh pos len =
     bnd (spfs_sb_remaining bh pos) (\<lambda>remaining.
       if remaining < len then Done None
       else Done (Some (load bh pos len, pos + len)))"

text \<open>
  \<open>spfs_sb_write_str\<close> passes \<open>&str\<close> to \<open>memcpy\<close>: it copies the bytes that start at the
  address of its own parameter \<open>str\<close>, not the string the parameter points to. These bytes
  are the pointer's value and whatever lies above it on the stack; \<open>frame i\<close> is the byte at
  \<open>(char *)&str + i\<close>. The string itself is never read.
\<close>

definition spfs_sb_write_str ::
  "(nat \<Rightarrow> byte) \<Rightarrow> buf \<Rightarrow> nat \<Rightarrow> byte list \<Rightarrow> nat \<Rightarrow> (buf \<times> nat) option outcome"
where
  "spfs_sb_write_str frame bh pos str len =
     bnd (spfs_sb_remaining bh pos) (\<lambda>remaining.
       if remaining < len then Done None
       else Done (Some (store bh pos (map frame [0..<len]), pos + len)))"

section \<open>The contract of a field\<close>

text \<open>
  A write of \<open>v\<close> at \<open>p\<close> succeeds, the read of the same field gives \<open>v'\<close>, the size of the
  buffer and every byte outside the \<open>w\<close> bytes of the field stay.
\<close>

definition field_ok ::
  "(buf \<Rightarrow> nat \<Rightarrow> ('a \<times> nat) option outcome) \<Rightarrow> (buf \<Rightarrow> nat \<Rightarrow> 'a \<Rightarrow> (buf \<times> nat) option outcome) \<Rightarrow>
    nat \<Rightarrow> buf \<Rightarrow> nat \<Rightarrow> 'a \<Rightarrow> 'a \<Rightarrow> bool"
where
  "field_ok rd wr w b p v v' \<longleftrightarrow>
     (\<exists>b'. wr b p v = Done (Some (b', p + w)) \<and> rd b' p = Done (Some (v', p + w)) \<and>
       length b' = length b \<and> (\<forall>q n. q + n \<le> p \<or> p + w \<le> q \<longrightarrow> load b' q n = load b q n))"

text \<open>
  What every pair of a read and a write of util.c promises its callers. \<open>need\<close> bytes must
  remain, \<open>width\<close> bytes are moved, \<open>enc\<close> and \<open>dec\<close> are the wire representation and
  \<open>norm\<close> is the part of a value that survives it.
\<close>

locale wire_field =
  fixes rd :: "buf \<Rightarrow> nat \<Rightarrow> ('a \<times> nat) option outcome"
    and wr :: "buf \<Rightarrow> nat \<Rightarrow> 'a \<Rightarrow> (buf \<times> nat) option outcome"
    and need :: nat
    and width :: nat
    and enc :: "'a \<Rightarrow> byte list"
    and dec :: "byte list \<Rightarrow> 'a"
    and norm :: "'a \<Rightarrow> 'a"
  assumes width_le_need: "width \<le> need"
    and rd_eq: "rd b pos =
      (if length b < pos then Crash BugOn
       else if length b < pos + need then Done None
       else Done (Some (dec (load b pos width), pos + width)))"
    and wr_eq: "wr b pos v =
      (if length b < pos then Crash BugOn
       else if length b < pos + need then Done None
       else Done (Some (store b pos (enc v), pos + width)))"
    and length_enc: "length (enc v) = width"
    and dec_enc: "dec (enc v) = norm v"
begin

lemma rd_ok: "pos + need \<le> length b \<Longrightarrow> rd b pos = Done (Some (dec (load b pos width), pos + width))"
  by (simp add: rd_eq)

lemma wr_ok: "pos + need \<le> length b \<Longrightarrow> wr b pos v = Done (Some (store b pos (enc v), pos + width))"
  by (simp add: wr_eq)

lemma wr_Some_iff:
  "wr b pos v = Done (Some (b', pos')) \<longleftrightarrow>
    pos + need \<le> length b \<and> b' = store b pos (enc v) \<and> pos' = pos + width"
  by (auto simp: wr_eq)

lemma rd_Some_iff:
  "rd b pos = Done (Some (v, pos')) \<longleftrightarrow>
    pos + need \<le> length b \<and> v = dec (load b pos width) \<and> pos' = pos + width"
  by (auto simp: rd_eq)

lemma wr_length: "wr b pos v = Done (Some (b', pos')) \<Longrightarrow> length b' = length b"
  using width_le_need by (auto simp: wr_Some_iff length_enc)

lemma roundtrip:
  assumes "wr b pos v = Done (Some (b', pos'))"
  shows "rd b' pos = Done (Some (norm v, pos'))"
  using assms width_le_need by (auto simp: wr_Some_iff rd_eq length_enc dec_enc)

lemma frame_rule:
  assumes "wr b pos v = Done (Some (b', pos'))" and "p + n \<le> pos \<or> pos' \<le> p"
  shows "load b' p n = load b p n"
  using assms width_le_need
  by (auto simp: wr_Some_iff length_enc load_store_before load_store_after)

lemma field:
  assumes "pos + need \<le> length b"
  shows "field_ok rd wr width b pos v (norm v)"
proof -
  note w = wr_ok [OF assms, of v]
  show ?thesis
    unfolding field_ok_def
    using w roundtrip [OF w] wr_length [OF w] frame_rule [OF w] by blast
qed

lemma short_read: "pos \<le> length b \<Longrightarrow> length b < pos + need \<Longrightarrow> rd b pos = Done None"
  by (simp add: rd_eq)

lemma short_write: "pos \<le> length b \<Longrightarrow> length b < pos + need \<Longrightarrow> wr b pos v = Done None"
  by (simp add: wr_eq)

lemma beyond_end: "length b < pos \<Longrightarrow> rd b pos = Crash BugOn \<and> wr b pos v = Crash BugOn"
  by (simp add: rd_eq wr_eq)

end

text \<open>The fields of util.c meet the contract.\<close>

definition low32 :: "u64 \<Rightarrow> u64" where
  "low32 v = ucast (ucast v :: u32)"

lemma unat_low32: "unat (low32 v) = unat v mod 2 ^ 32"
proof -
  have "unat (low32 v) = take_bit 32 (unat v)"
    by (simp add: low32_def unsigned_ucast_eq unsigned_take_bit_eq)
  then show ?thesis by (simp only: take_bit_eq_mod)
qed

lemma ucast_u32_u64_u32 [simp]: "(ucast (ucast (x :: u32) :: u64) :: u32) = x"
  by (rule bit_word_eqI) (simp add: bit_simps)

lemma ucast_low32 [simp]: "(ucast (low32 x) :: u32) = ucast x"
  by (simp add: low32_def)

lemma low32_ucast [simp]: "low32 (ucast (x :: u32)) = ucast x"
  by (simp add: low32_def)

lemma low32_low32 [simp]: "low32 (low32 x) = low32 x"
  by (simp add: low32_def)

lemma low32_small: "unat v < 2 ^ 32 \<Longrightarrow> low32 v = v"
  by (rule word_unat_eq_iff [THEN iffD2]) (simp add: unat_low32)

lemmas util_defs =
  spfs_sb_remaining_def spfs_sb_read_u16_def spfs_sb_write_u16_def spfs_sb_read_u32_def
  spfs_sb_write_u32_def spfs_sb_read_u64_def spfs_sb_write_u64_def spfs_sb_read_ino_def
  spfs_sb_write_ino_def spfs_sb_read_sector_def spfs_sb_write_sector_def spfs_sb_read_str_def
  spfs_sb_write_str_def

interpretation fu16: wire_field spfs_sb_read_u16 spfs_sb_write_u16 2 2
  "\<lambda>v. be_bytes 2 (unat v)" "\<lambda>bs. of_nat (be_num bs)" "\<lambda>v. v"
  by unfold_locales (auto simp: util_defs bug_on_def)

interpretation fu32: wire_field spfs_sb_read_u32 spfs_sb_write_u32 4 4
  "\<lambda>v. be_bytes 4 (unat v)" "\<lambda>bs. of_nat (be_num bs)" "\<lambda>v. v"
  by unfold_locales (auto simp: util_defs bug_on_def)

interpretation fu64: wire_field spfs_sb_read_u64 spfs_sb_write_u64 8 8
  "\<lambda>v. be_bytes 8 (unat v)" "\<lambda>bs. of_nat (be_num bs)" "\<lambda>v. v"
  by unfold_locales (auto simp: util_defs bug_on_def)

interpretation fino: wire_field spfs_sb_read_ino spfs_sb_write_ino 8 4
  "\<lambda>v. be_bytes 4 (unat (ucast v :: u32))" "\<lambda>bs. ucast (of_nat (be_num bs) :: u32)" low32
  by unfold_locales (auto simp: util_defs bug_on_def low32_def)

interpretation fsec: wire_field spfs_sb_read_sector spfs_sb_write_sector 8 4
  "\<lambda>v. be_bytes 4 (unat (ucast v :: u32))" "\<lambda>bs. ucast (of_nat (be_num bs) :: u32)" low32
  by unfold_locales (auto simp: util_defs bug_on_def low32_def)

interpretation fstr: wire_field "\<lambda>b pos. spfs_sb_read_str b pos len"
  "\<lambda>b pos str. spfs_sb_write_str frame b pos str len" len len
  "\<lambda>_. map frame [0..<len]" "\<lambda>bs. bs" "\<lambda>_. map frame [0..<len]"
  for frame :: "nat \<Rightarrow> byte" and len :: nat
  by unfold_locales (auto simp: util_defs bug_on_def)

lemmas field_reads = fu16.rd_ok fu32.rd_ok fu64.rd_ok fino.rd_ok fsec.rd_ok fstr.rd_ok
lemmas field_writes = fu16.wr_ok fu32.wr_ok fu64.wr_ok fino.wr_ok fsec.wr_ok fstr.wr_ok

lemmas field_lengths = fu16.wr_length fu32.wr_length fu64.wr_length fino.wr_length
  fsec.wr_length fstr.wr_length

section \<open>Properties\<close>

text \<open>
  C40: In a buffer with 8 bytes left, each write of util.c succeeds, advances by the width of
  the field and touches no other byte, and the matching read gives the value back: in full for
  the 16, 32 and 64-bit integers, its low 32 bits for inode and sector numbers.
\<close>

theorem util_roundtrip:
  assumes "p + 8 \<le> length b"
  shows "field_ok spfs_sb_read_u16 spfs_sb_write_u16 2 b p v v \<and>
    field_ok spfs_sb_read_u32 spfs_sb_write_u32 4 b p w w \<and>
    field_ok spfs_sb_read_u64 spfs_sb_write_u64 8 b p x x \<and>
    field_ok spfs_sb_read_ino spfs_sb_write_ino 4 b p y (low32 y) \<and>
    field_ok spfs_sb_read_sector spfs_sb_write_sector 4 b p z (low32 z)"
  using assms by (simp add: fu16.field fu32.field fu64.field fino.field fsec.field)

theorem util_roundtrip_witness:
  "field_ok spfs_sb_read_u16 spfs_sb_write_u16 2 (replicate 9 0) 1 513 513 \<and>
    field_ok spfs_sb_read_ino spfs_sb_write_ino 4 (replicate 9 0) 1 0x100000005 5"
  using util_roundtrip [of 1 "replicate 9 0" 513 0 0 "0x100000005" 0] by (simp add: low32_def)

text \<open>
  With fewer than 8 bytes left, reading or writing a 64-bit integer, an inode number or a
  sector number reports failure, although only 4 bytes of the last two are moved; a position
  beyond the end of the buffer stops the kernel.
\<close>

theorem util_short_buffer:
  assumes "length b < p + 8"
  shows "if length b < p
    then spfs_sb_read_u64 b p = Crash BugOn \<and> spfs_sb_write_u64 b p v = Crash BugOn \<and>
      spfs_sb_read_ino b p = Crash BugOn \<and> spfs_sb_write_ino b p v = Crash BugOn \<and>
      spfs_sb_read_sector b p = Crash BugOn \<and> spfs_sb_write_sector b p v = Crash BugOn
    else spfs_sb_read_u64 b p = Done None \<and> spfs_sb_write_u64 b p v = Done None \<and>
      spfs_sb_read_ino b p = Done None \<and> spfs_sb_write_ino b p v = Done None \<and>
      spfs_sb_read_sector b p = Done None \<and> spfs_sb_write_sector b p v = Done None"
  using assms by (simp add: fu64.beyond_end fino.beyond_end fsec.beyond_end
      fu64.short_read fino.short_read fsec.short_read fu64.short_write fino.short_write fsec.short_write)

theorem util_short_buffer_witness:
  "spfs_sb_read_ino (replicate 12 0) 8 = Done None \<and> spfs_sb_write_ino (replicate 12 0) 13 1 = Crash BugOn"
  using util_short_buffer [of "replicate 12 0" 8 1] util_short_buffer [of "replicate 12 0" 13 1] by simp

text \<open>
  \<open>spfs_sb_write_str\<close> never writes the string it is given: two calls with different
  strings write the same bytes, and reading the field back gives the bytes found at the address
  of the parameter itself.
\<close>

theorem write_str_ignores_string:
  assumes "p + n \<le> length b"
  shows "\<exists>b'. spfs_sb_write_str frame b p str n = Done (Some (b', p + n)) \<and>
    spfs_sb_write_str frame b p str' n = Done (Some (b', p + n)) \<and>
    spfs_sb_read_str b' p n = Done (Some (map frame [0..<n], p + n))"
proof -
  have "spfs_sb_write_str frame b p str n = spfs_sb_write_str frame b p str' n"
    by (simp add: spfs_sb_write_str_def)
  then show ?thesis
    using fstr.field [OF assms, of frame str] by (auto simp: field_ok_def)
qed

theorem write_str_ignores_string_witness:
  "\<exists>b'. spfs_sb_write_str (\<lambda>_. 7) (replicate 8 0) 2 [65, 66] 2 = Done (Some (b', 4)) \<and>
    spfs_sb_write_str (\<lambda>_. 7) (replicate 8 0) 2 [67, 68] 2 = Done (Some (b', 4)) \<and>
    spfs_sb_read_str b' 2 2 = Done (Some (map (\<lambda>_. 7) [0..<2], 4))"
  using write_str_ignores_string [of 2 2 "replicate 8 0" "\<lambda>_. 7" "[65, 66]" "[67, 68]"]
  by simp

end
