(* ===== verification/Block_Dev.thy ===== *)
theory Block_Dev
  imports Sb_Util
begin

text \<open>
  The part of the kernel's buffer cache the file system calls: \<open>sb_bread\<close>, \<open>brelse\<close> and
  \<open>mark_buffer_dirty\<close>, with their documented behaviour. A block has one buffer, shared by
  everybody who reads it, so a write through one \<open>buffer_head\<close> is seen by the next
  \<open>sb_bread\<close> of the same block. Blocks that cannot be read map to \<open>None\<close>.

  The device also records which buffers were marked dirty (only these reach the disk) and
  how many references are held on each (so that a missing \<open>brelse\<close> shows).
\<close>

record dev =
  d_blocks :: "u64 \<Rightarrow> buf option"
  d_dirty :: "u64 set"
  d_refs :: "u64 \<Rightarrow> nat"

definition sb_bread :: "dev \<Rightarrow> u64 \<Rightarrow> (buf \<times> dev) option" where
  "sb_bread d n =
     (case d_blocks d n of
        None \<Rightarrow> None
      | Some b \<Rightarrow> Some (b, d\<lparr>d_refs := (d_refs d)(n := d_refs d n + 1)\<rparr>))"

definition brelse :: "dev \<Rightarrow> u64 \<Rightarrow> dev" where
  "brelse d n = d\<lparr>d_refs := (d_refs d)(n := d_refs d n - 1)\<rparr>"

definition mark_buffer_dirty :: "dev \<Rightarrow> u64 \<Rightarrow> dev" where
  "mark_buffer_dirty d n = d\<lparr>d_dirty := insert n (d_dirty d)\<rparr>"

text \<open>Access to the content of a buffer that is held: \<open>bh->b_data\<close> of block \<open>n\<close>.\<close>

definition get_buf :: "dev \<Rightarrow> u64 \<Rightarrow> buf outcome" where
  "get_buf d n = (case d_blocks d n of None \<Rightarrow> Crash BadAccess | Some b \<Rightarrow> Done b)"

definition put_buf :: "dev \<Rightarrow> u64 \<Rightarrow> buf \<Rightarrow> dev" where
  "put_buf d n b = d\<lparr>d_blocks := (d_blocks d)(n \<mapsto> b)\<rparr>"

lemma sb_bread_None [simp]: "sb_bread d n = None \<longleftrightarrow> d_blocks d n = None"
  by (simp add: sb_bread_def split: option.splits)

lemma sb_bread_Some:
  "sb_bread d n = Some (b, d') \<longleftrightarrow>
    d_blocks d n = Some b \<and> d' = d\<lparr>d_refs := (d_refs d)(n := d_refs d n + 1)\<rparr>"
  by (auto simp: sb_bread_def split: option.splits)

lemma sb_bread_readable:
  "d_blocks d n = Some b \<Longrightarrow> sb_bread d n = Some (b, d\<lparr>d_refs := (d_refs d)(n := d_refs d n + 1)\<rparr>)"
  by (simp add: sb_bread_def)

lemma sb_bread_unreadable: "d_blocks d n = None \<Longrightarrow> sb_bread d n = None"
  by simp

lemma get_buf_Done [simp]: "get_buf d n = Done b \<longleftrightarrow> d_blocks d n = Some b"
  by (simp add: get_buf_def split: option.splits)

lemma dev_ops_simps [simp]:
  "d_blocks (brelse d n) = d_blocks d"
  "d_dirty (brelse d n) = d_dirty d"
  "d_blocks (mark_buffer_dirty d n) = d_blocks d"
  "d_dirty (mark_buffer_dirty d n) = insert n (d_dirty d)"
  "d_refs (mark_buffer_dirty d n) = d_refs d"
  "d_blocks (put_buf d n b) = (d_blocks d)(n \<mapsto> b)"
  "d_dirty (put_buf d n b) = d_dirty d"
  "d_refs (put_buf d n b) = d_refs d"
  by (simp_all add: brelse_def mark_buffer_dirty_def put_buf_def)

lemma brelse_bread [simp]: "brelse (d\<lparr>d_refs := (d_refs d)(n := Suc (d_refs d n))\<rparr>) n = d"
  by (simp add: brelse_def)

text \<open>
  All buffers have the block size of the mount; no operation of the file system changes the
  size of a buffer or makes a block readable or unreadable.
\<close>

definition dev_ok :: "nat \<Rightarrow> dev \<Rightarrow> bool" where
  "dev_ok bsz d \<longleftrightarrow> (\<forall>n b. d_blocks d n = Some b \<longrightarrow> length b = bsz)"

definition same_shape :: "dev \<Rightarrow> dev \<Rightarrow> bool" where
  "same_shape d d' \<longleftrightarrow>
     (\<forall>n. map_option length (d_blocks d' n) = map_option length (d_blocks d n)) \<and>
     d_dirty d \<subseteq> d_dirty d'"

text \<open>Every block whose content differs from \<open>d\<close> is marked dirty in \<open>d'\<close>.\<close>

definition dirty_complete :: "dev \<Rightarrow> dev \<Rightarrow> bool" where
  "dirty_complete d d' \<longleftrightarrow> (\<forall>n. d_blocks d' n \<noteq> d_blocks d n \<longrightarrow> n \<in> d_dirty d')"

lemma same_shape_refl [simp]: "same_shape d d"
  by (simp add: same_shape_def)

lemma same_shape_trans [trans]: "same_shape d e \<Longrightarrow> same_shape e f \<Longrightarrow> same_shape d f"
  by (auto simp: same_shape_def)

lemma same_shape_ok: "same_shape d d' \<Longrightarrow> dev_ok n d \<Longrightarrow> dev_ok n d'"
  unfolding same_shape_def dev_ok_def
  by (metis length_map map_option_eq_Some option.simps(9))

lemma same_shape_refs [simp]:
  "same_shape d (d'\<lparr>d_refs := r\<rparr>) = same_shape d d'"
  "same_shape d (brelse d' n) = same_shape d d'"
  by (simp_all add: same_shape_def brelse_def)

lemma same_shape_dirty: "same_shape d d' \<Longrightarrow> same_shape d (mark_buffer_dirty d' n)"
  by (auto simp: same_shape_def)

lemma same_shape_put:
  "same_shape d d' \<Longrightarrow> d_blocks d' n = Some b \<Longrightarrow> length b' = length b \<Longrightarrow>
    same_shape d (put_buf d' n b')"
  unfolding same_shape_def by (metis dev_ops_simps(6,7) fun_upd_apply option.simps(9))

end
