(* ===== verification/Free_List.thy ===== *)
theory Free_List
  imports Block_Dev
begin

text \<open>
  free_list.c: the free list is read from a chain of blocks at mount and kept as a linked
  list of nodes; an allocation takes blocks from the end of the first node that has enough.
  Its mutex is taken and released inside \<open>spfs_free_alloc\<close> with no early return, so an
  allocation is one step here.
\<close>

section \<open>State\<close>

record spfs_free_node =
  fn_start :: u64
  fn_blocks :: u32

record spfs_free_list =
  fl_blocks :: u32
  fl_root :: "spfs_free_node list"

definition SPOOKY_FS_FL_MAGIC :: u32 where
  "SPOOKY_FS_FL_MAGIC = 0xDEADBEEF"

section \<open>Reading the free list at mount\<close>

definition spfs_read_entry :: "buf \<Rightarrow> nat \<Rightarrow> (int + spfs_free_node \<times> nat) outcome" where
  "spfs_read_entry bh bh_pos =
     read_or (spfs_sb_read_sector bh bh_pos) 1 (\<lambda>start bh_pos.
     read_or (spfs_sb_read_u32 bh bh_pos) 1 (\<lambda>blocks bh_pos.
     Done (Inr (\<lparr>fn_start = start, fn_blocks = blocks\<rparr>, bh_pos))))"

text \<open>\<open>kz_ok\<close>: whether the \<open>kzalloc\<close> of the node succeeds. \<open>None\<close> is the null pointer.\<close>

definition spfs_init_free_list_entry ::
  "bool \<Rightarrow> buf \<Rightarrow> nat \<Rightarrow> (spfs_free_node \<times> nat) option outcome"
where
  "spfs_init_free_list_entry kz_ok bh bh_pos =
     (if \<not> kz_ok then Done None
      else bnd (spfs_read_entry bh bh_pos) (\<lambda>r.
        case r of Inl _ \<Rightarrow> Done None | Inr node \<Rightarrow> Done (Some node)))"

definition spfs_read_header :: "buf \<Rightarrow> nat \<Rightarrow> (int + u32 \<times> u64 \<times> nat) outcome" where
  "spfs_read_header bh bh_pos =
     read_or (spfs_sb_read_u32 bh bh_pos) (- EINVAL) (\<lambda>magic bh_pos.
     read_or (spfs_sb_read_u32 bh bh_pos) (- EINVAL) (\<lambda>length bh_pos.
     read_or (spfs_sb_read_sector bh bh_pos) (- EINVAL) (\<lambda>next bh_pos.
     if magic \<noteq> SPOOKY_FS_FL_MAGIC then Done (Inl (- EINVAL))
     else Done (Inr (length, next, bh_pos)))))"

text \<open>
  The \<open>for\<close> loop over the entries of a block: \<open>n\<close> entries are left. \<open>kz k\<close> says whether
  the \<open>k\<close>-th \<open>kzalloc\<close> succeeds; the nodes already linked count the earlier ones. The
  bool is false when an entry could not be made and the function returns 1.
\<close>

fun free_init_entries ::
  "(nat \<Rightarrow> bool) \<Rightarrow> nat \<Rightarrow> buf \<Rightarrow> nat \<Rightarrow> spfs_free_list \<Rightarrow> (bool \<times> spfs_free_list) outcome"
where
  "free_init_entries kz 0 bh bh_pos list = Done (True, list)"
| "free_init_entries kz (Suc n) bh bh_pos list =
     bnd (spfs_init_free_list_entry (kz (length (fl_root list))) bh bh_pos) (\<lambda>r.
       case r of
         None \<Rightarrow> Done (False, list)
       | Some (node, bh_pos) \<Rightarrow>
           free_init_entries kz n bh bh_pos
             (list\<lparr>fl_root := node # fl_root list, fl_blocks := fl_blocks list + fn_blocks node\<rparr>))"

text \<open>The loop over the chain of blocks (\<open>goto Lit\<close>), with fuel for the blocks visited.\<close>

fun free_init_loop ::
  "(nat \<Rightarrow> bool) \<Rightarrow> nat \<Rightarrow> dev \<Rightarrow> u64 \<Rightarrow> spfs_free_list \<Rightarrow> (int \<times> spfs_free_list \<times> dev) outcome"
where
  "free_init_loop kz 0 d head list = (if head = 0 then Done (0, list, d) else Crash NoFuel)"
| "free_init_loop kz (Suc fuel) d head list =
     (if head = 0 then Done (0, list, d)
      else case sb_bread d head of
        None \<Rightarrow> Done (1, list, d)
      | Some (bh, d) \<Rightarrow>
          bnd (spfs_read_header bh 0) (\<lambda>r.
            case r of
              Inl res \<Rightarrow> Done (res, list, d)
            | Inr (free_length, free_next, bh_pos) \<Rightarrow>
                bnd (free_init_entries kz (unat free_length) bh bh_pos list) (\<lambda>(ok, list).
                  if \<not> ok then Done (1, list, d)
                  else free_init_loop kz fuel (brelse d head) free_next list)))"

definition spfs_free_init ::
  "(nat \<Rightarrow> bool) \<Rightarrow> nat \<Rightarrow> dev \<Rightarrow> u64 \<Rightarrow> (int \<times> spfs_free_list \<times> dev) outcome"
where
  "spfs_free_init kz fuel d head = free_init_loop kz fuel d head \<lparr>fl_blocks = 0, fl_root = []\<rparr>"

section \<open>Allocation\<close>

text \<open>The scan for the first node with enough blocks; the result is the first block taken.\<close>

fun free_scan :: "spfs_free_node list \<Rightarrow> u64 \<Rightarrow> (u64 \<times> spfs_free_node list) option" where
  "free_scan [] blocks = None"
| "free_scan (n # ns) blocks =
     (if blocks \<le> ucast (fn_blocks n)
      then let left = fn_blocks n - ucast blocks in
           Some (fn_start n + ucast left, n\<lparr>fn_blocks := left\<rparr> # ns)
      else map_option (\<lambda>(r, ns'). (r, n # ns')) (free_scan ns blocks))"

definition spfs_free_alloc :: "spfs_free_list \<Rightarrow> u64 \<Rightarrow> u64 \<times> spfs_free_list" where
  "spfs_free_alloc fl blocks =
     (if blocks < ucast (fl_blocks fl)
      then case free_scan (fl_root fl) blocks of
             None \<Rightarrow> (0, fl)
           | Some (result, root) \<Rightarrow>
               (result, fl\<lparr>fl_blocks := fl_blocks fl - ucast blocks, fl_root := root\<rparr>)
      else (0, fl))"

definition spfs_free_dealloc :: "spfs_free_list \<Rightarrow> u64 \<Rightarrow> u64 \<Rightarrow> int \<times> spfs_free_list" where
  "spfs_free_dealloc fl root blocks = (0, fl)"

section \<open>The sectors a free list owns\<close>

definition region :: "u64 \<Rightarrow> u64 \<Rightarrow> nat set" where
  "region start blocks = {unat start..<unat start + unat blocks}"

definition node_sectors :: "spfs_free_node \<Rightarrow> nat set" where
  "node_sectors n = {unat (fn_start n)..<unat (fn_start n) + unat (fn_blocks n)}"

definition nodes_sectors :: "spfs_free_node list \<Rightarrow> nat set" where
  "nodes_sectors ns = (\<Union>n\<in>set ns. node_sectors n)"

definition free_sectors :: "spfs_free_list \<Rightarrow> nat set" where
  "free_sectors fl = nodes_sectors (fl_root fl)"

definition nodes_total :: "spfs_free_node list \<Rightarrow> nat" where
  "nodes_total ns = sum_list (map (\<lambda>n. unat (fn_blocks n)) ns)"

text \<open>No node starts at block 0, none runs past the address space, no two share a sector.\<close>

fun nodes_ok :: "spfs_free_node list \<Rightarrow> bool" where
  "nodes_ok [] = True"
| "nodes_ok (n # ns) =
     (fn_start n \<noteq> 0 \<and> unat (fn_start n) + unat (fn_blocks n) < 2 ^ 64 \<and>
      node_sectors n \<inter> nodes_sectors ns = {} \<and> nodes_ok ns)"

definition free_ok :: "spfs_free_list \<Rightarrow> bool" where
  "free_ok fl \<longleftrightarrow> nodes_ok (fl_root fl) \<and> unat (fl_blocks fl) = nodes_total (fl_root fl)"

lemma nodes_sectors_simps [simp]:
  "nodes_sectors [] = {}"
  "nodes_sectors (n # ns) = node_sectors n \<union> nodes_sectors ns"
  by (auto simp: nodes_sectors_def)

lemma nodes_total_simps [simp]:
  "nodes_total [] = 0"
  "nodes_total (n # ns) = unat (fn_blocks n) + nodes_total ns"
  by (simp_all add: nodes_total_def)

text \<open>What taking blocks off the end of one node does.\<close>

lemma take_from_node:
  assumes fits: "blocks \<le> ucast (fn_blocks n)"
    and ok: "unat (fn_start n) + unat (fn_blocks n) < 2 ^ 64"
  defines "left \<equiv> fn_blocks n - ucast blocks"
  defines "r \<equiv> fn_start n + ucast left"
  shows "unat left = unat (fn_blocks n) - unat blocks"
    and "unat blocks \<le> unat (fn_blocks n)"
    and "unat r = unat (fn_start n) + unat left"
    and "node_sectors (n\<lparr>fn_blocks := left\<rparr>) = node_sectors n - region r blocks"
    and "region r blocks \<subseteq> node_sectors n"
proof -
  from fits show le: "unat blocks \<le> unat (fn_blocks n)"
    by (simp add: ucast_u32_le_iff)
  have small: "unat blocks < 2 ^ 32"
    using le u32_bound [of "fn_blocks n"] by simp
  then have "(ucast blocks :: u32) \<le> fn_blocks n"
    using le by (simp add: word_le_nat_alt)
  then show left: "unat left = unat (fn_blocks n) - unat blocks"
    using small by (simp add: left_def unat_sub)
  show r: "unat r = unat (fn_start n) + unat left"
    unfolding r_def using ok left by (subst unat_add_small) simp_all
  show "node_sectors (n\<lparr>fn_blocks := left\<rparr>) = node_sectors n - region r blocks"
    using le by (auto simp: node_sectors_def region_def r left)
  show "region r blocks \<subseteq> node_sectors n"
    using le by (auto simp: node_sectors_def region_def r left)
qed

lemma free_scan_Some:
  assumes "free_scan ns blocks = Some (r, ns')" and "nodes_ok ns"
  shows "region r blocks \<subseteq> nodes_sectors ns
    \<and> nodes_sectors ns' = nodes_sectors ns - region r blocks
    \<and> nodes_ok ns' \<and> nodes_total ns = nodes_total ns' + unat blocks \<and> r \<noteq> 0"
  using assms
proof (induction ns arbitrary: ns')
  case Nil
  then show ?case by simp
next
  case (Cons n ns)
  show ?case
  proof (cases "blocks \<le> ucast (fn_blocks n)")
    case True
    from Cons.prems True have eq: "r = fn_start n + ucast (fn_blocks n - ucast blocks)"
      "ns' = n\<lparr>fn_blocks := fn_blocks n - ucast blocks\<rparr> # ns" and
      ok: "unat (fn_start n) + unat (fn_blocks n) < 2 ^ 64" "fn_start n \<noteq> 0"
      "node_sectors n \<inter> nodes_sectors ns = {}" "nodes_ok ns"
      by (auto simp: Let_def)
    note node = take_from_node [OF True ok(1), folded eq(1)]
    have "0 < unat (fn_start n)" using ok(2) by (simp add: unat_gt_0)
    then have "r \<noteq> 0" using node(3) by (metis add_is_0 less_numeral_extra(3) unat_0)
    then show ?thesis
      using node ok by (auto simp: eq(2))
  next
    case False
    with Cons.prems obtain ns'' where scan: "free_scan ns blocks = Some (r, ns'')"
      and ns': "ns' = n # ns''" and ok: "nodes_ok ns" "node_sectors n \<inter> nodes_sectors ns = {}"
      by auto
    from Cons.IH [OF scan ok(1)] Cons.prems(2) ok(2) show ?thesis
      by (auto simp: ns')
  qed
qed

lemma free_scan_None_iff:
  "free_scan ns blocks = None \<longleftrightarrow> (\<forall>n\<in>set ns. unat (fn_blocks n) < unat blocks)"
  by (induction ns) (auto simp: ucast_u32_le_iff not_le Let_def)

section \<open>Allocation is correct\<close>

lemma spfs_free_alloc_taken:
  assumes "free_ok fl" and "spfs_free_alloc fl blocks = (r, fl')" and "r \<noteq> 0"
  shows "region r blocks \<subseteq> free_sectors fl"
    and "free_sectors fl' = free_sectors fl - region r blocks"
    and "free_ok fl'"
proof -
  from assms(2,3) obtain root where less: "unat blocks < unat (fl_blocks fl)"
    and scan: "free_scan (fl_root fl) blocks = Some (r, root)"
    and fl': "fl' = fl\<lparr>fl_blocks := fl_blocks fl - ucast blocks, fl_root := root\<rparr>"
    by (auto simp: spfs_free_alloc_def ucast_u32_less_iff split: if_splits option.splits)
  from assms(1) have ok: "nodes_ok (fl_root fl)"
    and total: "unat (fl_blocks fl) = nodes_total (fl_root fl)" by (auto simp: free_ok_def)
  note taken = free_scan_Some [OF scan ok]
  have small: "unat blocks < 2 ^ 32" using less u32_bound [of "fl_blocks fl"] by simp
  then have "(ucast blocks :: u32) \<le> fl_blocks fl" using less by (simp add: word_le_nat_alt)
  then have "unat (fl_blocks fl - ucast blocks) = unat (fl_blocks fl) - unat blocks"
    using small by (simp add: unat_sub)
  then show "region r blocks \<subseteq> free_sectors fl"
    "free_sectors fl' = free_sectors fl - region r blocks" "free_ok fl'"
    using taken total by (auto simp: fl' free_sectors_def free_ok_def)
qed

lemma spfs_free_alloc_zero:
  "free_ok fl \<Longrightarrow> spfs_free_alloc fl blocks = (0, fl') \<Longrightarrow> fl' = fl"
  by (auto simp: spfs_free_alloc_def free_ok_def dest: free_scan_Some
      split: if_splits option.splits)

lemma spfs_free_alloc_result_0:
  assumes "free_ok fl"
  shows "fst (spfs_free_alloc fl blocks) = 0 \<longleftrightarrow>
    nodes_total (fl_root fl) \<le> unat blocks \<or>
    (\<forall>n\<in>set (fl_root fl). unat (fn_blocks n) < unat blocks)"
proof (cases "free_scan (fl_root fl) blocks")
  case None
  then show ?thesis
    using free_scan_None_iff [of "fl_root fl" blocks] by (auto simp: spfs_free_alloc_def)
next
  case (Some p)
  obtain r root where p: "p = (r, root)" by (cases p)
  have "\<not> (\<forall>n\<in>set (fl_root fl). unat (fn_blocks n) < unat blocks)"
    using Some free_scan_None_iff [of "fl_root fl" blocks] by auto
  moreover have "r \<noteq> 0"
    using free_scan_Some [of "fl_root fl" blocks r root] Some assms by (auto simp: p free_ok_def)
  ultimately show ?thesis
    using Some assms by (auto simp: p spfs_free_alloc_def free_ok_def ucast_u32_less_iff)
qed

section \<open>The contract the rest of the file system relies on\<close>

text \<open>A run of requests: the regions handed out (failed requests dropped) and the final state.\<close>

fun run_allocs ::
  "('s \<Rightarrow> u64 \<Rightarrow> u64 \<times> 's) \<Rightarrow> 's \<Rightarrow> u64 list \<Rightarrow> (u64 \<times> u64) list \<times> 's"
where
  "run_allocs alloc s [] = ([], s)"
| "run_allocs alloc s (n # ns) =
     (let (r, s1) = alloc s n; (rs, s2) = run_allocs alloc s1 ns
      in (if r = 0 then rs else (r, n) # rs, s2))"

definition regions :: "(u64 \<times> u64) list \<Rightarrow> nat set list" where
  "regions rs = map (\<lambda>(r, n). region r n) rs"

lemma regions_simps [simp]:
  "regions [] = []"
  "regions ((r, n) # rs) = region r n # regions rs"
  by (simp_all add: regions_def)

locale block_allocator =
  fixes alloc :: "'s \<Rightarrow> u64 \<Rightarrow> u64 \<times> 's"
    and avail :: "'s \<Rightarrow> nat set"
    and inv :: "'s \<Rightarrow> bool"
  assumes alloc_region: "inv s \<Longrightarrow> alloc s n = (r, s') \<Longrightarrow> r \<noteq> 0 \<Longrightarrow> region r n \<subseteq> avail s"
    and alloc_avail: "inv s \<Longrightarrow> alloc s n = (r, s') \<Longrightarrow> r \<noteq> 0 \<Longrightarrow> avail s' = avail s - region r n"
    and alloc_inv: "inv s \<Longrightarrow> alloc s n = (r, s') \<Longrightarrow> r \<noteq> 0 \<Longrightarrow> inv s'"
    and alloc_none: "inv s \<Longrightarrow> alloc s n = (0, s') \<Longrightarrow> s' = s"
begin

lemma run_allocs_spec:
  assumes "inv s" and "run_allocs alloc s ns = (rs, s')"
  shows "\<Union> (set (regions rs)) \<subseteq> avail s
    \<and> avail s' = avail s - \<Union> (set (regions rs)) \<and> inv s'
    \<and> sorted_wrt (\<lambda>a b. a \<inter> b = {}) (regions rs)"
  using assms
proof (induction ns arbitrary: s rs)
  case Nil
  then show ?case by simp
next
  case (Cons n ns)
  obtain r s1 where a: "alloc s n = (r, s1)" by fastforce
  with Cons.prems(2) obtain rs1 where run: "run_allocs alloc s1 ns = (rs1, s')"
    by (auto split: prod.splits)
  show ?case
  proof (cases "r = 0")
    case True
    with a Cons.prems(1) have "s1 = s" by (auto dest: alloc_none)
    with Cons.IH [OF Cons.prems(1)] Cons.prems(2) a run True show ?thesis by simp
  next
    case False
    note facts = alloc_region [OF Cons.prems(1) a False] alloc_avail [OF Cons.prems(1) a False]
    note rest = Cons.IH [OF alloc_inv [OF Cons.prems(1) a False] run]
    have rs: "rs = (r, n) # rs1" using Cons.prems(2) a run False by simp
    have "\<forall>x\<in>set (regions rs1). region r n \<inter> x = {}" using rest facts(2) by blast
    moreover have "\<Union> (set (regions rs)) = region r n \<union> \<Union> (set (regions rs1))" by (simp add: rs)
    ultimately show ?thesis using rest facts by (simp add: rs Diff_Un) blast
  qed
qed

end

interpretation fl_alloc: block_allocator spfs_free_alloc free_sectors free_ok
  by unfold_locales (auto dest: spfs_free_alloc_taken spfs_free_alloc_zero)

section \<open>What is on the disk\<close>

text \<open>The wire format of a block of the list: magic, length, next block, entries.\<close>

definition fl_entry_bytes :: "spfs_free_node \<Rightarrow> byte list" where
  "fl_entry_bytes n =
     be_bytes 4 (unat (ucast (fn_start n) :: u32)) @ be_bytes 4 (unat (fn_blocks n))"

definition fl_header_bytes :: "u32 \<Rightarrow> u64 \<Rightarrow> byte list" where
  "fl_header_bytes len next =
     be_bytes 4 (unat SPOOKY_FS_FL_MAGIC) @ be_bytes 4 (unat len) @
     be_bytes 4 (unat (ucast next :: u32))"

definition is_fl_block :: "buf \<Rightarrow> u64 \<Rightarrow> spfs_free_node list \<Rightarrow> bool" where
  "is_fl_block b next ns \<longleftrightarrow>
     16 \<le> length b \<and> 12 + 8 * length ns \<le> length b \<and> length ns < 2 ^ 32 \<and>
     low32 next = next \<and> (\<forall>n\<in>set ns. low32 (fn_start n) = fn_start n) \<and>
     load b 0 12 = fl_header_bytes (of_nat (length ns)) next \<and>
     load b 12 (8 * length ns) = concat (map fl_entry_bytes ns)"

text \<open>A chain: block numbers with the nodes each holds, the last one pointing to block 0.\<close>

fun chain_head :: "(u64 \<times> spfs_free_node list) list \<Rightarrow> u64" where
  "chain_head [] = 0"
| "chain_head ((h, ns) # cs) = h"

fun fl_chain :: "dev \<Rightarrow> (u64 \<times> spfs_free_node list) list \<Rightarrow> bool" where
  "fl_chain d [] = True"
| "fl_chain d ((h, ns) # cs) =
     (h \<noteq> 0 \<and> (case d_blocks d h of None \<Rightarrow> False | Some b \<Rightarrow> is_fl_block b (chain_head cs) ns)
      \<and> fl_chain d cs)"

text \<open>
  A path: the same without an end; the last block of it points to \<open>next\<close>. A chain that comes back
  to one of its blocks is a path whose \<open>next\<close> is a block of it.
\<close>

fun path_head :: "(u64 \<times> spfs_free_node list) list \<Rightarrow> u64 \<Rightarrow> u64" where
  "path_head [] next = next"
| "path_head ((h, ns) # cs) next = h"

fun fl_path :: "dev \<Rightarrow> (u64 \<times> spfs_free_node list) list \<Rightarrow> u64 \<Rightarrow> bool" where
  "fl_path d [] next = True"
| "fl_path d ((h, ns) # cs) next =
     (h \<noteq> 0 \<and> (case d_blocks d h of None \<Rightarrow> False | Some b \<Rightarrow> is_fl_block b (path_head cs next) ns)
      \<and> fl_path d cs next)"

lemma path_head_append [simp]: "path_head (xs @ ys) next = path_head xs (path_head ys next)"
  by (induction xs) auto

lemma fl_path_append [simp]:
  "fl_path d (xs @ ys) next \<longleftrightarrow> fl_path d xs (path_head ys next) \<and> fl_path d ys next"
  by (induction xs) (auto split: option.splits)

lemma fl_entry_read:
  assumes "load b pos 8 = fl_entry_bytes n" and "pos + 8 \<le> length b" and "low32 (fn_start n) = fn_start n"
  shows "spfs_read_entry b pos = Done (Inr (n, pos + 8))"
proof -
  have "load b pos (4 + 4) = be_bytes 4 (unat (ucast (fn_start n) :: u32)) @ be_bytes 4 (unat (fn_blocks n))"
    using assms(1) by (simp add: fl_entry_bytes_def)
  note parts = load_prefix [OF this]
  have "load b pos 4 = be_bytes 4 (unat (ucast (fn_start n) :: u32))"
    and "load b (pos + 4) 4 = be_bytes 4 (unat (fn_blocks n))"
    using parts assms(2) by simp_all
  moreover have "ucast (ucast (fn_start n) :: u32) = fn_start n"
    using assms(3) by (simp add: low32_def)
  ultimately show ?thesis
    using assms(2) by (simp add: spfs_read_entry_def fsec.rd_ok fu32.rd_ok add.assoc)
qed

lemma free_init_entries_spec:
  assumes "load b pos (8 * length ns) = concat (map fl_entry_bytes ns)"
    and "pos + 8 * length ns \<le> length b" and "\<forall>n\<in>set ns. low32 (fn_start n) = fn_start n"
    and "\<And>k. kz k"
  shows "free_init_entries kz (length ns) b pos list =
    Done (True, list\<lparr>fl_root := rev ns @ fl_root list,
      fl_blocks := fl_blocks list + sum_list (map fn_blocks ns)\<rparr>)"
  using assms(1-3)
proof (induction ns arbitrary: pos list)
  case Nil
  then show ?case by simp
next
  case (Cons n ns)
  have "load b pos (8 + 8 * length ns) = fl_entry_bytes n @ concat (map fl_entry_bytes ns)"
    using Cons.prems(1) by simp
  moreover have "length (fl_entry_bytes n) = 8" by (simp add: fl_entry_bytes_def)
  moreover have "pos + 8 \<le> length b" using Cons.prems(2) by simp
  ultimately have head: "load b pos 8 = fl_entry_bytes n"
    and tail: "load b (pos + 8) (8 * length ns) = concat (map fl_entry_bytes ns)"
    using load_prefix by blast+
  have "spfs_read_entry b pos = Done (Inr (n, pos + 8))"
    using head Cons.prems(2,3) by (intro fl_entry_read) auto
  then show ?case
    using Cons.IH [OF tail] Cons.prems(2,3) assms(4)
    by (simp add: spfs_init_free_list_entry_def add.assoc)
qed

lemma fl_header_read:
  assumes "load b 0 12 = fl_header_bytes len next" and "16 \<le> length b"
  shows "spfs_read_header b 0 = Done (Inr (len, low32 next, 12))"
proof -
  have all: "load b 0 (4 + 8) = be_bytes 4 (unat SPOOKY_FS_FL_MAGIC) @
      (be_bytes 4 (unat len) @ be_bytes 4 (unat (ucast next :: u32)))"
    using assms(1) by (simp add: fl_header_bytes_def)
  note one = load_prefix [OF all]
  have rest: "load b 4 (4 + 4) = be_bytes 4 (unat len) @ be_bytes 4 (unat (ucast next :: u32))"
    using one(2) assms(2) by simp
  note two = load_prefix [OF rest]
  show ?thesis
    using one two assms(2) by (simp add: spfs_read_header_def fsec.rd_ok fu32.rd_ok low32_def)
qed

lemma free_init_loop_spec:
  assumes "fl_chain d cs" and "length cs \<le> fuel" and "\<And>k. kz k"
  shows "free_init_loop kz fuel d (chain_head cs) list =
    Done (0, list\<lparr>fl_root := rev (concat (map snd cs)) @ fl_root list,
      fl_blocks := fl_blocks list + sum_list (map fn_blocks (concat (map snd cs)))\<rparr>, d)"
  using assms(1,2)
proof (induction cs arbitrary: fuel list)
  case Nil
  then show ?case by (cases fuel) simp_all
next
  case (Cons c cs)
  obtain h ns where c: "c = (h, ns)" by (cases c)
  obtain f where f: "fuel = Suc f" using Cons.prems(2) by (cases fuel) auto
  from Cons.prems(1) obtain b where h: "h \<noteq> 0" and b: "d_blocks d h = Some b"
    and blk: "is_fl_block b (chain_head cs) ns" and chain: "fl_chain d cs"
    by (auto simp: c split: option.splits)
  have len: "unat (of_nat (length ns) :: u32) = length ns"
    using blk by (simp add: is_fl_block_def unat_of_nat)
  have hdr: "spfs_read_header b 0 = Done (Inr (of_nat (length ns), chain_head cs, 12))"
    using blk fl_header_read by (auto simp: is_fl_block_def)
  have ent: "free_init_entries kz (length ns) b 12 list = Done (True, list\<lparr>fl_root := rev ns @ fl_root list,
      fl_blocks := fl_blocks list + sum_list (map fn_blocks ns)\<rparr>)"
    using blk assms(3) by (intro free_init_entries_spec) (auto simp: is_fl_block_def)
  show ?case
    using h Cons.IH [OF chain, of f] Cons.prems(2)
    by (simp add: c f sb_bread_readable [OF b] hdr len ent add.assoc)
qed

text \<open>
  Walking along a path uses up one round for each block of it, and stops inside the path when
  there are fewer. Without entries no memory is asked for.
\<close>

lemma free_init_loop_path:
  assumes "fl_path d cs next" and "(\<forall>k. kz k) \<or> (\<forall>(h, ns)\<in>set cs. ns = [])" and "next \<noteq> 0"
  shows "fuel \<le> length cs \<and> free_init_loop kz fuel d (path_head cs next) list = Crash NoFuel \<or>
    (\<exists>list'. free_init_loop kz fuel d (path_head cs next) list =
      free_init_loop kz (fuel - length cs) d next list')"
  using assms(1,2)
proof (induction cs arbitrary: fuel list)
  case Nil
  then show ?case by auto
next
  case (Cons c cs)
  obtain h ns where c: "c = (h, ns)" by (cases c)
  from Cons.prems(1) obtain b where h: "h \<noteq> 0" and b: "d_blocks d h = Some b"
    and blk: "is_fl_block b (path_head cs next) ns" and path: "fl_path d cs next"
    by (auto simp: c split: option.splits)
  show ?case
  proof (cases fuel)
    case 0
    then show ?thesis using h by (simp add: c)
  next
    case (Suc f)
    have len: "unat (of_nat (length ns) :: u32) = length ns"
      using blk by (simp add: is_fl_block_def unat_of_nat)
    have hdr: "spfs_read_header b 0 = Done (Inr (of_nat (length ns), path_head cs next, 12))"
      using blk fl_header_read by (auto simp: is_fl_block_def)
    have "\<exists>list'. free_init_entries kz (length ns) b 12 list = Done (True, list')"
    proof (cases "ns = []")
      case False
      then have "kz k" for k using Cons.prems(2) by (auto simp: c)
      then have "free_init_entries kz (length ns) b 12 list = Done (True, list\<lparr>fl_root := rev ns @ fl_root list,
          fl_blocks := fl_blocks list + sum_list (map fn_blocks ns)\<rparr>)"
        using blk by (intro free_init_entries_spec) (auto simp: is_fl_block_def)
      then show ?thesis by blast
    qed simp
    then obtain list' where "free_init_entries kz (length ns) b 12 list = Done (True, list')" ..
    then have "free_init_loop kz fuel d (path_head (c # cs) next) list =
        free_init_loop kz f d (path_head cs next) list'"
      using h by (simp add: c Suc sb_bread_readable [OF b] hdr len)
    then show ?thesis using Cons.IH [OF path, of f list'] Cons.prems(2) by (auto simp: Suc)
  qed
qed

lemma free_init_cycle:
  assumes "fl_path d (c # cs) (fst c)" and "(\<forall>k. kz k) \<or> (\<forall>(h, ns)\<in>set (c # cs). ns = [])"
  shows "free_init_loop kz fuel d (fst c) list = Crash NoFuel"
proof (induction fuel arbitrary: list rule: less_induct)
  case (less fuel)
  have nz: "fst c \<noteq> 0" using assms(1) by (cases c) simp
  have head: "path_head (c # cs) (fst c) = fst c" by (cases c) simp
  show ?case
  proof (cases "fuel = 0")
    case True
    then show ?thesis using nz by simp
  next
    case False
    then have "fuel - length (c # cs) < fuel" by simp
    then show ?thesis
      using free_init_loop_path [OF assms nz, of fuel list] less.IH unfolding head by metis
  qed
qed

section \<open>Properties\<close>

text \<open>
  C11: Mounting reads exactly the free list that is on the disk: from a chain of well-formed
  blocks it returns 0, the nodes of all blocks (the last one first) and the sum of their sizes,
  with every buffer released.
\<close>

theorem free_init_reads_chain:
  assumes "fl_chain d cs" and "length cs \<le> fuel" and "\<forall>k. kz k"
  shows "spfs_free_init kz fuel d (chain_head cs) =
    Done (0, \<lparr>fl_blocks = sum_list (map fn_blocks (concat (map snd cs))),
      fl_root = rev (concat (map snd cs))\<rparr>, d)"
  using free_init_loop_spec [OF assms(1,2), of kz "\<lparr>fl_blocks = 0, fl_root = []\<rparr>"] assms(3)
  by (simp add: spfs_free_init_def)

definition sample_dev :: dev where
  "sample_dev = \<lparr>d_blocks = [1 \<mapsto> fl_header_bytes 1 0 @ fl_entry_bytes \<lparr>fn_start = 2, fn_blocks = 5\<rparr>],
     d_dirty = {}, d_refs = \<lambda>_. 0\<rparr>"

lemma sample_dev_chain: "fl_chain sample_dev [(1, [\<lparr>fn_start = 2, fn_blocks = 5\<rparr>])]"
  by (simp add: sample_dev_def is_fl_block_def low32_def fl_header_bytes_def fl_entry_bytes_def
      load_def)

theorem free_init_reads_chain_witness:
  "spfs_free_init (\<lambda>_. True) 1 sample_dev 1 =
    Done (0, \<lparr>fl_blocks = 5, fl_root = [\<lparr>fn_start = 2, fn_blocks = 5\<rparr>]\<rparr>, sample_dev)"
  using free_init_reads_chain [OF sample_dev_chain, of 1 "\<lambda>_. True"] by simp

text \<open>
  C36: A free list whose chain of blocks comes back to a block that was read before is never read
  to its end: after any blocks, with any entries, mounting goes round the cycle and does not
  finish, whatever the number of steps, as long as there is memory for the entries. When the blocks
  have no entries no memory is needed, and it never finishes.
\<close>

theorem free_init_cyclic_chain:
  assumes "fl_path d (stem @ c # cycle) (fst c)"
    and "(\<forall>k. kz k) \<or> (\<forall>(h, ns)\<in>set (stem @ c # cycle). ns = [])"
  shows "spfs_free_init kz fuel d (path_head stem (fst c)) = Crash NoFuel"
proof -
  have nz: "fst c \<noteq> 0" and head: "path_head (c # cycle) (fst c) = fst c"
    using assms(1) by (cases c; simp)+
  then have stem: "fl_path d stem (fst c)" and loop: "fl_path d (c # cycle) (fst c)"
    using assms(1) by simp_all
  have "(\<forall>k. kz k) \<or> (\<forall>(h, ns)\<in>set stem. ns = [])" and "(\<forall>k. kz k) \<or> (\<forall>(h, ns)\<in>set (c # cycle). ns = [])"
    using assms(2) by auto
  then show ?thesis
    using free_init_loop_path [OF stem _ nz, of kz fuel] free_init_cycle [OF loop]
    unfolding spfs_free_init_def by metis
qed

text \<open>Block 1 with an entry leads to blocks 2 and 3, which point to each other.\<close>

definition cyclic_dev :: dev where
  "cyclic_dev = \<lparr>d_blocks = [1 \<mapsto> fl_header_bytes 1 2 @ fl_entry_bytes \<lparr>fn_start = 9, fn_blocks = 5\<rparr>,
     2 \<mapsto> fl_header_bytes 0 3 @ replicate 4 0,
     3 \<mapsto> fl_header_bytes 1 2 @ fl_entry_bytes \<lparr>fn_start = 20, fn_blocks = 7\<rparr>],
     d_dirty = {}, d_refs = \<lambda>_. 0\<rparr>"

theorem free_init_cyclic_chain_witness: "spfs_free_init (\<lambda>_. True) 1000 cyclic_dev 1 = Crash NoFuel"
  using free_init_cyclic_chain [of cyclic_dev "[(1, [\<lparr>fn_start = 9, fn_blocks = 5\<rparr>])]" "(2, [])"
      "[(3, [\<lparr>fn_start = 20, fn_blocks = 7\<rparr>])]" "\<lambda>_. True" 1000]
  by (simp add: cyclic_dev_def is_fl_block_def low32_def fl_header_bytes_def fl_entry_bytes_def load_def)

text \<open>
  C7: An allocation that succeeds hands out a run of free sectors, which are no longer free
  afterwards while all others stay free, and keeps the invariant of the list (no node starts
  at block 0, no two nodes overlap, the total is the sum of the nodes).
\<close>

theorem free_alloc_takes_region:
  assumes "free_ok fl" and "spfs_free_alloc fl blocks = (r, fl')" and "r \<noteq> 0"
  shows "region r blocks \<subseteq> free_sectors fl \<and>
    free_sectors fl' = free_sectors fl - region r blocks \<and> free_ok fl'"
  using spfs_free_alloc_taken [OF assms] by blast

theorem free_alloc_takes_region_witness:
  "free_ok \<lparr>fl_blocks = 7, fl_root = [\<lparr>fn_start = 2, fn_blocks = 7\<rparr>]\<rparr> \<and>
    region 9 3 \<subseteq> free_sectors \<lparr>fl_blocks = 10, fl_root = [\<lparr>fn_start = 2, fn_blocks = 10\<rparr>]\<rparr>"
  using free_alloc_takes_region [of "\<lparr>fl_blocks = 10, fl_root = [\<lparr>fn_start = 2, fn_blocks = 10\<rparr>]\<rparr>" 3 9
      "\<lparr>fl_blocks = 7, fl_root = [\<lparr>fn_start = 2, fn_blocks = 7\<rparr>]\<rparr>"]
  by (simp add: free_ok_def spfs_free_alloc_def)

text \<open>
  C35: An allocation fails exactly when the whole list has no more blocks than asked for or no
  single node has enough; it then changes nothing. In particular the last blocks are never
  handed out: asking for all of them fails.
\<close>

theorem free_alloc_fails_iff:
  assumes "free_ok fl"
  shows "if nodes_total (fl_root fl) \<le> unat blocks \<or>
      (\<forall>n\<in>set (fl_root fl). unat (fn_blocks n) < unat blocks)
    then spfs_free_alloc fl blocks = (0, fl)
    else fst (spfs_free_alloc fl blocks) \<noteq> 0"
proof -
  obtain r fl' where r: "spfs_free_alloc fl blocks = (r, fl')" by fastforce
  then show ?thesis
    using spfs_free_alloc_result_0 [OF assms, of blocks] spfs_free_alloc_zero [OF assms, of blocks fl']
    by auto
qed

theorem free_alloc_fails_iff_witness:
  "spfs_free_alloc \<lparr>fl_blocks = 10, fl_root = [\<lparr>fn_start = 2, fn_blocks = 10\<rparr>]\<rparr> 10 =
    (0, \<lparr>fl_blocks = 10, fl_root = [\<lparr>fn_start = 2, fn_blocks = 10\<rparr>]\<rparr>)"
  using free_alloc_fails_iff [of "\<lparr>fl_blocks = 10, fl_root = [\<lparr>fn_start = 2, fn_blocks = 10\<rparr>]\<rparr>" 10]
  by (simp add: free_ok_def)

text \<open>
  In a run of allocations the regions handed out are pairwise disjoint and come from the
  free sectors; what is left is the rest of them.
\<close>

theorem free_allocs_disjoint:
  assumes "free_ok fl" and "run_allocs spfs_free_alloc fl sizes = (rs, fl')"
  shows "sorted_wrt (\<lambda>a b. a \<inter> b = {}) (regions rs) \<and> \<Union> (set (regions rs)) \<subseteq> free_sectors fl \<and>
    free_sectors fl' = free_sectors fl - \<Union> (set (regions rs)) \<and> free_ok fl'"
  using fl_alloc.run_allocs_spec [OF assms] by blast

theorem free_allocs_disjoint_witness:
  "region 9 3 \<inter> region 5 4 = {} \<and> free_ok \<lparr>fl_blocks = 3, fl_root = [\<lparr>fn_start = 2, fn_blocks = 3\<rparr>]\<rparr>"
  using free_allocs_disjoint [of "\<lparr>fl_blocks = 10, fl_root = [\<lparr>fn_start = 2, fn_blocks = 10\<rparr>]\<rparr>" "[3, 4]"
      "[(9, 3), (5, 4)]" "\<lparr>fl_blocks = 3, fl_root = [\<lparr>fn_start = 2, fn_blocks = 3\<rparr>]\<rparr>"]
  by (simp add: free_ok_def spfs_free_alloc_def Let_def)

text \<open>
  Giving a region back reports success, but none of its sectors becomes free again.
\<close>

theorem free_dealloc_loses_blocks:
  assumes "free_ok fl" and "spfs_free_alloc fl blocks = (r, fl1)" and "r \<noteq> 0"
    and "spfs_free_dealloc fl1 r blocks = (res, fl2)"
  shows "res = 0 \<and> free_sectors fl2 = free_sectors fl - region r blocks"
  using spfs_free_alloc_taken [OF assms(1-3)] assms(4) by (simp add: spfs_free_dealloc_def)

theorem free_dealloc_loses_blocks_witness:
  "free_sectors (snd (spfs_free_dealloc \<lparr>fl_blocks = 7, fl_root = [\<lparr>fn_start = 2, fn_blocks = 7\<rparr>]\<rparr> 9 3)) =
    {2..<12} - {9..<12}"
  using free_dealloc_loses_blocks [of "\<lparr>fl_blocks = 10, fl_root = [\<lparr>fn_start = 2, fn_blocks = 10\<rparr>]\<rparr>" 3 9
      "\<lparr>fl_blocks = 7, fl_root = [\<lparr>fn_start = 2, fn_blocks = 7\<rparr>]\<rparr>" 0
      "\<lparr>fl_blocks = 7, fl_root = [\<lparr>fn_start = 2, fn_blocks = 7\<rparr>]\<rparr>"]
  by (simp add: free_ok_def spfs_free_alloc_def spfs_free_dealloc_def free_sectors_def
      node_sectors_def region_def)

end
