(* ===== verification/Inode_Codec.thy ===== *)
theory Inode_Codec
  imports Block_Dev
begin

text \<open>
  The in-memory inode (shared.h) and its wire format (\<open>spfs_inode_parse\<close>,
  \<open>spfs_inode_make\<close> of btree.c). One inode occupies the first 294 bytes of its block.
\<close>

section \<open>The inode\<close>

text \<open>
  The fields of the embedded \<open>struct inode\<close> the file system touches, then the fields of
  \<open>struct spfs_inode\<close>. \<open>i_lock\<close> is true while the inode's mutex is held. \<open>i_kernel\<close> stands for
  the rest of \<open>struct inode\<close>, which belongs to the kernel (its list heads, \<open>i_state\<close>, \<open>i_sb\<close>,
  its own locks): it is true when these fields are as the kernel set them up, and false
  when other bytes are in their place. Times carry the 64-bit \<open>tv_sec\<close> as its bit pattern.
\<close>

record timespec =
  tv_sec :: u64
  tv_nsec :: u64

record spfs_inode =
  i_ino :: u64
  i_mode :: u16
  i_gid :: u32
  i_uid :: u32
  i_atime :: timespec
  i_mtime :: timespec
  i_ctime :: timespec
  i_nlink :: u32
  i_size :: u64
  i_lock :: bool
  i_kernel :: bool
  in_capacity :: u32
  in_start :: u64
  in_name :: "byte list"

definition SPOOKY_FS_BTREE_MAGIC :: u32 where
  "SPOOKY_FS_BTREE_MAGIC = 0xDEADBEEF"

definition SPOOKY_FS_NAME_MAX :: nat where
  "SPOOKY_FS_NAME_MAX = 256"

definition at_sec :: "u32 \<Rightarrow> timespec" where
  "at_sec t = \<lparr>tv_sec = ucast t, tv_nsec = 0\<rparr>"

section \<open>Parsing and making\<close>

text \<open>
  \<open>out\<close> is the inode the caller passes in: fields that are not on the wire keep their
  value. A failed parse returns its code; no caller looks at \<open>out\<close> then.
\<close>

definition spfs_inode_parse :: "buf \<Rightarrow> spfs_inode \<Rightarrow> (int + spfs_inode) outcome" where
  "spfs_inode_parse bh out =
     read_or (spfs_sb_read_u32 bh 0) (- EIO) (\<lambda>magic pos.
     read_or (spfs_sb_read_ino bh pos) (- EIO) (\<lambda>ino pos.
     read_or (spfs_sb_read_u16 bh pos) (- EIO) (\<lambda>mode pos.
     read_or (spfs_sb_read_u32 bh pos) (- EIO) (\<lambda>gid pos.
     read_or (spfs_sb_read_u32 bh pos) (- EIO) (\<lambda>uid pos.
     read_or (spfs_sb_read_u32 bh pos) (- EIO) (\<lambda>atime pos.
     read_or (spfs_sb_read_u32 bh pos) (- EIO) (\<lambda>mtime pos.
     read_or (spfs_sb_read_u32 bh pos) (- EIO) (\<lambda>ctime pos.
     read_or (spfs_sb_read_u32 bh pos) (- EIO) (\<lambda>capacity pos.
     read_or (spfs_sb_read_sector bh pos) (- EIO) (\<lambda>start pos.
     read_or (spfs_sb_read_str bh pos SPOOKY_FS_NAME_MAX) (- EIO) (\<lambda>name pos.
     if magic \<noteq> SPOOKY_FS_BTREE_MAGIC then Done (Inl (- EINVAL))
     else Done (Inr (out\<lparr>i_ino := ino, i_mode := mode, i_gid := gid, i_uid := uid,
       i_atime := at_sec atime, i_mtime := at_sec mtime, i_ctime := at_sec ctime,
       in_capacity := capacity, in_start := start, in_name := name\<rparr>)))))))))))))"

text \<open>\<open>frame\<close>: the stack bytes that \<open>spfs_sb_write_str\<close> copies in place of the name.\<close>

definition spfs_inode_make ::
  "(nat \<Rightarrow> byte) \<Rightarrow> buf \<Rightarrow> spfs_inode \<Rightarrow> (int \<times> buf) outcome"
where
  "spfs_inode_make frame bh inode = bnd
     (let pos = 0 in
      write_or (spfs_sb_write_u32 bh pos SPOOKY_FS_BTREE_MAGIC) (- EIO) bh pos (\<lambda>bh pos.
      write_or (spfs_sb_write_u32 bh pos (ucast (i_ino inode))) (- EIO) bh pos (\<lambda>bh pos.
      write_or (spfs_sb_write_u16 bh pos (i_mode inode)) (- EIO) bh pos (\<lambda>bh pos.
      write_or (spfs_sb_write_u32 bh pos (i_gid inode)) (- EIO) bh pos (\<lambda>bh pos.
      write_or (spfs_sb_write_u32 bh pos (i_uid inode)) (- EIO) bh pos (\<lambda>bh pos.
      write_or (spfs_sb_write_u32 bh pos (ucast (tv_sec (i_atime inode)))) (- EIO) bh pos (\<lambda>bh pos.
      write_or (spfs_sb_write_u32 bh pos (ucast (tv_sec (i_mtime inode)))) (- EIO) bh pos (\<lambda>bh pos.
      write_or (spfs_sb_write_u32 bh pos (ucast (tv_sec (i_ctime inode)))) (- EIO) bh pos (\<lambda>bh pos.
      write_or (spfs_sb_write_u32 bh pos (in_capacity inode)) (- EIO) bh pos (\<lambda>bh pos.
      write_or (spfs_sb_write_u32 bh pos (ucast (in_start inode))) (- EIO) bh pos (\<lambda>bh pos.
      write_or (spfs_sb_write_str frame bh pos (in_name inode) SPOOKY_FS_NAME_MAX) (- EIO) bh pos
        (\<lambda>bh pos.
      Done (0, bh, pos)))))))))))))
     (\<lambda>(res, bh, pos). Done (res, bh))"

section \<open>What the two functions do\<close>

definition inode_bytes :: "(nat \<Rightarrow> byte) \<Rightarrow> spfs_inode \<Rightarrow> byte list" where
  "inode_bytes frame inode =
     be_bytes 4 (unat SPOOKY_FS_BTREE_MAGIC) @ be_bytes 4 (unat (ucast (i_ino inode) :: u32)) @
     be_bytes 2 (unat (i_mode inode)) @ be_bytes 4 (unat (i_gid inode)) @
     be_bytes 4 (unat (i_uid inode)) @
     be_bytes 4 (unat (ucast (tv_sec (i_atime inode)) :: u32)) @
     be_bytes 4 (unat (ucast (tv_sec (i_mtime inode)) :: u32)) @
     be_bytes 4 (unat (ucast (tv_sec (i_ctime inode)) :: u32)) @
     be_bytes 4 (unat (in_capacity inode)) @ be_bytes 4 (unat (ucast (in_start inode) :: u32)) @
     map frame [0..<256]"

lemma length_inode_bytes [simp]: "length (inode_bytes frame inode) = 294"
  by (simp add: inode_bytes_def)

lemma spfs_inode_make_eq:
  assumes "294 \<le> length b"
  shows "spfs_inode_make frame b inode = Done (0, store b 0 (inode_bytes frame inode))"
  using assms
  by (simp add: spfs_inode_make_def SPOOKY_FS_NAME_MAX_def field_writes store_append
      inode_bytes_def Let_def)

text \<open>What survives the wire: 32 bits of number, times and start; and not the name.\<close>

definition inode_on_wire :: "(nat \<Rightarrow> byte) \<Rightarrow> spfs_inode \<Rightarrow> spfs_inode \<Rightarrow> spfs_inode" where
  "inode_on_wire frame inode out =
     out\<lparr>i_ino := low32 (i_ino inode), i_mode := i_mode inode, i_gid := i_gid inode,
       i_uid := i_uid inode, i_atime := at_sec (ucast (tv_sec (i_atime inode))),
       i_mtime := at_sec (ucast (tv_sec (i_mtime inode))),
       i_ctime := at_sec (ucast (tv_sec (i_ctime inode))),
       in_capacity := in_capacity inode, in_start := low32 (in_start inode),
       in_name := map frame [0..<256]\<rparr>"

lemma spfs_inode_parse_bytes:
  assumes "294 \<le> length b" and "load b 0 294 = inode_bytes frame inode"
  shows "spfs_inode_parse b out = Done (Inr (inode_on_wire frame inode out))"
proof -
  have part: "load b p n = take n (drop p (inode_bytes frame inode))" if "p + n \<le> 294" for p n
    using that by (simp add: load_def drop_take min_def flip: assms(2))
  show ?thesis
    using assms(1)
    by (simp add: spfs_inode_parse_def SPOOKY_FS_NAME_MAX_def field_reads part)
      (simp add: inode_bytes_def inode_on_wire_def low32_def)
qed

lemma spfs_inode_make_parse:
  assumes "294 \<le> length b" and "spfs_inode_make frame b inode = Done (res, b')"
  shows "res = 0" and "length b' = length b"
    and "spfs_inode_parse b' out = Done (Inr (inode_on_wire frame inode out))"
  using assms by (auto simp: spfs_inode_make_eq intro: spfs_inode_parse_bytes)

lemma spfs_inode_make_length:
  assumes "spfs_inode_make frame b inode = Done (res, b')"
  shows "length b' = length b"
  using assms unfolding spfs_inode_make_def Let_def
  by (rule keeps_result) (intro keeps_write_or keeps_Done, (assumption | rule refl | erule field_lengths | simp)+)

section \<open>Properties\<close>

text \<open>
  C22: An inode that is written into a block of at least 294 bytes is read back with its mode,
  owner, link-independent data, capacity and the low 32 bits of its number, its start and its
  times; fields that are not on the wire keep what the caller passed in, and the name is not
  the one that was stored but the bytes found at the address of a parameter.
\<close>

theorem inode_roundtrip:
  assumes "294 \<le> length b"
  shows "\<exists>b'. spfs_inode_make frame b inode = Done (0, b') \<and> length b' = length b \<and>
    spfs_inode_parse b' out = Done (Inr (out\<lparr>i_ino := low32 (i_ino inode), i_mode := i_mode inode,
       i_gid := i_gid inode, i_uid := i_uid inode,
       i_atime := at_sec (ucast (tv_sec (i_atime inode))),
       i_mtime := at_sec (ucast (tv_sec (i_mtime inode))),
       i_ctime := at_sec (ucast (tv_sec (i_ctime inode))),
       in_capacity := in_capacity inode, in_start := low32 (in_start inode),
       in_name := map frame [0..<256]\<rparr>))"
proof -
  have make: "spfs_inode_make frame b inode = Done (0, store b 0 (inode_bytes frame inode))"
    using assms by (rule spfs_inode_make_eq)
  show ?thesis
    using make spfs_inode_make_parse(2,3) [OF assms make] by (auto simp: inode_on_wire_def)
qed

theorem inode_roundtrip_witness:
  "\<exists>b'. spfs_inode_make (\<lambda>_. 9) (replicate 512 0)
      \<lparr>i_ino = 0x100000007, i_mode = 0x81A4, i_gid = 3, i_uid = 4, i_atime = at_sec 5, i_mtime = at_sec 6,
        i_ctime = at_sec 7, i_nlink = 1, i_size = 99, i_lock = False, i_kernel = True, in_capacity = 8, in_start = 9,
        in_name = replicate 256 65\<rparr> = Done (0, b') \<and> length b' = 512"
  using inode_roundtrip [of "replicate 512 0" "\<lambda>_. 9" "\<lparr>i_ino = 0x100000007, i_mode = 0x81A4,
      i_gid = 3, i_uid = 4, i_atime = at_sec 5, i_mtime = at_sec 6,
      i_ctime = at_sec 7, i_nlink = 1, i_size = 99, i_lock = False, i_kernel = True, in_capacity = 8, in_start = 9,
      in_name = replicate 256 65\<rparr>"]
  by auto

end
