(* ===== verification/Fs_State.thy ===== *)
theory Fs_State
  imports Free_List Inode_Codec
begin

text \<open>
  The state of a mounted file system: the device behind \<open>struct super_block\<close> and the
  private data \<open>struct spfs_super_block\<close> (sp.h), with its B-tree and its free list. The
  record is extensible: the inode cache of the VFS layer is added to it later.
\<close>

record spfs =
  s_dev :: dev
  sbi_version :: u32
  sbi_magic :: u32
  sbi_block_size :: u32
  sbi_btree_offset :: u64
  sbi_free_list_offset :: u64
  sbi_id :: u64
  sbi_root_id :: u64
  tree_block_size :: u64
  tree_blocks :: u64
  tree_start :: u64
  sbi_free_list :: spfs_free_list

text \<open>
  Memory the code uses before it is initialised: \<open>e_frame\<close> is what lies at \<open>&str\<close> in
  \<open>spfs_sb_write_str\<close>, \<open>e_cur\<close> the \<open>struct spfs_inode cur\<close> on the stack of
  \<open>btree_visit_entry\<close>. Every theorem holds for all values.
\<close>

record env =
  e_frame :: "nat \<Rightarrow> byte"
  e_cur :: spfs_inode

text \<open>Allocation through \<open>self->free_list\<close> and \<open>sbi->free_list\<close>.\<close>

definition fs_alloc :: "'a spfs_scheme \<Rightarrow> u64 \<Rightarrow> u64 \<times> 'a spfs_scheme" where
  "fs_alloc s blocks =
     (let (r, fl) = spfs_free_alloc (sbi_free_list s) blocks in (r, s\<lparr>sbi_free_list := fl\<rparr>))"

text \<open>\<open>sb_bread\<close> and its companions on the state.\<close>

definition fs_bread :: "'a spfs_scheme \<Rightarrow> u64 \<Rightarrow> (buf \<times> 'a spfs_scheme) option" where
  "fs_bread s n = map_option (\<lambda>(b, d). (b, s\<lparr>s_dev := d\<rparr>)) (sb_bread (s_dev s) n)"

definition fs_get :: "'a spfs_scheme \<Rightarrow> u64 \<Rightarrow> buf outcome" where
  "fs_get s n = get_buf (s_dev s) n"

definition fs_put :: "'a spfs_scheme \<Rightarrow> u64 \<Rightarrow> buf \<Rightarrow> 'a spfs_scheme" where
  "fs_put s n b = s\<lparr>s_dev := put_buf (s_dev s) n b\<rparr>"

definition fs_dirty :: "'a spfs_scheme \<Rightarrow> u64 \<Rightarrow> 'a spfs_scheme" where
  "fs_dirty s n = s\<lparr>s_dev := mark_buffer_dirty (s_dev s) n\<rparr>"

definition fs_brelse :: "'a spfs_scheme \<Rightarrow> u64 \<Rightarrow> 'a spfs_scheme" where
  "fs_brelse s n = s\<lparr>s_dev := brelse (s_dev s) n\<rparr>"

lemmas fs_defs = fs_bread_def fs_get_def fs_put_def fs_dirty_def fs_brelse_def

text \<open>The allocator contract carries over to the mounted file system.\<close>

lemma fs_alloc_eq:
  "fs_alloc s n = (r, s') \<longleftrightarrow>
    (\<exists>fl. spfs_free_alloc (sbi_free_list s) n = (r, fl) \<and> s' = s\<lparr>sbi_free_list := fl\<rparr>)"
  by (auto simp: fs_alloc_def split: prod.splits)

lemma fs_alloc_zero:
  assumes "free_ok (sbi_free_list s)" and "fs_alloc s n = (0, s')"
  shows "s' = s"
proof -
  from assms(2) obtain fl where "spfs_free_alloc (sbi_free_list s) n = (0, fl)"
    and s': "s' = s\<lparr>sbi_free_list := fl\<rparr>" by (auto simp: fs_alloc_eq)
  then have "fl = sbi_free_list s" using assms(1) by (auto dest: spfs_free_alloc_zero)
  then show ?thesis by (simp add: s')
qed

interpretation fs_allocator: block_allocator fs_alloc
  "\<lambda>s. free_sectors (sbi_free_list s)" "\<lambda>s. free_ok (sbi_free_list s)"
proof
  fix s s' :: "'a spfs_scheme" and n r
  assume ok: "free_ok (sbi_free_list s)" and alloc: "fs_alloc s n = (r, s')" and r: "r \<noteq> 0"
  obtain fl where fl: "spfs_free_alloc (sbi_free_list s) n = (r, fl)"
    and s': "s' = s\<lparr>sbi_free_list := fl\<rparr>" using alloc by (auto simp: fs_alloc_eq)
  note taken = spfs_free_alloc_taken [OF ok fl r]
  show "region r n \<subseteq> free_sectors (sbi_free_list s)" by (rule taken(1))
  show "free_sectors (sbi_free_list s') = free_sectors (sbi_free_list s) - region r n"
    using taken(2) by (simp add: s')
  show "free_ok (sbi_free_list s')" using taken(3) by (simp add: s')
next
  fix s s' :: "'a spfs_scheme" and n
  assume "free_ok (sbi_free_list s)" and "fs_alloc s n = (0, s')"
  then show "s' = s" by (rule fs_alloc_zero)
qed

end
