(* ===== verification/Super_Block.thy ===== *)
theory Super_Block
  imports Fs_State
begin

text \<open>
  The super block as sp.c reads it at mount: block 0, seven big-endian 32-bit fields.
\<close>

definition SPOOKY_FS_SUPER_MAGIC :: u32 where
  "SPOOKY_FS_SUPER_MAGIC = 0xDEADBEEF"

definition SPOOKY_FS_INITIAL_BLOCK_SIZE :: nat where
  "SPOOKY_FS_INITIAL_BLOCK_SIZE = 512"

definition spfs_read_super_block :: "buf \<Rightarrow> 'a spfs_scheme \<Rightarrow> (int + 'a spfs_scheme) outcome" where
  "spfs_read_super_block bh s =
     read_or (spfs_sb_read_u32 bh 0) (- EINVAL) (\<lambda>magic pos.
     read_or (spfs_sb_read_u32 bh pos) (- EINVAL) (\<lambda>version pos.
     read_or (spfs_sb_read_u32 bh pos) (- EINVAL) (\<lambda>block_size pos.
     read_or (spfs_sb_read_ino bh pos) (- EINVAL) (\<lambda>ino pos.
     read_or (spfs_sb_read_ino bh pos) (- EINVAL) (\<lambda>root_id pos.
     read_or (spfs_sb_read_sector bh pos) (- EINVAL) (\<lambda>btree_offset pos.
     read_or (spfs_sb_read_sector bh pos) (- EINVAL) (\<lambda>free_list_offset pos.
     Done (Inr (s\<lparr>sbi_magic := magic, sbi_version := version, sbi_block_size := block_size,
       sbi_id := ino, sbi_root_id := root_id, sbi_btree_offset := btree_offset,
       sbi_free_list_offset := free_list_offset\<rparr>)))))))))"

definition spfs_super_block_init ::
  "'a spfs_scheme \<Rightarrow> u64 \<Rightarrow> (int \<times> 'a spfs_scheme) outcome"
where
  "spfs_super_block_init s start =
     (case fs_bread s start of
        None \<Rightarrow> Done (- EIO, s)
      | Some (bh, s) \<Rightarrow>
          bnd (spfs_read_super_block bh s) (\<lambda>r.
            case r of
              Inl res \<Rightarrow> Done (res, fs_brelse s start)
            | Inr s \<Rightarrow>
                let s' = fs_brelse s start in
                if sbi_magic s \<noteq> SPOOKY_FS_SUPER_MAGIC then Done (- EINVAL, s')
                else if unat (sbi_block_size s) < SPOOKY_FS_INITIAL_BLOCK_SIZE then Done (- EINVAL, s')
                else Done (0, s')))"

text \<open>
  \<open>setbs n d\<close> stands for \<open>sb_set_blocksize\<close> of the kernel: the size it returns (0 when
  it refuses) and the device with its buffers at that size.
\<close>

definition spfs_set_blocksize ::
  "(u64 \<Rightarrow> dev \<Rightarrow> u64 \<times> dev) \<Rightarrow> bool \<Rightarrow> 'a spfs_scheme \<Rightarrow> u64 \<Rightarrow> int \<times> 'a spfs_scheme"
where
  "spfs_set_blocksize setbs is_bdev s block_size =
     (if is_bdev then
        let (n, d) = setbs block_size (s_dev s) in
        (if n = 0 then - EINVAL else 0, s\<lparr>s_dev := d\<rparr>)
      else (0, s))"

section \<open>The wire format\<close>

record super_fields =
  w_magic :: u32
  w_version :: u32
  w_block_size :: u32
  w_id :: u32
  w_root_id :: u32
  w_btree_offset :: u32
  w_free_list_offset :: u32

definition super_bytes :: "super_fields \<Rightarrow> byte list" where
  "super_bytes w =
     be_bytes 4 (unat (w_magic w)) @ be_bytes 4 (unat (w_version w)) @
     be_bytes 4 (unat (w_block_size w)) @ be_bytes 4 (unat (w_id w)) @
     be_bytes 4 (unat (w_root_id w)) @ be_bytes 4 (unat (w_btree_offset w)) @
     be_bytes 4 (unat (w_free_list_offset w))"

lemma length_super_bytes [simp]: "length (super_bytes w) = 28"
  by (simp add: super_bytes_def)

definition with_super :: "super_fields \<Rightarrow> 'a spfs_scheme \<Rightarrow> 'a spfs_scheme" where
  "with_super w s = s\<lparr>sbi_magic := w_magic w, sbi_version := w_version w,
     sbi_block_size := w_block_size w, sbi_id := ucast (w_id w), sbi_root_id := ucast (w_root_id w),
     sbi_btree_offset := ucast (w_btree_offset w),
     sbi_free_list_offset := ucast (w_free_list_offset w)\<rparr>"

lemma spfs_read_super_block_bytes:
  assumes "32 \<le> length b" and "load b 0 28 = super_bytes w"
  shows "spfs_read_super_block b s = Done (Inr (with_super w s))"
proof -
  have part: "load b p n = take n (drop p (super_bytes w))" if "p + n \<le> 28" for p n
    using that by (simp add: load_def drop_take min_def flip: assms(2))
  show ?thesis
    using assms(1) by (simp add: spfs_read_super_block_def field_reads part)
      (simp add: super_bytes_def with_super_def)
qed

lemma spfs_super_block_init_bytes:
  assumes "d_blocks (s_dev s) start = Some b" and "32 \<le> length b" and "load b 0 28 = super_bytes w"
  shows "spfs_super_block_init s start =
    Done (if w_magic w = SPOOKY_FS_SUPER_MAGIC \<and> 512 \<le> unat (w_block_size w) then 0 else - EINVAL,
      with_super w s)"
proof -
  have refs: "fs_brelse (with_super w (s\<lparr>s_dev := s_dev s\<lparr>d_refs := (d_refs (s_dev s))(start :=
      Suc (d_refs (s_dev s) start))\<rparr>\<rparr>)) start = with_super w s"
    by (simp add: fs_brelse_def with_super_def)
  have fields: "sbi_magic (with_super w t) = w_magic w"
    "sbi_block_size (with_super w t) = w_block_size w" for t :: "'a spfs_scheme"
    by (simp_all add: with_super_def)
  show ?thesis
    using assms by (simp add: spfs_super_block_init_def fs_bread_def sb_bread_readable
        spfs_read_super_block_bytes Let_def refs fields SPOOKY_FS_INITIAL_BLOCK_SIZE_def)
qed

text \<open>A block whose first four bytes are not the magic number is refused.\<close>

lemma spfs_super_block_init_magic:
  assumes "d_blocks (s_dev s) start = Some b" and "32 \<le> length b"
    and "be_num (load b 0 4) \<noteq> unat SPOOKY_FS_SUPER_MAGIC"
  shows "\<exists>s'. spfs_super_block_init s start = Done (- EINVAL, s')"
proof -
  have "be_num (load b 0 4) < 2 ^ 32"
    using be_num_less [of "load b 0 4"] assms(2) by simp
  then have "(of_nat (be_num (load b 0 4)) :: u32) \<noteq> SPOOKY_FS_SUPER_MAGIC"
    using assms(3) unat_of_nat [of "be_num (load b 0 4)", where 'a = 32] by auto
  then show ?thesis
    using assms(1,2) by (simp add: spfs_super_block_init_def fs_bread_def sb_bread_readable
        spfs_read_super_block_def field_reads Let_def)
qed

end
