(* ===== verification/Mkfs.thy ===== *)
theory Mkfs
  imports Spfs_Prelude
begin

text \<open>
  mkfs.spfs.c: writes the super block and the first block of the free list. The C library
  calls it makes are modelled on an open file: \<open>write\<close> stores at the offset and stops at
  the end of the device (\<open>f_room\<close>), where it returns -1.
\<close>

section \<open>Files\<close>

record fdesc =
  f_data :: "byte list"
  f_off :: nat
  f_room :: nat

definition overlay :: "byte list \<Rightarrow> nat \<Rightarrow> byte list \<Rightarrow> byte list" where
  "overlay b off xs = take off (b @ replicate (off - length b) 0) @ xs @ drop (off + length xs) b"

definition file_write :: "fdesc \<Rightarrow> byte list \<Rightarrow> int \<times> fdesc" where
  "file_write f xs =
     (let n = min (length xs) (f_room f - f_off f) in
      if n = 0 \<and> xs \<noteq> [] then (- 1, f)
      else (int n, f\<lparr>f_data := overlay (f_data f) (f_off f) (take n xs), f_off := f_off f + n\<rparr>))"

text \<open>The fields of \<open>struct stat\<close> that are used.\<close>

record stat =
  st_blksize :: u64
  st_size :: "64 word"

section \<open>The functions of mkfs.spfs.c\<close>

record spfs_super_block_wire =
  m_magic :: u32
  m_version :: u32
  m_block_size :: u32
  m_id :: u32
  m_root_id :: u32
  m_btree_offset :: u32
  m_free_list_offset :: u32
  m_blocks :: u64

record fl_header_wire =
  h_magic :: u32
  h_entries :: u32
  h_next :: u32

record fl_entry_wire =
  e_start :: u32
  e_blocks :: u32

definition mkfs_magic :: u32 where "mkfs_magic = 0xDEADBEEF"

definition mkfs_bytes_of :: "stat \<Rightarrow> u64 \<Rightarrow> u64" where
  "mkfs_bytes_of s blocks = st_blksize s * blocks"

text \<open>\<open>st\<close> is \<open>None\<close> when \<open>fstat\<close> fails, which returns -1.\<close>

definition mkfs_block_size ::
  "stat option \<Rightarrow> spfs_super_block_wire \<Rightarrow> (int \<times> spfs_super_block_wire) outcome"
where
  "mkfs_block_size st super =
     (case st of
        None \<Rightarrow> Done (- 1, super)
      | Some s \<Rightarrow>
          let header_blocks = 2;
              super = super\<lparr>m_block_size := ucast (st_blksize s)\<rparr>;
              start = mkfs_bytes_of s header_blocks in
          if sint (st_size s) < 0 then Done (1, super)
          else if st_size s < start then Done (1, super)
          else
            let len = st_size s - start in
            if m_block_size super = 0 then Crash DivByZero
            else
              let super = super\<lparr>m_blocks := len div ucast (m_block_size super)\<rparr> in
              Done (if m_blocks super = 0 then 1 else 0, super))"

fun zero_fill :: "fdesc \<Rightarrow> nat \<Rightarrow> int \<times> fdesc" where
  "zero_fill f 0 = (0, f)"
| "zero_fill f (Suc n) =
     (let (ret, f') = file_write f [0] in if ret \<noteq> 1 then (ret, f') else zero_fill f' n)"

text \<open>
  \<open>mkfs_write_u32\<close> appends to the first \<open>pos\<close> bytes of the local buffer, which are all of it
  that is ever written out; \<open>htonl\<close> puts the most significant byte first.
\<close>

definition mkfs_write_u32 :: "byte list \<Rightarrow> u32 \<Rightarrow> byte list" where
  "mkfs_write_u32 buffer value = buffer @ to_mem 4 (cpu_to_be32 value)"

definition super_block :: "fdesc \<Rightarrow> spfs_super_block_wire \<Rightarrow> int \<times> fdesc" where
  "super_block f super =
     (let buffer = mkfs_write_u32 [] (m_magic super);
          buffer = mkfs_write_u32 buffer (m_version super);
          buffer = mkfs_write_u32 buffer (m_block_size super);
          buffer = mkfs_write_u32 buffer (m_id super);
          buffer = mkfs_write_u32 buffer (m_root_id super);
          buffer = mkfs_write_u32 buffer (m_btree_offset super);
          buffer = mkfs_write_u32 buffer (m_free_list_offset super);
          pos = length buffer;
          (ret, f) = file_write f buffer in
      if ret \<noteq> int pos then (ret, f)
      else let zero_len = ucast (m_block_size super) - of_nat pos :: u64 in
           zero_fill f (unat zero_len))"

definition mkfs_write_free_list_header :: "byte list \<Rightarrow> fl_header_wire \<Rightarrow> byte list" where
  "mkfs_write_free_list_header buffer header =
     mkfs_write_u32 (mkfs_write_u32 (mkfs_write_u32 buffer (h_magic header)) (h_entries header))
       (h_next header)"

definition mkfs_write_free_entry :: "byte list \<Rightarrow> fl_entry_wire \<Rightarrow> byte list" where
  "mkfs_write_free_entry buffer entry =
     mkfs_write_u32 (mkfs_write_u32 buffer (e_start entry)) (e_blocks entry)"

definition free_list :: "fdesc \<Rightarrow> spfs_super_block_wire \<Rightarrow> int \<times> fdesc" where
  "free_list f super =
     (let header = \<lparr>h_magic = mkfs_magic, h_entries = 1, h_next = 0\<rparr>;
          entry = \<lparr>e_start = 2, e_blocks = ucast (m_blocks super)\<rparr>;
          buffer = mkfs_write_free_list_header [] header;
          buffer = mkfs_write_free_entry buffer entry;
          cur = f_off f in
      if cur \<noteq> unat (m_block_size super) then (1, f)
      else let (wres, f) = file_write f buffer in
           (if wres \<noteq> int (length buffer) then 1 else 0, f))"

definition mkfs_super :: spfs_super_block_wire where
  "mkfs_super = \<lparr>m_magic = mkfs_magic, m_version = 1, m_block_size = 0, m_id = 1, m_root_id = 1,
     m_btree_offset = 0, m_free_list_offset = 1, m_blocks = 0\<rparr>"

text \<open>
  \<open>main\<close> on an opened device. \<open>open\<close> reports failure with -1, for which \<open>if (!fd)\<close> does not
  look; \<open>fstat\<close> on it then fails, so this case is \<open>st = None\<close>.
\<close>

definition mkfs_main :: "bool \<Rightarrow> fdesc \<Rightarrow> stat option \<Rightarrow> (int \<times> fdesc) outcome" where
  "mkfs_main has_arg f st =
     (if \<not> has_arg then Done (0, f)
      else
        bnd (mkfs_block_size st mkfs_super) (\<lambda>(ret, super).
        if ret \<noteq> 0 then Done (1, f)
        else
          let (ret, f) = super_block f super in
          if ret \<noteq> 0 then Done (1, f)
          else
            let (ret, f) = free_list f super in
            Done (if ret \<noteq> 0 then 1 else 0, f)))"

end
