(* ===== verification/Fsck.thy ===== *)
theory Fsck
  imports Mkfs
begin

text \<open>
  fsck.spfs.c: reads the super block and walks the free list. It shares the wire structures
  and the file model with mkfs. \<open>read\<close> at or after the end returns fewer bytes than asked;
  the variable then keeps bytes it had, which no caller uses since the result is not 0.
\<close>

definition file_read :: "fdesc \<Rightarrow> nat \<Rightarrow> byte list \<times> fdesc" where
  "file_read f n =
     (let bs = take n (drop (f_off f) (f_data f)) in (bs, f\<lparr>f_off := f_off f + length bs\<rparr>))"

definition fsck_read_u32 :: "fdesc \<Rightarrow> int \<times> u32 \<times> fdesc" where
  "fsck_read_u32 f =
     (let (bs, f) = file_read f 4 in
      (4 - int (length bs), be32_to_cpu (of_mem bs), f))"

text \<open>"if the read fails, return \<open>e\<close>", else go on with the value.\<close>

definition fsck_or ::
  "int \<times> u32 \<times> fdesc \<Rightarrow> 'e \<Rightarrow> (u32 \<Rightarrow> fdesc \<Rightarrow> ('e + 'a) \<times> fdesc) \<Rightarrow> ('e + 'a) \<times> fdesc"
where
  "fsck_or m e k = (let (ret, v, f) = m in if ret \<noteq> 0 then (Inl e, f) else k v f)"

text \<open>\<open>opened\<close> is false for the descriptor -1 of a failed \<open>open\<close>: \<open>lseek\<close> fails on it.\<close>

definition read_super_block ::
  "bool \<Rightarrow> fdesc \<Rightarrow> (int + spfs_super_block_wire) \<times> fdesc"
where
  "read_super_block opened f =
     (if \<not> opened then (Inl 1, f)
      else
        let f = f\<lparr>f_off := 0\<rparr> in
        fsck_or (fsck_read_u32 f) 1 (\<lambda>magic f.
        fsck_or (fsck_read_u32 f) 1 (\<lambda>version f.
        fsck_or (fsck_read_u32 f) 1 (\<lambda>block_size f.
        fsck_or (fsck_read_u32 f) 1 (\<lambda>ino f.
        fsck_or (fsck_read_u32 f) 1 (\<lambda>root_id f.
        fsck_or (fsck_read_u32 f) 1 (\<lambda>btree_offset f.
        fsck_or (fsck_read_u32 f) 1 (\<lambda>free_list_offset f.
        (Inr \<lparr>m_magic = magic, m_version = version, m_block_size = block_size, m_id = ino,
           m_root_id = root_id, m_btree_offset = btree_offset,
           m_free_list_offset = free_list_offset, m_blocks = 0\<rparr>, f)))))))))"

definition fsck_super_block :: "spfs_super_block_wire \<Rightarrow> int" where
  "fsck_super_block super =
     (if m_magic super \<noteq> mkfs_magic then 1
      else if unat (m_block_size super) < 512 then 1
      else if unat (m_block_size super) mod 512 \<noteq> 0 then 1
      else 0)"

definition read_free_list_header :: "fdesc \<Rightarrow> (int + fl_header_wire) \<times> fdesc" where
  "read_free_list_header f =
     fsck_or (fsck_read_u32 f) 1 (\<lambda>magic f.
     fsck_or (fsck_read_u32 f) 1 (\<lambda>entries f.
     fsck_or (fsck_read_u32 f) 1 (\<lambda>next f.
     (Inr \<lparr>h_magic = magic, h_entries = entries, h_next = next\<rparr>, f))))"

definition read_free_entry :: "fdesc \<Rightarrow> (int + fl_entry_wire) \<times> fdesc" where
  "read_free_entry f =
     fsck_or (fsck_read_u32 f) 1 (\<lambda>start f.
     fsck_or (fsck_read_u32 f) 1 (\<lambda>blocks f.
     (Inr \<lparr>e_start = start, e_blocks = blocks\<rparr>, f)))"

fun fsck_entries :: "nat \<Rightarrow> fdesc \<Rightarrow> bool \<times> fdesc" where
  "fsck_entries 0 f = (True, f)"
| "fsck_entries (Suc n) f =
     (case read_free_entry f of
        (Inl _, f) \<Rightarrow> (False, f)
      | (Inr _, f) \<Rightarrow> fsck_entries n f)"

text \<open>The \<open>do\<close> loop over the chain; the block address is a product of 32-bit numbers.\<close>

fun fsck_free_loop ::
  "nat \<Rightarrow> fdesc \<Rightarrow> spfs_super_block_wire \<Rightarrow> u32 \<Rightarrow> (int \<times> fdesc) outcome"
where
  "fsck_free_loop 0 f super block = Crash NoFuel"
| "fsck_free_loop (Suc fuel) f super block =
     (let pos = unat (block * m_block_size super); f = f\<lparr>f_off := pos\<rparr> in
      case read_free_list_header f of
        (Inl _, f) \<Rightarrow> Done (1, f)
      | (Inr header, f) \<Rightarrow>
          if h_magic header \<noteq> mkfs_magic then Done (1, f)
          else
            let (ok, f) = fsck_entries (unat (h_entries header)) f in
            if \<not> ok then Done (1, f)
            else if h_next header \<noteq> 0 then fsck_free_loop fuel f super (h_next header)
            else Done (0, f))"

definition fsck_free_list :: "nat \<Rightarrow> fdesc \<Rightarrow> spfs_super_block_wire \<Rightarrow> (int \<times> fdesc) outcome" where
  "fsck_free_list fuel f super = fsck_free_loop fuel f super (m_free_list_offset super)"

definition fsck_main :: "nat \<Rightarrow> bool \<Rightarrow> bool \<Rightarrow> fdesc \<Rightarrow> int outcome" where
  "fsck_main fuel has_arg opened f =
     (if \<not> has_arg then Done 0
      else
        case read_super_block opened f of
          (Inl _, f) \<Rightarrow> Done 1
        | (Inr super, f) \<Rightarrow>
            if fsck_super_block super \<noteq> 0 then Done 1
            else
              bnd (fsck_free_list fuel f super) (\<lambda>(ret, f). Done (if ret \<noteq> 0 then 1 else 0)))"

section \<open>What is printed\<close>

text \<open>A line on the standard output: which of the \<open>printf\<close> calls, and the values it prints.\<close>

datatype fsck_line =
    SuperLine spfs_super_block_wire
  | HeaderLine fl_header_wire
  | EntryLine fl_entry_wire

definition print_super :: "spfs_super_block_wire \<Rightarrow> fsck_line list" where
  "print_super super = [SuperLine super]"

definition print_free_header :: "fl_header_wire \<Rightarrow> fsck_line list" where
  "print_free_header header = [HeaderLine header]"

definition print_free_entry :: "fl_entry_wire \<Rightarrow> fsck_line list" where
  "print_free_entry entry = [EntryLine entry]"

text \<open>The lines the loops over entries and over blocks print, and those of the whole program.\<close>

fun printed_entries :: "nat \<Rightarrow> fdesc \<Rightarrow> fsck_line list" where
  "printed_entries 0 f = []"
| "printed_entries (Suc n) f =
     (case read_free_entry f of
        (Inl _, f) \<Rightarrow> []
      | (Inr entry, f) \<Rightarrow> print_free_entry entry @ printed_entries n f)"

fun printed_free_list :: "nat \<Rightarrow> fdesc \<Rightarrow> spfs_super_block_wire \<Rightarrow> u32 \<Rightarrow> fsck_line list" where
  "printed_free_list 0 f super block = []"
| "printed_free_list (Suc fuel) f super block =
     (case read_free_list_header (f\<lparr>f_off := unat (block * m_block_size super)\<rparr>) of
        (Inl _, f) \<Rightarrow> []
      | (Inr header, f) \<Rightarrow>
          if h_magic header \<noteq> mkfs_magic then []
          else
            print_free_header header @ printed_entries (unat (h_entries header)) f @
            (let (ok, f) = fsck_entries (unat (h_entries header)) f in
             if ok \<and> h_next header \<noteq> 0 then printed_free_list fuel f super (h_next header) else []))"

definition fsck_printed :: "nat \<Rightarrow> bool \<Rightarrow> bool \<Rightarrow> fdesc \<Rightarrow> fsck_line list" where
  "fsck_printed fuel has_arg opened f =
     (if \<not> has_arg then []
      else
        case read_super_block opened f of
          (Inl _, f) \<Rightarrow> []
        | (Inr super, f) \<Rightarrow>
            print_super super @
            (if fsck_super_block super \<noteq> 0 then []
             else printed_free_list fuel f super (m_free_list_offset super)))"

end
