(* ===== verification/Image.thy ===== *)
theory Image
  imports Super_Block Fsck
begin

text \<open>
  The disk image: what mkfs leaves on the device, and that the kernel at mount and fsck read
  from it what mkfs wrote.
\<close>

section \<open>Writing on a device that is large enough\<close>

lemma overlay_store: "off + length xs \<le> length b \<Longrightarrow> overlay b off xs = store b off xs"
  by (simp add: overlay_def store_def)

lemma file_write_ok:
  assumes "length (f_data f) = f_room f" and "f_off f + length xs \<le> f_room f"
  shows "file_write f xs =
    (int (length xs), f\<lparr>f_data := store (f_data f) (f_off f) xs, f_off := f_off f + length xs\<rparr>)"
proof -
  have "min (length xs) (f_room f - f_off f) = length xs" using assms(2) by simp
  then show ?thesis using assms by (auto simp: file_write_def overlay_store Let_def)
qed

lemma zero_fill_ok:
  assumes "length (f_data f) = f_room f" and "f_off f + n \<le> f_room f"
  shows "zero_fill f n =
    (0, f\<lparr>f_data := store (f_data f) (f_off f) (replicate n 0), f_off := f_off f + n\<rparr>)"
  using assms
proof (induction n arbitrary: f)
  case 0
  then show ?case by simp
next
  case (Suc n)
  define f' where "f' = f\<lparr>f_data := store (f_data f) (f_off f) [0], f_off := f_off f + 1\<rparr>"
  have w: "file_write f [0] = (1, f')"
    using Suc.prems by (simp add: file_write_ok f'_def)
  have "zero_fill f' n =
      (0, f'\<lparr>f_data := store (f_data f') (f_off f') (replicate n 0), f_off := f_off f' + n\<rparr>)"
    using Suc.prems by (intro Suc.IH) (simp_all add: f'_def)
  then show ?case
    using w Suc.prems by (simp add: f'_def store_append)
qed

section \<open>The image\<close>

text \<open>The device starts empty-positioned, is as large as \<open>fstat\<close> says and holds three blocks.\<close>

definition geometry_ok :: "fdesc \<Rightarrow> stat \<Rightarrow> bool" where
  "geometry_ok f s \<longleftrightarrow>
     f_off f = 0 \<and> length (f_data f) = f_room f \<and> unat (st_size s) = f_room f \<and>
     f_room f < 2 ^ 63 \<and> 512 \<le> unat (st_blksize s) \<and> unat (st_blksize s) < 2 ^ 32 \<and>
     3 * unat (st_blksize s) \<le> f_room f"

definition data_blocks :: "fdesc \<Rightarrow> stat \<Rightarrow> nat" where
  "data_blocks f s = (f_room f - 2 * unat (st_blksize s)) div unat (st_blksize s)"

definition image_super :: "stat \<Rightarrow> super_fields" where
  "image_super s = \<lparr>w_magic = SPOOKY_FS_SUPER_MAGIC, w_version = 1,
     w_block_size = ucast (st_blksize s), w_id = 1, w_root_id = 1, w_btree_offset = 0,
     w_free_list_offset = 1\<rparr>"

definition image_node :: "fdesc \<Rightarrow> stat \<Rightarrow> spfs_free_node" where
  "image_node f s = \<lparr>fn_start = 2, fn_blocks = of_nat (data_blocks f s)\<rparr>"

definition image_head :: "fdesc \<Rightarrow> stat \<Rightarrow> byte list" where
  "image_head f s =
     super_bytes (image_super s) @ replicate (unat (st_blksize s) - 28) 0 @
     fl_header_bytes 1 0 @ fl_entry_bytes (image_node f s)"

lemma length_fl_bytes [simp]:
  "length (fl_header_bytes len next) = 12" "length (fl_entry_bytes n) = 8"
  by (simp_all add: fl_header_bytes_def fl_entry_bytes_def)

lemma length_image_head:
  "28 \<le> unat (st_blksize s) \<Longrightarrow> length (image_head f s) = unat (st_blksize s) + 20"
  by (simp add: image_head_def)

lemma magic_eq: "mkfs_magic = SPOOKY_FS_SUPER_MAGIC" "mkfs_magic = SPOOKY_FS_FL_MAGIC"
  by (simp_all add: mkfs_magic_def SPOOKY_FS_SUPER_MAGIC_def SPOOKY_FS_FL_MAGIC_def)

lemma mkfs_block_size_ok:
  assumes "geometry_ok f s"
  shows "mkfs_block_size (Some s) super =
    Done (0, super\<lparr>m_block_size := ucast (st_blksize s), m_blocks := of_nat (data_blocks f s)\<rparr>)"
proof -
  let ?B = "unat (st_blksize s)"
  have g: "unat (st_size s) = f_room f" "f_room f < 2 ^ 63" "512 \<le> ?B" "?B < 2 ^ 32" "3 * ?B \<le> f_room f"
    using assms by (auto simp: geometry_ok_def)
  have sz: "st_size s = of_nat (f_room f)" using g(1) by (metis of_nat_unat ucast_id)
  have pos: "\<not> sint (st_size s) < 0"
    using g(1,2) by (simp add: sint_u64_small)
  have start: "unat (mkfs_bytes_of s 2) = 2 * ?B"
    using g(4) by (simp add: mkfs_bytes_of_def unat_word_ariths mult.commute)
  have le: "\<not> st_size s < mkfs_bytes_of s 2" "mkfs_bytes_of s 2 \<le> st_size s"
    using g start by (simp_all add: word_less_nat_alt word_le_nat_alt)
  have B: "unat (ucast (st_blksize s) :: u32) = ?B" using g(4) by simp
  have nz: "(ucast (st_blksize s) :: u32) \<noteq> 0" using B g(3) by (metis not_numeral_le_zero unat_0)
  have "(f_room f - 2 * ?B) div ?B \<le> f_room f" using div_le_dividend order_trans diff_le_self by blast
  then have small: "(f_room f - 2 * ?B) div ?B mod 2 ^ 64 = (f_room f - 2 * ?B) div ?B"
    using g(2) by (intro mod_less) simp
  have div: "(st_size s - mkfs_bytes_of s 2) div ucast (ucast (st_blksize s) :: u32) =
      of_nat (data_blocks f s)"
    by (rule word_unat_eq_iff [THEN iffD2])
      (use g le start B small in \<open>simp add: unat_div unat_sub unat_of_nat data_blocks_def\<close>)
  have "0 < data_blocks f s"
    using g by (simp add: data_blocks_def div_greater_zero_iff)
  moreover have "unat (of_nat (data_blocks f s) :: u64) = data_blocks f s"
    using small by (simp add: unat_of_nat data_blocks_def)
  ultimately have "(of_nat (data_blocks f s) :: u64) \<noteq> 0" by (metis less_numeral_extra(3) unat_0)
  then show ?thesis
    using pos le nz div by (simp add: mkfs_block_size_def Let_def)
qed

definition wire_fields :: "spfs_super_block_wire \<Rightarrow> super_fields" where
  "wire_fields m = \<lparr>w_magic = m_magic m, w_version = m_version m, w_block_size = m_block_size m,
     w_id = m_id m, w_root_id = m_root_id m, w_btree_offset = m_btree_offset m,
     w_free_list_offset = m_free_list_offset m\<rparr>"

lemma super_block_ok:
  assumes "length (f_data f) = f_room f" and "f_off f = 0"
    and "28 \<le> unat (m_block_size m)" and "unat (m_block_size m) \<le> f_room f"
  shows "super_block f m =
    (0, f\<lparr>f_data := store (f_data f) 0
        (super_bytes (wire_fields m) @ replicate (unat (m_block_size m) - 28) 0),
      f_off := unat (m_block_size m)\<rparr>)"
proof -
  let ?B = "unat (m_block_size m)" and ?b = "super_bytes (wire_fields m)"
  define f1 where "f1 = f\<lparr>f_data := store (f_data f) 0 ?b, f_off := 28\<rparr>"
  have w: "file_write f ?b = (28, f1)"
    using assms by (simp add: file_write_ok f1_def)
  have zl: "unat (ucast (m_block_size m) - 28 :: u64) = ?B - 28"
    using assms(3) by (simp add: unat_sub word_le_nat_alt)
  have z: "zero_fill f1 (?B - 28) = (0, f1\<lparr>f_data := store (f_data f1) 28 (replicate (?B - 28) 0),
      f_off := ?B\<rparr>)"
    using assms by (subst zero_fill_ok) (simp_all add: f1_def)
  have "store (f_data f1) 28 (replicate (?B - 28) 0) =
      store (f_data f) 0 (?b @ replicate (?B - 28) 0)"
    using assms by (simp add: f1_def store_append)
  moreover have "mkfs_write_u32 (mkfs_write_u32 (mkfs_write_u32 (mkfs_write_u32 (mkfs_write_u32
      (mkfs_write_u32 (mkfs_write_u32 [] (m_magic m)) (m_version m)) (m_block_size m)) (m_id m))
      (m_root_id m)) (m_btree_offset m)) (m_free_list_offset m) = ?b"
    by (simp add: mkfs_write_u32_def super_bytes_def wire_fields_def)
  ultimately show ?thesis
    using w z zl by (simp add: super_block_def Let_def f1_def)
qed

lemma free_list_ok:
  assumes "length (f_data f) = f_room f" and "f_off f = unat (m_block_size m)"
    and "unat (m_block_size m) + 20 \<le> f_room f"
  shows "free_list f m =
    (0, f\<lparr>f_data := store (f_data f) (f_off f)
        (fl_header_bytes 1 0 @ fl_entry_bytes \<lparr>fn_start = 2, fn_blocks = ucast (m_blocks m)\<rparr>),
      f_off := f_off f + 20\<rparr>)"
proof -
  have "mkfs_write_free_entry
      (mkfs_write_free_list_header [] \<lparr>h_magic = mkfs_magic, h_entries = 1, h_next = 0\<rparr>)
      \<lparr>e_start = 2, e_blocks = ucast (m_blocks m)\<rparr> =
    fl_header_bytes 1 0 @ fl_entry_bytes \<lparr>fn_start = 2, fn_blocks = ucast (m_blocks m)\<rparr>"
    by (simp add: mkfs_write_free_entry_def mkfs_write_free_list_header_def mkfs_write_u32_def
        fl_header_bytes_def fl_entry_bytes_def magic_eq(2))
  then show ?thesis
    using assms by (simp add: free_list_def Let_def file_write_ok)
qed

lemma mkfs_main_ok:
  assumes "geometry_ok f s"
  shows "mkfs_main True f (Some s) =
    Done (0, f\<lparr>f_data := store (f_data f) 0 (image_head f s), f_off := unat (st_blksize s) + 20\<rparr>)"
proof -
  let ?B = "unat (st_blksize s)"
  have g: "length (f_data f) = f_room f" "f_off f = 0" "512 \<le> ?B" "?B < 2 ^ 32" "3 * ?B \<le> f_room f"
    using assms by (auto simp: geometry_ok_def)
  define m where "m = mkfs_super\<lparr>m_block_size := ucast (st_blksize s), m_blocks := of_nat (data_blocks f s)\<rparr>"
  have B: "unat (m_block_size m) = ?B" using g(4) by (simp add: m_def)
  have fields: "wire_fields m = image_super s"
    by (simp add: m_def wire_fields_def mkfs_super_def image_super_def magic_eq)
  define f1 where "f1 = f\<lparr>f_data := store (f_data f) 0 (super_bytes (image_super s) @ replicate (?B - 28) 0),
      f_off := ?B\<rparr>"
  have sb: "super_block f m = (0, f1)"
    using g B by (simp add: super_block_ok fields f1_def)
  have node: "\<lparr>fn_start = 2, fn_blocks = ucast (m_blocks m)\<rparr> = image_node f s"
    by (simp add: m_def image_node_def ucast_of_nat_u64_u32)
  have "free_list f1 m = (0, f1\<lparr>f_data := store (f_data f1) ?B
      (fl_header_bytes 1 0 @ fl_entry_bytes (image_node f s)), f_off := ?B + 20\<rparr>)"
    using g B node by (subst free_list_ok) (simp_all add: f1_def)
  also have "store (f_data f1) ?B (fl_header_bytes 1 0 @ fl_entry_bytes (image_node f s)) =
      store (f_data f) 0 (image_head f s)"
    using g by (simp add: f1_def image_head_def store_append)
  finally show ?thesis
    using sb mkfs_block_size_ok [OF assms, of mkfs_super]
    by (simp add: mkfs_main_def m_def [symmetric] f1_def)
qed

section \<open>The image as blocks\<close>

definition image_blocks :: "nat \<Rightarrow> byte list \<Rightarrow> u64 \<Rightarrow> buf option" where
  "image_blocks bs img n =
     (if (unat n + 1) * bs \<le> length img then Some (load img (unat n * bs) bs) else None)"

lemma load_load: "p + n \<le> m \<Longrightarrow> load (load b q m) p n = load b (q + p) n"
  by (simp add: load_def drop_take min_def add.commute)

definition mkfs_image :: "fdesc \<Rightarrow> stat \<Rightarrow> byte list" where
  "mkfs_image f s = store (f_data f) 0 (image_head f s)"

lemma mkfs_image_parts:
  assumes "geometry_ok f s"
  shows "length (mkfs_image f s) = f_room f"
    and "load (mkfs_image f s) 0 28 = super_bytes (image_super s)"
    and "load (mkfs_image f s) (unat (st_blksize s)) 12 = fl_header_bytes 1 0"
    and "load (mkfs_image f s) (unat (st_blksize s) + 12) 8 = fl_entry_bytes (image_node f s)"
proof -
  let ?B = "unat (st_blksize s)"
  have g: "length (f_data f) = f_room f" "512 \<le> ?B" "3 * ?B \<le> f_room f"
    using assms by (auto simp: geometry_ok_def)
  then have len: "length (image_head f s) = ?B + 20" by (simp add: length_image_head)
  show "length (mkfs_image f s) = f_room f"
    using g len by (simp add: mkfs_image_def)
  have part: "load (mkfs_image f s) p n = take n (drop p (image_head f s))" if "p + n \<le> ?B + 20" for p n
    using that g len by (simp add: mkfs_image_def load_store_inside)
  show "load (mkfs_image f s) 0 28 = super_bytes (image_super s)"
    using g by (subst part) (simp_all add: image_head_def)
  show "load (mkfs_image f s) ?B 12 = fl_header_bytes 1 0"
    using g by (subst part) (simp_all add: image_head_def)
  show "load (mkfs_image f s) (?B + 12) 8 = fl_entry_bytes (image_node f s)"
    using g by (subst part) (simp_all add: image_head_def)
qed

text \<open>Block 0 at the initial block size holds the super block.\<close>

lemma mkfs_image_super_block:
  assumes "geometry_ok f s" and "bs = 512 \<or> bs = unat (st_blksize s)"
  shows "\<exists>b. image_blocks bs (mkfs_image f s) 0 = Some b \<and> length b = bs \<and>
    load b 0 28 = super_bytes (image_super s)"
proof -
  have g: "512 \<le> unat (st_blksize s)" "3 * unat (st_blksize s) \<le> f_room f"
    using assms by (auto simp: geometry_ok_def)
  have bs: "512 \<le> bs" "bs \<le> f_room f" using g assms(2) by auto
  then show ?thesis
    using mkfs_image_parts [OF assms(1)] by (simp add: image_blocks_def load_load)
qed

text \<open>Block 1 at the file system's block size is a free-list block with one node.\<close>

lemma mkfs_image_chain:
  assumes "geometry_ok f s" and "d_blocks d = image_blocks (unat (st_blksize s)) (mkfs_image f s)"
  shows "fl_chain d [(1, [image_node f s])]"
proof -
  let ?B = "unat (st_blksize s)"
  have g: "512 \<le> ?B" "3 * ?B \<le> f_room f"
    using assms by (auto simp: geometry_ok_def)
  define b where "b = load (mkfs_image f s) ?B ?B"
  have len: "length b = ?B" using g mkfs_image_parts(1) [OF assms(1)] by (simp add: b_def)
  have blk: "d_blocks d 1 = Some b"
    using assms(2) g mkfs_image_parts(1) [OF assms(1)] by (simp add: image_blocks_def b_def)
  have "load b 0 12 = fl_header_bytes 1 0" "load b 12 8 = fl_entry_bytes (image_node f s)"
    using g mkfs_image_parts(3,4) [OF assms(1)] by (simp_all add: b_def load_load)
  then have "is_fl_block b 0 [image_node f s]"
    using len g by (simp add: is_fl_block_def image_node_def low32_def)
  then show ?thesis using blk by simp
qed

section \<open>Reading with fsck\<close>

lemma fsck_read_u32_ok:
  "f_off f + 4 \<le> length (f_data f) \<Longrightarrow> fsck_read_u32 f =
    (0, of_nat (be_num (load (f_data f) (f_off f) 4)), f\<lparr>f_off := f_off f + 4\<rparr>)"
proof -
  assume le: "f_off f + 4 \<le> length (f_data f)"
  then have "length (load (f_data f) (f_off f) 4) = 4" by simp
  then show ?thesis
    using le by (simp add: fsck_read_u32_def file_read_def flip: load_def)
qed

lemma fsck_or_ok [simp]: "fsck_or (0, v, f) e k = k v f"
  by (simp add: fsck_or_def)

text \<open>Every 28 bytes are the super block of some fields.\<close>

definition super_of_bytes :: "byte list \<Rightarrow> super_fields" where
  "super_of_bytes bs =
     (let at = (\<lambda>i. of_nat (be_num (load bs (4 * i) 4))) in
      \<lparr>w_magic = at 0, w_version = at 1, w_block_size = at 2, w_id = at 3, w_root_id = at 4,
       w_btree_offset = at 5, w_free_list_offset = at 6\<rparr>)"

lemma be_bytes_of_nat_be_num:
  "length bs = 4 \<Longrightarrow> be_bytes 4 (unat (of_nat (be_num bs) :: u32)) = bs"
  using be_num_less [of bs] by (simp add: unat_of_nat be_bytes_be_num)

lemma super_bytes_of_bytes:
  assumes "length bs = 28"
  shows "super_bytes (super_of_bytes bs) = bs"
proof -
  have "bs = load bs 0 28" using assms by (simp add: load_def)
  also have "\<dots> = load bs 0 (4 + (4 + (4 + (4 + (4 + (4 + 4))))))" by simp
  also have "\<dots> = super_bytes (super_of_bytes bs)"
    unfolding load_add using assms
    by (simp add: super_bytes_def super_of_bytes_def Let_def be_bytes_of_nat_be_num)
  finally show ?thesis by simp
qed

definition wire_of :: "super_fields \<Rightarrow> spfs_super_block_wire" where
  "wire_of w = \<lparr>m_magic = w_magic w, m_version = w_version w, m_block_size = w_block_size w,
     m_id = w_id w, m_root_id = w_root_id w, m_btree_offset = w_btree_offset w,
     m_free_list_offset = w_free_list_offset w, m_blocks = 0\<rparr>"

lemma read_super_block_bytes:
  assumes "28 \<le> length (f_data f)" and "load (f_data f) 0 28 = super_bytes w"
  shows "read_super_block True f = (Inr (wire_of w), f\<lparr>f_off := 28\<rparr>)"
proof -
  have part: "load (f_data f) p n = take n (drop p (super_bytes w))" if "p + n \<le> 28" for p n
    using that by (simp add: load_def drop_take min_def flip: assms(2))
  show ?thesis
    using assms(1) by (simp add: read_super_block_def fsck_read_u32_ok Let_def part)
      (simp add: super_bytes_def wire_of_def)
qed

lemma fsck_or_read:
  "fsck_or (fsck_read_u32 f) e k =
    (if f_off f + 4 \<le> length (f_data f)
     then k (of_nat (be_num (load (f_data f) (f_off f) 4))) (f\<lparr>f_off := f_off f + 4\<rparr>)
     else (Inl e, f\<lparr>f_off := f_off f + (length (f_data f) - f_off f)\<rparr>))"
proof (cases "f_off f + 4 \<le> length (f_data f)")
  case True
  then show ?thesis by (simp add: fsck_read_u32_ok)
next
  case False
  then have "length (take 4 (drop (f_off f) (f_data f))) = length (f_data f) - f_off f"
    and "length (f_data f) - f_off f < 4" by auto
  then show ?thesis using False by (simp add: fsck_or_def fsck_read_u32_def file_read_def Let_def)
qed

lemma read_super_block_short:
  assumes "length (f_data f) < 28"
  shows "\<exists>f'. read_super_block True f = (Inl 1, f')"
  using assms by (simp add: read_super_block_def Let_def fsck_or_read)

lemma fsck_main_accepts_super:
  assumes "fsck_main fuel True True f = Done 0"
  shows "28 \<le> length (f_data f)"
    and "fsck_super_block (wire_of (super_of_bytes (load (f_data f) 0 28))) = 0"
proof -
  show len: "28 \<le> length (f_data f)"
    using assms read_super_block_short [of f] by (fastforce simp: fsck_main_def not_le)
  have "load (f_data f) 0 28 = super_bytes (super_of_bytes (load (f_data f) 0 28))"
    using len by (simp add: super_bytes_of_bytes)
  note read_super_block_bytes [OF len this]
  then show "fsck_super_block (wire_of (super_of_bytes (load (f_data f) 0 28))) = 0"
    using assms by (simp add: fsck_main_def split: if_splits)
qed

text \<open>The walk over a free-list block: header, then the entries one after the other.\<close>

lemma fsck_entries_ok:
  "f_off f + 8 * n \<le> length (f_data f) \<Longrightarrow> fsck_entries n f = (True, f\<lparr>f_off := f_off f + 8 * n\<rparr>)"
proof (induction n arbitrary: f)
  case 0
  then show ?case by simp
next
  case (Suc n)
  have "\<exists>e. read_free_entry f = (Inr e, f\<lparr>f_off := f_off f + 8\<rparr>)"
    using Suc.prems by (simp add: read_free_entry_def fsck_read_u32_ok)
  then show ?case using Suc by (auto simp: add.assoc)
qed

lemma fsck_header_ok:
  assumes "f_off f + 12 \<le> length (f_data f)" and "load (f_data f) (f_off f) 12 = fl_header_bytes len next"
  shows "read_free_list_header f =
    (Inr \<lparr>h_magic = mkfs_magic, h_entries = len, h_next = ucast next\<rparr>, f\<lparr>f_off := f_off f + 12\<rparr>)"
proof -
  have part: "load (f_data f) (f_off f + p) n = take n (drop p (fl_header_bytes len next))"
    if "p + n \<le> 12" for p n
    using that by (simp add: load_def drop_take min_def add.commute flip: assms(2))
  note p0 = part [of 0 4] and p4 = part [of 4 4] and p8 = part [of 8 4]
  show ?thesis
    using assms(1) p0 p4 p8 by (simp add: read_free_list_header_def fsck_read_u32_ok add.assoc)
      (simp add: fl_header_bytes_def magic_eq(2))
qed

end
