(* ===== verification/Bnode_Search.thy ===== *)
theory Bnode_Search
  imports Bnode
begin

text \<open>
  What \<open>bnode_bin_find_gte\<close> really computes. Because the distance of two entry pointers is
  taken in bytes, each round moves the middle 8 times the distance away instead of half of
  it: the search always stops, it can hit an entry with the wanted id, and it can never
  report that an id is absent from a node that has entries.
\<close>

section \<open>Pointers to entries\<close>

definition eptr :: "nat \<Rightarrow> u64" where
  "eptr i = of_nat (4 + 16 * i)"

lemma unat_eptr: "i < 2 ^ 32 \<Longrightarrow> unat (eptr i) = 4 + 16 * i"
  unfolding eptr_def unat_of_nat by simp

definition probe :: "u64 \<Rightarrow> u64 \<Rightarrow> u64" where
  "probe it lst = it + (spfs_ptr_length it lst div 2) * of_nat sizeof_bentry"

lemma u64_of_nat_div_2: "a < 2 ^ 64 \<Longrightarrow> (of_nat a :: u64) div 2 = of_nat (a div 2)"
  by (rule word_unat_eq_iff [THEN iffD2])
    (simp only: unat_div unat_of_nat, simp)

lemma u64_minus_of_nat:
  assumes "a \<le> 2 ^ 64"
  shows "- of_nat a = (of_nat (2 ^ 64 - a) :: u64)"
proof -
  have "of_nat (2 ^ 64 - a) + of_nat a = (of_nat (2 ^ 64) :: u64)"
    using assms by (simp flip: of_nat_add)
  also have "\<dots> = 0" by simp
  finally show ?thesis by (metis minus_unique add.commute)
qed

lemma probe_up:
  assumes "i < l" and "l < 2 ^ 32"
  shows "probe (eptr i) (eptr l) = eptr (i + 8 * (l - i))"
proof -
  obtain k where l: "l = i + k" using assms(1) less_imp_add_positive by blast
  have "eptr l - eptr i = of_nat (16 * k)" by (simp add: eptr_def l algebra_simps)
  then have "spfs_ptr_length (eptr i) (eptr l) div 2 = of_nat (8 * k)"
    using assms l by (simp only: spfs_ptr_length_def) (subst u64_of_nat_div_2, simp_all)
  then show ?thesis
    by (simp add: probe_def sizeof_bentry_def eptr_def l algebra_simps)
qed

lemma probe_down:
  assumes "l < i" and "i < 2 ^ 32"
  shows "probe (eptr i) (eptr l) = of_nat (4 + 16 * i + 2 ^ 67 - 128 * (i - l))"
proof -
  obtain k where i: "i = l + k" and k: "0 < k" using assms(1) less_imp_add_positive by blast
  have k32: "k < 2 ^ 32" using assms i by simp
  have "eptr l - eptr i = - of_nat (16 * k)" by (simp add: eptr_def i algebra_simps)
  also have "\<dots> = of_nat (2 ^ 64 - 16 * k)" using k32 by (intro u64_minus_of_nat) simp
  finally have "spfs_ptr_length (eptr i) (eptr l) div 2 = of_nat ((2 ^ 64 - 16 * k) div 2)"
    using k by (simp only: spfs_ptr_length_def) (subst u64_of_nat_div_2, simp_all)
  also have "(2 ^ 64 - 16 * k) div 2 = 2 ^ 63 - 8 * k" 
    using div_mult_self1_is_m [of 2 "2 ^ 63 - 8 * k"] by simp
  finally have "spfs_ptr_length (eptr i) (eptr l) div 2 = of_nat (2 ^ 63 - 8 * k)" .
  then have "probe (eptr i) (eptr l) = of_nat (4 + 16 * i) + of_nat (2 ^ 63 - 8 * k) * of_nat 16"
    by (simp add: probe_def sizeof_bentry_def eptr_def)
  also have "\<dots> = of_nat (4 + 16 * i + (2 ^ 63 - 8 * k) * 16)"
    by (simp only: of_nat_add of_nat_mult)
  also have "4 + 16 * i + (2 ^ 63 - 8 * k) * 16 = 4 + 16 * i + 2 ^ 67 - 128 * (i - l)"
    using k32 i by simp
  finally show ?thesis .
qed

lemma probe_down_in:
  assumes "l < i" and "i < 2 ^ 32" and "8 * (i - l) \<le> i"
  shows "probe (eptr i) (eptr l) = eptr (i - 8 * (i - l))"
proof -
  have "4 + 16 * i + 2 ^ 67 - 128 * (i - l) = 4 + 16 * (i - 8 * (i - l)) + 8 * 2 ^ 64"
    using assms by simp
  then have "probe (eptr i) (eptr l) = of_nat (4 + 16 * (i - 8 * (i - l)) + 8 * 2 ^ 64)"
    using assms by (simp only: probe_down)
  also have "\<dots> = eptr (i - 8 * (i - l)) + of_nat 8 * of_nat (2 ^ 64)"
    unfolding eptr_def by (simp only: of_nat_add of_nat_mult)
  also have "\<dots> = eptr (i - 8 * (i - l))" by simp
  finally show ?thesis .
qed

lemma probe_down_out:
  assumes "l < i" and "i < 2 ^ 32" and "i < 8 * (i - l)"
  shows "2 ^ 63 \<le> unat (probe (eptr i) (eptr l))"
proof -
  define r where "r = 2 ^ 64 + 4 + 16 * i - 128 * (i - l)"
  have r: "2 ^ 63 \<le> r" "r < 2 ^ 64" using assms by (simp_all add: r_def)
  have "4 + 16 * i + 2 ^ 67 - 128 * (i - l) = r + 7 * 2 ^ 64"
    using assms by (simp add: r_def)
  then have "unat (probe (eptr i) (eptr l)) = (r + 7 * 2 ^ 64) mod 2 ^ 64"
    using assms by (simp only: probe_down unat_of_nat) simp
  also have "\<dots> = r" using r(2) by (simp only: mod_mult_self1 mod_less)
  finally show ?thesis using r(1) by simp
qed

section \<open>The loop\<close>

lemma bentry_id_cases:
  "bentry_id b p = (if unat p + 8 \<le> length b then Done (of_mem (load b (unat p) 8)) else Crash BadAccess)"
  by (simp add: bentry_id_def mem_read_def)

lemma find_gte_loop_Suc:
  "find_gte_loop (Suc fuel) b end needle it lst =
     bnd (bentry_id b (probe it lst)) (\<lambda>mid_id.
        if spfs_bentry_cmp mid_id needle then
          if spfs_ptr_length it lst = 0 then Done (Some (probe it lst))
          else find_gte_loop fuel b end needle it (probe it lst)
        else if bentry_is_eq mid_id needle then Done (Some (probe it lst))
        else if spfs_ptr_length it lst = 1 then
          let next = it + spfs_ptr_length it lst * of_nat sizeof_bentry in
          if next \<noteq> end then Done (Some next) else Done None
        else find_gte_loop fuel b end needle (probe it lst) lst)"
  by (simp only: find_gte_loop.simps Let_def probe_def)

lemma eptr_distance:
  assumes "i < 2 ^ 32" and "l < 2 ^ 32" and "i \<noteq> l"
  shows "spfs_ptr_length (eptr i) (eptr l) \<noteq> 0" and "spfs_ptr_length (eptr i) (eptr l) \<noteq> 1"
proof -
  have "eptr l \<noteq> eptr i" using assms by (metis unat_eptr add_left_cancel mult_cancel1 zero_neq_numeral)
  then show "spfs_ptr_length (eptr i) (eptr l) \<noteq> 0" by (simp add: spfs_ptr_length_def)
  have "eptr l \<noteq> eptr i + 1"
  proof
    assume "eptr l = eptr i + 1"
    moreover have "unat (eptr i + 1) = 4 + 16 * i + 1"
      using assms(1) by (subst unat_add_small) (simp_all add: unat_eptr)
    ultimately have "4 + 16 * l = 4 + 16 * i + 1" using assms(2) by (metis unat_eptr)
    then show False by presburger
  qed
  then show "spfs_ptr_length (eptr i) (eptr l) \<noteq> 1"
    by (simp add: spfs_ptr_length_def algebra_simps)
qed

text \<open>Either a probe hits the needle or it leaves the buffer; 7 is what the distance grows by.\<close>

definition hits :: "buf \<Rightarrow> u64 \<Rightarrow> u64 option outcome \<Rightarrow> bool" where
  "hits b needle r \<longleftrightarrow> r = Crash BadAccess \<or>
     (\<exists>p p_id. r = Done (Some p) \<and> bentry_id b p = Done p_id \<and> bentry_is_eq p_id needle)"

lemma probe_cases:
  assumes "i < 2 ^ 32" and "l < 2 ^ 32" and "i \<noteq> l" and "length b < 2 ^ 32"
    and "unat (probe (eptr i) (eptr l)) + 8 \<le> length b"
  obtains m where "probe (eptr i) (eptr l) = eptr m" and "m < 2 ^ 32"
    and "\<bar>int m - int i\<bar> = 8 * \<bar>int l - int i\<bar>" and "\<bar>int l - int m\<bar> = 7 * \<bar>int l - int i\<bar>"
proof (cases "i < l")
  case True
  let ?m = "i + 8 * (l - i)"
  have p: "probe (eptr i) (eptr l) = eptr ?m" using True assms(2) by (rule probe_up)
  have "?m < 2 ^ 36" using assms(1,2) by simp
  then have "unat (eptr ?m) = 4 + 16 * ?m" unfolding eptr_def unat_of_nat by simp
  then have "?m < 2 ^ 32" using assms(4,5) by (simp add: p)
  with p True show ?thesis by (intro that [of ?m]) auto
next
  case False
  then have less: "l < i" using assms(3) by simp
  show ?thesis
  proof (cases "8 * (i - l) \<le> i")
    case True
    have "probe (eptr i) (eptr l) = eptr (i - 8 * (i - l))"
      using less assms(1) True by (rule probe_down_in)
    then show ?thesis using True less assms(1) by (intro that [of "i - 8 * (i - l)"]) auto
  next
    case False
    then have "2 ^ 63 \<le> unat (probe (eptr i) (eptr l))"
      using less assms(1) by (intro probe_down_out) auto
    then show ?thesis using assms(4,5) by simp
  qed
qed

lemma find_gte_loop_hits:
  assumes "length b < 2 ^ 32" and "i < 2 ^ 32" and "l < 2 ^ 32" and "i \<noteq> l"
    and "2 ^ 40 \<le> 7 ^ fuel * \<bar>int l - int i\<bar>"
  shows "hits b needle (find_gte_loop fuel b end needle (eptr i) (eptr l))"
  using assms(2-5)
proof (induction fuel arbitrary: i l)
  case 0
  then show ?case by simp
next
  case (Suc fuel)
  show ?case
  proof (cases "unat (probe (eptr i) (eptr l)) + 8 \<le> length b")
    case False
    then show ?thesis unfolding find_gte_loop_Suc by (simp add: bentry_id_cases hits_def)
  next
    case True
    obtain m where m: "probe (eptr i) (eptr l) = eptr m" "m < 2 ^ 32"
      and d: "\<bar>int m - int i\<bar> = 8 * \<bar>int l - int i\<bar>" "\<bar>int l - int m\<bar> = 7 * \<bar>int l - int i\<bar>"
      using probe_cases [OF Suc.prems(1,2,3) assms(1) True] .
    have "i \<noteq> m" "m \<noteq> l" using d Suc.prems(3) by auto
    moreover have "2 ^ 40 \<le> 7 ^ fuel * \<bar>int l - int m\<bar>"
      using Suc.prems(4) by (simp add: d mult.assoc mult.left_commute)
    moreover have "7 ^ fuel * \<bar>int l - int m\<bar> \<le> 7 ^ fuel * \<bar>int m - int i\<bar>"
      unfolding d by (intro mult_left_mono) simp_all
    then have "2 ^ 40 \<le> 7 ^ fuel * \<bar>int m - int i\<bar>"
      using \<open>2 ^ 40 \<le> 7 ^ fuel * \<bar>int l - int m\<bar>\<close> by (rule order_trans [rotated])
    ultimately have "hits b needle (find_gte_loop fuel b end needle (eptr i) (eptr m))"
      and "hits b needle (find_gte_loop fuel b end needle (eptr m) (eptr l))"
      using Suc.IH Suc.prems(1,2) m(2) by blast+
    then show ?thesis
      using True eptr_distance [OF Suc.prems(1,2,3)]
      unfolding find_gte_loop_Suc m(1) by (simp add: bentry_id_cases) (auto simp: hits_def bentry_id_cases)
  qed
qed

lemma bnode_length_Done:
  "bnode_length b = Done n \<Longrightarrow> 4 \<le> length b \<and> unat n \<le> 100 \<and> n = be32_to_cpu (of_mem (load b 0 4))"
  by (auto simp: bnode_length_def mem_read_def bnd_Done_iff Let_def bug_on_Done_iff
      bnode_capacity_def split: if_splits)

lemma eptr_0: "of_nat bnode_entries = eptr 0"
  by (simp add: eptr_def bnode_entries_def)

lemma eptr_end:
  "unat n \<le> 100 \<Longrightarrow> eptr 0 + ucast (n :: u32) * of_nat sizeof_bentry = eptr (unat n)"
proof -
  assume "unat n \<le> 100"
  have "(ucast n :: u64) = of_nat (unat n)" by (rule word_unat_eq_iff [THEN iffD2])
    (simp add: unat_of_nat)
  then show ?thesis by (simp add: eptr_def sizeof_bentry_def algebra_simps)
qed

lemma bnode_bin_find_gte_nonempty:
  assumes "length b < 2 ^ 32" and "bnode_length b = Done n" and "n \<noteq> 0"
  shows "hits b needle (bnode_bin_find_gte b needle)"
proof -
  have n: "unat n \<le> 100" "0 < unat n"
    using bnode_length_Done [OF assms(2)] assms(3) by (auto simp: unat_gt_0)
  have one: "1 \<le> \<bar>int (unat n) - int 0\<bar>" using n(2) by linarith
  have "(2 ^ 40 :: int) \<le> 7 ^ 16 * 1" by simp
  also have "\<dots> \<le> 7 ^ 16 * \<bar>int (unat n) - int 0\<bar>"
    using one by (intro mult_left_mono) simp_all
  finally have "hits b needle (find_gte_loop 16 b (eptr (unat n)) needle (eptr 0) (eptr (unat n)))"
    using n assms(1) by (intro find_gte_loop_hits) simp_all
  then show ?thesis
    using assms n by (simp add: bnode_bin_find_gte_def bnode_capacity_def find_gte_fuel_def
        Let_def eptr_0 eptr_end del: find_gte_loop.simps)
qed

lemma bnode_bin_find_gte_empty:
  "bnode_length b = Done 0 \<Longrightarrow> bnode_bin_find_gte b needle = Done None"
  by (simp add: bnode_bin_find_gte_def)

section \<open>Where the search can end\<close>

text \<open>A search that has gone down once leaves the buffer in its next round.\<close>

lemma find_gte_loop_turned:
  assumes "l < i" and "i < 2 ^ 32" and "i < 8 * (i - l)" and "length b < 2 ^ 32"
  shows "find_gte_loop (Suc fuel) b end needle (eptr i) (eptr l) = Crash BadAccess"
proof -
  have "2 ^ 63 \<le> unat (probe (eptr i) (eptr l))" using assms(1-3) by (rule probe_down_out)
  then have "\<not> unat (probe (eptr i) (eptr l)) + 8 \<le> length b" using assms(4) by simp
  then show ?thesis unfolding find_gte_loop_Suc by (simp add: bentry_id_cases)
qed

lemma find_gte_loop_beyond:
  assumes "length b < 2 ^ 32"
    and "find_gte_loop fuel b end needle (eptr 0) (eptr l) = Done (Some p)"
    and "0 < l" and "l < 2 ^ 32" and "n \<le> l"
  shows "\<exists>m. p = eptr m \<and> 8 * n \<le> m \<and> m < 2 ^ 32"
  using assms(2-5)
proof (induction fuel arbitrary: l)
  case 0
  then show ?case by simp
next
  case (Suc fuel)
  have p: "probe (eptr 0) (eptr l) = eptr (8 * l)" using probe_up [of 0 l] Suc.prems by simp
  have inside: "unat (eptr (8 * l)) + 8 \<le> length b"
    using Suc.prems(1) unfolding find_gte_loop_Suc p by (simp add: bentry_id_cases split: if_splits)
  have "unat (eptr (8 * l)) = 4 + 128 * l"
    using Suc.prems(3) unfolding eptr_def unat_of_nat by simp
  then have small: "8 * l < 2 ^ 32" using inside assms(1) by simp
  have turned: "find_gte_loop fuel b end needle (eptr (8 * l)) (eptr l) \<noteq> Done (Some p)"
    using find_gte_loop_turned [of l "8 * l" b] small Suc.prems(2) assms(1) by (cases fuel) simp_all
  show ?case
  proof (cases "p = eptr (8 * l)")
    case True
    then show ?thesis using small Suc.prems(4) by (intro exI [of _ "8 * l"]) simp
  next
    case False
    have "find_gte_loop fuel b end needle (eptr 0) (eptr (8 * l)) = Done (Some p)"
      using Suc.prems(1) False turned eptr_distance [of 0 l] Suc.prems(2,3) inside
      unfolding find_gte_loop_Suc p by (simp add: bentry_id_cases split: if_splits)
    then show ?thesis using small Suc.prems(2,4) by (intro Suc.IH [of "8 * l"]) simp_all
  qed
qed

lemma bnode_bin_find_gte_beyond:
  assumes "length b < 2 ^ 32" and "bnode_length b = Done n"
    and "bnode_bin_find_gte b needle = Done (Some p)"
  shows "\<exists>m. p = eptr m \<and> 8 * unat n \<le> m \<and> m < 2 ^ 32 \<and> 0 < unat n"
proof -
  have nz: "n \<noteq> 0" using assms(2,3) bnode_bin_find_gte_empty by auto
  have n: "unat n \<le> 100" "0 < unat n"
    using bnode_length_Done [OF assms(2)] nz by (auto simp: unat_gt_0)
  have "find_gte_loop find_gte_fuel b (eptr (unat n)) needle (eptr 0) (eptr (unat n)) = Done (Some p)"
    using assms(2,3) n nz by (simp add: bnode_bin_find_gte_def bnode_capacity_def Let_def eptr_0 eptr_end
        del: find_gte_loop.simps)
  from find_gte_loop_beyond [OF assms(1) this] n show ?thesis by auto
qed

lemma bnode_get_entry_eptr: "bnode_get_entry m = eptr m"
  by (simp add: bnode_get_entry_def eptr_def bnode_entries_def sizeof_bentry_def mult.commute)

lemma bnode_bin_find_gte_slot:
  assumes "length b < 2 ^ 32" and "bnode_length b = Done n"
    and "bnode_bin_find_gte b needle = Done (Some p)"
  shows "\<exists>m. p = bnode_get_entry m \<and> 8 * unat n \<le> m \<and> bnode_entries + 16 * m + 8 \<le> length b"
proof -
  obtain m where m: "p = eptr m" "8 * unat n \<le> m" "m < 2 ^ 32" "0 < unat n"
    using bnode_bin_find_gte_beyond [OF assms] by blast
  then have "n \<noteq> 0" by auto
  then obtain p_id where "bentry_id b p = Done p_id"
    using bnode_bin_find_gte_nonempty [OF assms(1,2), of needle] assms(3) by (auto simp: hits_def)
  then have "unat (eptr m) + 8 \<le> length b" by (auto simp: bentry_id_cases m(1) split: if_splits)
  then have "bnode_entries + 16 * m + 8 \<le> length b"
    using m(3) by (simp add: unat_eptr bnode_entries_def)
  then show ?thesis using m by (metis bnode_get_entry_eptr)
qed

lemma bnode_bin_find_gte_stray:
  assumes "length b < 2 ^ 32" and "bnode_length b = Done n"
    and "bnode_bin_find_gte b needle = Done (Some p)"
  shows "\<forall>i < unat n. p \<noteq> bnode_get_entry i"
proof (intro allI impI notI)
  fix i assume i: "i < unat n" "p = bnode_get_entry i"
  obtain m where m: "p = eptr m" "8 * unat n \<le> m" "m < 2 ^ 32"
    using bnode_bin_find_gte_beyond [OF assms] by blast
  have "unat n \<le> 100" using bnode_length_Done [OF assms(2)] by blast
  then have "unat (eptr i) = 4 + 16 * i" using i(1) by (simp add: unat_eptr)
  moreover have "eptr m = eptr i"
    unfolding m(1) [symmetric] i(2)
    by (simp add: bnode_get_entry_def eptr_def bnode_entries_def sizeof_bentry_def mult.commute)
  ultimately have "4 + 16 * m = 4 + 16 * i" using unat_eptr [OF m(3)] by metis
  then have "m = i" by simp
  then show False using m(2) i(1) by linarith
qed

section \<open>Properties\<close>

text \<open>
  C29: The search in a node stops, whatever the node holds: it never exceeds its 16 rounds.
\<close>

theorem bnode_search_stops:
  assumes "length b < 2 ^ 32"
  shows "bnode_bin_find_gte b needle \<noteq> Crash NoFuel"
proof (cases "bnode_length b")
  case (Done n)
  then show ?thesis
    using bnode_bin_find_gte_nonempty [OF assms Done, of needle] bnode_bin_find_gte_empty [of b needle]
    by (cases "n = 0") (auto simp: hits_def)
next
  case (Crash c)
  then show ?thesis
    by (auto simp: bnode_bin_find_gte_def bnode_length_def mem_read_def Let_def bug_on_def split: if_splits)
qed

text \<open>A node of length 1 with numbers where the search looks: 7 in slot 8, 3 in slot 64.\<close>

definition sample_search_node :: buf where
  "sample_search_node = store (store (store (replicate 2000 0) 0 (be_bytes 4 1))
     132 (bentry_bytes \<lparr>be_id = be32_raw 7, be_offset = be32_raw 5\<rparr>))
     1028 (bentry_bytes \<lparr>be_id = be32_raw 3, be_offset = be32_raw 6\<rparr>)"

lemma sample_search_node: "length sample_search_node = 2000" "bnode_length sample_search_node = Done 1"
proof -
  show len: "length sample_search_node = 2000" by (simp add: sample_search_node_def bentry_bytes_def)
  have "load sample_search_node 0 4 = be_bytes 4 1"
    by (simp add: sample_search_node_def bentry_bytes_def load_store_before)
  then show "bnode_length sample_search_node = Done 1"
    using len by (simp add: bnode_length_def mem_read_def bnode_capacity_def Let_def be_num_be_bytes)
qed

theorem bnode_search_stops_witness: "bnode_bin_find_gte sample_search_node 7 \<noteq> Crash NoFuel"
  by (rule bnode_search_stops) (simp add: sample_search_node)

text \<open>
  In a node with entries the search either reads outside the buffer or returns an entry
  with exactly the wanted number; it never reports that a number is absent.
\<close>

theorem bnode_search_nonempty:
  assumes "length b < 2 ^ 32" and "bnode_length b = Done n" and "n \<noteq> 0"
  shows "bnode_bin_find_gte b needle = Crash BadAccess \<or>
    (\<exists>p p_id. bnode_bin_find_gte b needle = Done (Some p) \<and> bentry_id b p = Done p_id \<and>
      bentry_is_eq p_id needle)"
  using bnode_bin_find_gte_nonempty [OF assms, of needle] by (simp add: hits_def)

theorem bnode_search_nonempty_witness:
  "bnode_bin_find_gte sample_search_node 9 \<noteq> Done None"
  using bnode_search_nonempty [of sample_search_node 1 9] by (auto simp: sample_search_node)

text \<open>
  C30: An entry the search returns is never one of the node's entries: the pointer is that of the
  slot with some index that is at least 8 times the number of entries, and it differs from the
  pointers to all of them, so the search cannot find what was inserted.
\<close>

theorem bnode_search_misses_entries:
  assumes "length b < 2 ^ 32" and "bnode_length b = Done n"
    and "bnode_bin_find_gte b needle = Done (Some p)"
  shows "(\<exists>m. p = bnode_get_entry m \<and> 8 * unat n \<le> m \<and> bnode_entries + 16 * m + 8 \<le> length b) \<and>
    (\<forall>i < unat n. p \<noteq> bnode_get_entry i)"
  using bnode_bin_find_gte_slot [OF assms] bnode_bin_find_gte_stray [OF assms] by blast

lemma sample_search: "bnode_bin_find_gte sample_search_node 7 = Done (Some (eptr 8))"
proof -
  have u: "unat (eptr 8) = 132" by (simp add: unat_eptr)
  have id: "bentry_id sample_search_node (eptr 8) = Done (be32_raw 7)"
    using u64_bound [of "be32_raw 7"]
    by (simp add: bentry_id_cases u sample_search_node(1))
      (simp add: sample_search_node_def bentry_bytes_def load_store_before load_store_inside
        of_mem_def to_mem_def le_num_le_bytes)
  have eq: "raw_be32 (be32_raw 7) = 7"
    by (simp add: raw_be32_def be32_raw_def)
  have "find_gte_loop (Suc f) sample_search_node (eptr 1) 7 (eptr 0) (eptr 1) = Done (Some (eptr 8))" for f
    unfolding find_gte_loop_Suc using probe_up [of 0 1]
    by (simp add: id spfs_bentry_cmp_def bentry_is_eq_def eq)
  from this [of 15] show ?thesis
    using eptr_end [of 1] sample_search_node(2)
    by (simp add: bnode_bin_find_gte_def bnode_capacity_def find_gte_fuel_def Let_def eptr_0
        del: find_gte_loop.simps)
qed

theorem bnode_search_misses_entries_witness:
  "bnode_bin_find_gte sample_search_node 7 = Done (Some (eptr 8)) \<and>
   (\<exists>m\<ge>8. eptr 8 = bnode_get_entry m) \<and> eptr 8 \<noteq> bnode_get_entry 0"
  using bnode_search_misses_entries [OF _ sample_search_node(2) sample_search] sample_search
  by (auto simp: sample_search_node(1))

end
