(* ===== verification/Bnode_Laws.thy ===== *)
theory Bnode_Laws
  imports Bnode_Search
begin

text \<open>
  Laws of the node operations: the two arrays of a node (entries, children) behave as arrays,
  the length is independent of both, and \<open>bnode_bin_insert\<close> is characterised: it completes
  exactly for empty nodes, where it leaves a node of one entry.
\<close>

section \<open>Values that go through memory\<close>

lemma of_mem_to_mem [simp]:
  "of_mem (to_mem 4 (w :: u32)) = w"
  "of_mem (to_mem 8 (x :: u64)) = x"
  using unsigned_less [of w, where 'a = nat] unsigned_less [of x, where 'a = nat]
  by (simp_all add: of_mem_def to_mem_def le_num_le_bytes)

lemma raw_be32_be32_raw [simp]: "raw_be32 (be32_raw v) = low32 v"
  by (simp add: raw_be32_def be32_raw_def low32_def)

lemma raw_be32_0 [simp]: "raw_be32 0 = 0"
  by (simp add: raw_be32_def be32_to_cpu_def)

lemma be32_raw_0 [simp]: "be32_raw 0 = 0"
  by (simp add: be32_raw_def cpu_to_be32_def)

lemma mem_write_Done:
  "mem_write b off xs = Done b' \<longleftrightarrow> off + length xs \<le> length b \<and> b' = store b off xs"
  by (auto simp: mem_write_def)

lemma mem_read_Done:
  "mem_read b off n = Done xs \<longleftrightarrow> off + n \<le> length b \<and> xs = load b off n"
  by (auto simp: mem_read_def)

lemma length_bentry_bytes [simp]: "length (bentry_bytes e) = 16"
  by (simp add: bentry_bytes_def)

lemmas layout_defs = bnode_children_def bnode_entries_def bnode_capacity_def sizeof_bentry_def

section \<open>The arrays of a node\<close>

text \<open>
  \<open>get\<close> and \<open>put\<close> of an array in the buffer: \<open>valid b i\<close> says that \<open>get\<close> may be asked
  for index \<open>i\<close>; \<open>put\<close> writes \<open>width\<close> bytes at \<open>base + i * width\<close> and nothing else.
\<close>

locale node_array =
  fixes get :: "buf \<Rightarrow> nat \<Rightarrow> 'a outcome"
    and put :: "buf \<Rightarrow> nat \<Rightarrow> 'a \<Rightarrow> buf outcome"
    and valid :: "buf \<Rightarrow> nat \<Rightarrow> bool"
    and base :: nat
    and width :: nat
    and norm :: "'a \<Rightarrow> 'a"
  assumes put_Done: "put b i v = Done b' \<Longrightarrow>
      \<exists>xs. length xs = width \<and> base + i * width + width \<le> length b \<and> b' = store b (base + i * width) xs"
    and valid_put: "put b i v = Done b' \<Longrightarrow> valid b' j = valid b j"
    and get_put: "put b i v = Done b' \<Longrightarrow> valid b i \<Longrightarrow> get b' i = Done (norm v)"
    and get_local: "valid b i \<Longrightarrow> valid b' i \<Longrightarrow> length b' = length b \<Longrightarrow>
      load b' (base + i * width) width = load b (base + i * width) width \<Longrightarrow> get b' i = get b i"
begin

lemma put_length: "put b i v = Done b' \<Longrightarrow> length b' = length b"
  by (auto dest!: put_Done)

lemma put_frame:
  assumes "put b i v = Done b'" and "p + n \<le> base + i * width \<or> base + i * width + width \<le> p"
  shows "load b' p n = load b p n"
  using assms by (auto dest!: put_Done simp: load_store_before load_store_after)

lemma get_put_other:
  assumes "put b i v = Done b'" and "valid b j" and "i \<noteq> j"
  shows "get b' j = get b j"
proof (rule get_local)
  show "valid b j" and "valid b' j" using assms by (simp_all add: valid_put)
  show "length b' = length b" using assms(1) by (rule put_length)
  have "j * width + width \<le> i * width \<or> i * width + width \<le> j * width"
  proof (cases "j < i")
    case True
    then have "Suc j * width \<le> i * width" by (intro mult_le_mono1) simp
    then show ?thesis by simp
  next
    case False
    then have "Suc i * width \<le> j * width" using assms(3) by (intro mult_le_mono1) simp
    then show ?thesis by simp
  qed
  then show "load b' (base + j * width) width = load b (base + j * width) width"
    by (intro put_frame [OF assms(1)]) auto
qed

end

definition entry_at :: "buf \<Rightarrow> nat \<Rightarrow> spfs_bentry outcome" where
  "entry_at b i = bentry_deref b (bnode_get_entry i)"

definition child_valid :: "buf \<Rightarrow> nat \<Rightarrow> bool" where
  "child_valid b i \<longleftrightarrow> (\<exists>n. bnode_length b = Done n \<and> i \<le> unat n)"

lemma entry_at_eq:
  "i < 2 ^ 32 \<Longrightarrow> entry_at b i = (if 4 + 16 * i + 16 \<le> length b
      then Done \<lparr>be_id = of_mem (take 8 (load b (4 + 16 * i) 16)),
        be_offset = of_mem (drop 8 (load b (4 + 16 * i) 16))\<rparr>
      else Crash BadAccess)"
  by (simp add: entry_at_def bentry_deref_def bnode_get_entry_eptr unat_eptr mem_read_def
      sizeof_bentry_def)

lemma bnode_length_cong:
  "length b' = length b \<Longrightarrow> load b' 0 4 = load b 0 4 \<Longrightarrow> bnode_length b' = bnode_length b"
  by (simp add: bnode_length_def mem_read_def)

interpretation entries: node_array entry_at bnode_set_entry "\<lambda>b i. i < 2 ^ 32" 4 16 "\<lambda>e. e"
proof
  fix b i v b'
  assume put: "bnode_set_entry b i v = Done b'"
  then show "\<exists>xs. length xs = 16 \<and> 4 + i * 16 + 16 \<le> length b \<and> b' = store b (4 + i * 16) xs"
    by (auto simp: bnode_set_entry_def mem_write_Done layout_defs intro: exI [of _ "bentry_bytes v"])
  show "(j < 2 ^ 32) = (j < 2 ^ 32)" for j :: nat by simp
  assume "i < 2 ^ 32"
  then show "entry_at b' i = Done v"
    using put by (auto simp: entry_at_eq bnode_set_entry_def mem_write_Done layout_defs
        mult.commute bentry_bytes_def)
next
  fix b b' i
  assume "i < 2 ^ 32" and "length b' = length b"
    and "load b' (4 + i * 16) 16 = load b (4 + i * 16) 16"
  then show "entry_at b' i = entry_at b i"
    by (simp add: entry_at_eq mult.commute)
qed

interpretation children: node_array bnode_get_child bnode_set_child child_valid 1604 8 low32
proof
  fix b i v b'
  assume put: "bnode_set_child b i v = Done b'"
  then show "\<exists>xs. length xs = 8 \<and> 1604 + i * 8 + 8 \<le> length b \<and> b' = store b (1604 + i * 8) xs"
    by (auto simp: bnode_set_child_def mem_write_Done layout_defs intro: exI [of _ "to_mem 8 (be32_raw v)"])
  have len: "bnode_length b' = bnode_length b"
    using put by (intro bnode_length_cong)
      (auto simp: bnode_set_child_def mem_write_Done layout_defs load_store_before)
  then show "child_valid b' j = child_valid b j" for j by (simp add: child_valid_def)
  assume "child_valid b i"
  then show "bnode_get_child b' i = Done (low32 v)"
    using put len by (auto simp: child_valid_def bnode_get_child_def bnode_set_child_def
        mem_write_Done mem_read_def layout_defs bug_on_def)
next
  fix b b' i
  assume "child_valid b i" "child_valid b' i" "length b' = length b"
    and "load b' (1604 + i * 8) 8 = load b (1604 + i * 8) 8"
  then show "bnode_get_child b' i = bnode_get_child b i"
    by (auto simp: child_valid_def bnode_get_child_def mem_read_def layout_defs bug_on_def)
qed

section \<open>The length of a node\<close>

lemma bnode_set_length_Done:
  "bnode_set_length b n = Done (m, b') \<longleftrightarrow>
    unat n \<le> 100 \<and> 4 \<le> length b \<and> m = n \<and> b' = store b 0 (be_bytes 4 (unat n))"
  by (auto simp: bnode_set_length_def bug_on_Done_iff bnd_Done_iff mem_write_Done bnode_capacity_def)

lemma bnode_length_set_length:
  "bnode_set_length b n = Done (m, b') \<Longrightarrow> bnode_length b' = Done n"
  by (auto simp: bnode_set_length_Done bnode_length_def mem_read_def bnode_capacity_def bug_on_def Let_def)

lemma bnode_make_length:
  "4 \<le> length b \<Longrightarrow> bnode_length (bnode_make b) = Done 0"
proof -
  assume "4 \<le> length b"
  then have "load (replicate (length b) 0) 0 4 = (replicate 4 0 :: byte list)"
    by (simp add: load_def min_def)
  then show ?thesis
    using \<open>4 \<le> length b\<close>
    by (simp add: bnode_length_def bnode_make_def mem_read_def Let_def be_num_def of_mem_def
        be32_to_cpu_def)
qed

lemma bnode_parts_commute:
  "bnode_set_child b i c = Done b' \<Longrightarrow> bnode_length b' = bnode_length b"
  "bnode_set_entry b i e = Done b' \<Longrightarrow> bnode_length b' = bnode_length b"
  by (auto intro!: bnode_length_cong dest: children.put_length entries.put_length
      children.put_frame [where p = 0 and n = 4] entries.put_frame [where p = 0 and n = 4])

section \<open>Insertion into a node\<close>

text \<open>The node \<open>bnode_bin_insert\<close> leaves when it starts from an empty one.\<close>

definition one_entry_node :: "buf \<Rightarrow> spfs_bentry \<Rightarrow> u64 \<Rightarrow> buf" where
  "one_entry_node b e gt =
     store (store (store (store b 1604 (to_mem 8 (0 :: u64))) 4 (bentry_bytes e)) 0 (be_bytes 4 1))
       1612 (to_mem 8 (be32_raw gt))"

lemma bnode_index_of_first: "bnode_index_of (eptr 0) = 0"
  by (simp add: bnode_index_of_def Let_def eptr_0)

lemma bnode_length_store_later:
  "4 \<le> off \<Longrightarrow> off + length xs \<le> length b \<Longrightarrow> bnode_length (store b off xs) = bnode_length b"
  by (rule bnode_length_cong) (simp_all add: load_store_before)

lemma bnode_bin_insert_empty:
  assumes empty: "bnode_length b = Done 0" and size: "1620 \<le> length b"
  shows "bnode_bin_insert b e gt = Done (Some (eptr 0), one_entry_node b e gt)"
proof -
  define b1 where "b1 = store b 1604 (to_mem 8 (0 :: u64))"
  define b2 where "b2 = store b1 4 (bentry_bytes e)"
  define b3 where "b3 = store b2 0 (be_bytes 4 1)"
  have len: "length b1 = length b" "length b2 = length b" "length b3 = length b"
    using size by (simp_all add: b1_def b2_def b3_def)
  have b1: "bnode_set_child b 0 0 = Done b1"
    using size by (simp add: bnode_set_child_def mem_write_def layout_defs b1_def)
  have l1: "bnode_length b1 = Done 0" using bnode_parts_commute(1) [OF b1] empty by simp
  have b2: "bnode_set_entry b1 0 e = Done b2"
    using size by (simp add: bnode_set_entry_def mem_write_def layout_defs b2_def len)
  have b3: "bnode_set_length b2 1 = Done (1, b3)"
    using size by (simp add: bnode_set_length_Done b3_def len)
  have b4: "bnode_set_child b3 1 gt = Done (one_entry_node b e gt)"
    using size by (simp add: bnode_set_child_def mem_write_def layout_defs len
        one_entry_node_def b1_def b2_def b3_def)
  have l4: "bnode_length (one_entry_node b e gt) = Done 1"
    using bnode_parts_commute(1) [OF b4] bnode_length_set_length [OF b3] by simp
  have nil: "mem_read b1 4 0 = Done []" "mem_write b1 20 [] = Done b1"
    using size by (simp_all add: mem_read_def mem_write_def load_def len)
  have u: "unat (eptr 0) = 4" by (simp add: unat_eptr)
  show ?thesis
    using empty b1 l1 b2 b3 b4 l4 nil
    by (simp add: bnode_bin_insert_def bnode_is_full_def bnode_child_length_def
        bnode_bin_find_gte_empty eptr_0 bnode_index_of_first u bnode_capacity_def sizeof_bentry_def)
qed

lemma bnode_bin_insert_nonempty:
  assumes "bnode_length b = Done n" and "n \<noteq> 0" and "unat n \<noteq> 100" and "length b < 2 ^ 32"
  shows "\<exists>c. bnode_bin_insert b e gt = Crash c"
proof -
  have "hits b (raw_be32 (be_id e)) (bnode_bin_find_gte b (raw_be32 (be_id e)))"
    using assms by (intro bnode_bin_find_gte_nonempty)
  then show ?thesis
    using assms by (auto simp: hits_def bnode_bin_insert_def bnode_is_full_def
        bnode_child_length_def bnode_capacity_def)
qed

lemma bnode_bin_insert_Some:
  assumes "bnode_bin_insert b e gt = Done (Some p, b')" and "length b < 2 ^ 32"
  shows "bnode_length b = Done 0"
proof -
  obtain n where n: "bnode_length b = Done n" and full: "unat n \<noteq> 100"
    using assms(1) by (auto simp: bnode_bin_insert_def bnode_is_full_def bnd_Done_iff
        bnode_capacity_def split: if_splits)
  show ?thesis
    using bnode_bin_insert_nonempty [OF n _ full assms(2), of e gt] assms(1) n by (cases "n = 0") auto
qed

text \<open>What one can read back from that node.\<close>

lemma one_entry_node:
  assumes "1620 \<le> length b"
  shows "length (one_entry_node b e gt) = length b"
    and "bnode_length (one_entry_node b e gt) = Done 1"
    and "entry_at (one_entry_node b e gt) 0 = Done e"
    and "bnode_get_child (one_entry_node b e gt) 0 = Done 0"
    and "bnode_get_child (one_entry_node b e gt) 1 = Done (low32 gt)"
proof -
  show "length (one_entry_node b e gt) = length b"
    using assms by (simp add: one_entry_node_def)
  show l: "bnode_length (one_entry_node b e gt) = Done 1"
    using assms by (simp add: one_entry_node_def bnode_length_store_later)
      (simp add: bnode_length_def mem_read_def bnode_capacity_def Let_def be_num_be_bytes)
  show "entry_at (one_entry_node b e gt) 0 = Done e"
    using assms by (simp add: one_entry_node_def entry_at_eq load_store_before load_store_after)
      (simp add: bentry_bytes_def)
  show "bnode_get_child (one_entry_node b e gt) 0 = Done 0"
    using assms l by (simp add: bnode_get_child_def mem_read_def layout_defs)
      (simp add: one_entry_node_def load_store_before load_store_after)
  show "bnode_get_child (one_entry_node b e gt) 1 = Done (low32 gt)"
    using assms l by (simp add: bnode_get_child_def mem_read_def layout_defs)
      (simp add: one_entry_node_def)
qed

text \<open>A block of zeros read as a node: no entries, and child 0 is 0.\<close>

lemma zero_node:
  assumes "1612 \<le> n"
  shows "bnode_length (replicate n 0) = Done 0" and "bnode_get_child (replicate n 0) 0 = Done 0"
proof -
  show z: "bnode_length (replicate n 0) = Done 0"
    using assms bnode_make_length [of "replicate n 0"] by (simp add: bnode_make_def)
  have "load (replicate n 0) 1604 8 = (replicate 8 0 :: byte list)"
    using assms by (simp add: load_def drop_replicate take_replicate min_def)
  then show "bnode_get_child (replicate n 0) 0 = Done 0"
    using assms by (simp add: bnode_get_child_def z mem_read_def layout_defs of_mem_def)
qed

section \<open>Properties\<close>

text \<open>
  The two arrays of a node behave as arrays of their own: setting child \<open>i\<close> is seen at
  \<open>i\<close> (as its low 32 bits) and nowhere else, and neither the length nor the entries change;
  setting an entry is seen in full at its index only and leaves length and children.
\<close>

theorem node_arrays:
  assumes "bnode_set_child b i c = Done b1" and "bnode_set_entry b k e = Done b2"
    and "child_valid b i" and "child_valid b j" and "k < 100" and "m < 100"
  shows "bnode_get_child b1 j = (if j = i then Done (low32 c) else bnode_get_child b j) \<and>
    bnode_length b1 = bnode_length b \<and> entry_at b1 m = entry_at b m \<and>
    entry_at b2 m = (if m = k then Done e else entry_at b m) \<and>
    bnode_length b2 = bnode_length b \<and> bnode_get_child b2 j = bnode_get_child b j"
proof -
  have lens: "length b1 = length b" "length b2 = length b"
    using assms(1,2) by (simp_all add: children.put_length entries.put_length)
  have "load b1 (4 + m * 16) 16 = load b (4 + m * 16) 16"
    using assms(6) by (intro children.put_frame [OF assms(1)]) simp
  then have e1: "entry_at b1 m = entry_at b m"
    using assms(6) lens by (intro entries.get_local) simp_all
  have "load b2 (1604 + j * 8) 8 = load b (1604 + j * 8) 8"
    using assms(5) by (intro entries.put_frame [OF assms(2)]) simp
  moreover have "child_valid b2 j"
    using assms(4) bnode_parts_commute(2) [OF assms(2)] by (simp add: child_valid_def)
  ultimately have c2: "bnode_get_child b2 j = bnode_get_child b j"
    using assms(4) lens by (intro children.get_local) simp_all
  show ?thesis
    using e1 c2 bnode_parts_commute(1) [OF assms(1)] bnode_parts_commute(2) [OF assms(2)]
      children.get_put [OF assms(1,3)] children.get_put_other [OF assms(1,4)]
      entries.get_put [OF assms(2)] entries.get_put_other [OF assms(2), of m] assms(5,6)
    by auto
qed

lemma sample_node_sets:
  "\<exists>b1. bnode_set_child sample_search_node 1 9 = Done b1"
  "\<exists>b2. bnode_set_entry sample_search_node 2 \<lparr>be_id = 3, be_offset = 4\<rparr> = Done b2"
  "child_valid sample_search_node 0" "child_valid sample_search_node 1"
  by (simp_all add: bnode_set_child_def bnode_set_entry_def mem_write_def layout_defs
      sample_search_node child_valid_def)

theorem node_arrays_witness:
  "\<exists>b1. bnode_set_child sample_search_node 1 9 = Done b1 \<and>
    bnode_get_child b1 0 = bnode_get_child sample_search_node 0 \<and> bnode_length b1 = Done 1"
proof -
  obtain b1 where b1: "bnode_set_child sample_search_node 1 9 = Done b1"
    using sample_node_sets(1) by blast
  obtain b2 where b2: "bnode_set_entry sample_search_node 2 \<lparr>be_id = 3, be_offset = 4\<rparr> = Done b2"
    using sample_node_sets(2) by blast
  show ?thesis
    using node_arrays [OF b1 b2 sample_node_sets(4,3), of 0] b1 sample_search_node(2) by simp
qed

text \<open>
  Inserting into an empty node succeeds and leaves a node of length 1 with that entry, no
  child on its left and the given child (its low 32 bits) on its right.
\<close>

theorem bnode_insert_into_empty:
  assumes "bnode_length b = Done 0" and "1620 \<le> length b"
  shows "\<exists>b'. bnode_bin_insert b e gt = Done (Some (bnode_get_entry 0), b') \<and> length b' = length b \<and>
    bnode_length b' = Done 1 \<and> entry_at b' 0 = Done e \<and>
    bnode_get_child b' 0 = Done 0 \<and> bnode_get_child b' 1 = Done (low32 gt)"
  using bnode_bin_insert_empty [OF assms, of e gt] one_entry_node [OF assms(2), of e gt]
  by (simp add: bnode_get_entry_eptr)

theorem bnode_insert_into_empty_witness:
  "\<exists>b'. bnode_bin_insert (bnode_make (replicate 2000 1)) \<lparr>be_id = 5, be_offset = 6\<rparr> 7 =
      Done (Some (bnode_get_entry 0), b') \<and> bnode_length b' = Done 1 \<and>
    entry_at b' 0 = Done \<lparr>be_id = 5, be_offset = 6\<rparr>"
  using bnode_insert_into_empty [of "bnode_make (replicate 2000 1)" "\<lparr>be_id = 5, be_offset = 6\<rparr>" 7]
    bnode_make_length [of "replicate 2000 1"]
  by (auto simp: bnode_make_def)

text \<open>
  Insertion succeeds in no other node: if \<open>bnode_bin_insert\<close> returns an entry, the node
  was empty. A node never gets a second entry.
\<close>

theorem bnode_insert_only_into_empty:
  assumes "bnode_bin_insert b e gt = Done (Some p, b')" and "length b < 2 ^ 32"
  shows "bnode_length b = Done 0"
  using assms by (rule bnode_bin_insert_Some)

theorem bnode_insert_only_into_empty_witness:
  "bnode_length (bnode_make (replicate 2000 1)) = Done 0 \<and>
    (\<exists>b'. bnode_bin_insert (bnode_make (replicate 2000 1)) \<lparr>be_id = 5, be_offset = 6\<rparr> 7 = Done (Some (eptr 0), b'))"
  using bnode_insert_only_into_empty [of "bnode_make (replicate 2000 1)" "\<lparr>be_id = 5, be_offset = 6\<rparr>" 7 "eptr 0"]
    bnode_bin_insert_empty [OF bnode_make_length [of "replicate 2000 1"], of "\<lparr>be_id = 5, be_offset = 6\<rparr>" 7]
  by (auto simp: bnode_make_def)

end
