(* ===== verification/Btree.thy ===== *)
theory Btree
  imports Fs_State Bnode_Laws
begin

text \<open>
  The operations of btree.c on the tree: look up and modify an inode, insert one with the
  splitting of full nodes and the growth of a new root. Nodes are blocks of the device and
  are reached by block number, so two names of one block are one buffer. The tree's mutex is
  taken and released by the callers in sp.c around each operation.
\<close>

section \<open>Looking up and modifying\<close>

type_synonym 'c modify_cb = "'c \<Rightarrow> spfs_inode \<Rightarrow> (bool \<times> 'c \<times> spfs_inode) outcome"

definition btree_visit_entry ::
  "env \<Rightarrow> dev \<Rightarrow> u64 \<Rightarrow> 'c \<Rightarrow> 'c modify_cb \<Rightarrow> (int \<times> 'c \<times> dev) outcome"
where
  "btree_visit_entry env d offset closure cb =
     (if offset = 0 then Done (1, closure, d)
      else case sb_bread d offset of
        None \<Rightarrow> Done (10, closure, d)
      | Some (bh, d) \<Rightarrow>
          bnd (spfs_inode_parse bh (e_cur env)) (\<lambda>r.
            case r of
              Inl res \<Rightarrow> Done (res, closure, brelse d offset)
            | Inr cur \<Rightarrow>
                bnd (cb closure cur) (\<lambda>(dirty, closure, cur).
                  if dirty then
                    bnd (spfs_inode_make (e_frame env) bh cur) (\<lambda>(_, bh).
                      let d = mark_buffer_dirty (put_buf d offset bh) offset in
                      Done (0, closure, brelse d offset))
                  else Done (0, closure, brelse d offset))))"

text \<open>The walk down from block \<open>offset\<close>; the fuel bounds the nodes visited.\<close>

fun btree_modify_loop ::
  "nat \<Rightarrow> env \<Rightarrow> dev \<Rightarrow> u64 \<Rightarrow> u64 \<Rightarrow> 'c \<Rightarrow> 'c modify_cb \<Rightarrow> (int \<times> 'c \<times> dev) outcome"
where
  "btree_modify_loop 0 env d offset ino closure cb =
     (if offset = 0 then Done (1, closure, d) else Crash NoFuel)"
| "btree_modify_loop (Suc fuel) env d offset ino closure cb =
     (if offset = 0 then Done (1, closure, d)
      else case sb_bread d offset of
        None \<Rightarrow> Done (- EIO, closure, d)
      | Some (bh, d) \<Rightarrow>
          bnd (bnode_bin_find_gte bh ino) (\<lambda>found.
            case found of
              Some gte \<Rightarrow>
                bnd (bentry_id bh gte) (\<lambda>id.
                  if bentry_is_eq id ino then
                    bnd (bentry_deref bh gte) (\<lambda>e.
                      btree_visit_entry env (brelse d offset) (bentry_offset e) closure cb)
                  else
                    bnd (bnode_get_child bh (bnode_index_of gte)) (\<lambda>child.
                      btree_modify_loop fuel env (brelse d offset) child ino closure cb))
            | None \<Rightarrow>
                bnd (bnode_length bh) (\<lambda>len.
                bnd (bnode_get_child bh (unat len)) (\<lambda>child.
                  btree_modify_loop fuel env (brelse d offset) child ino closure cb))))"

definition spfs_btree_modify ::
  "nat \<Rightarrow> env \<Rightarrow> 'a spfs_scheme \<Rightarrow> u64 \<Rightarrow> 'c \<Rightarrow> 'c modify_cb \<Rightarrow>
    (int \<times> 'c \<times> 'a spfs_scheme) outcome"
where
  "spfs_btree_modify fuel env s ino closure cb =
     bnd (btree_modify_loop fuel env (s_dev s) (tree_start s) ino closure cb)
       (\<lambda>(res, closure, d). Done (res, closure, s\<lparr>s_dev := d\<rparr>))"

text \<open>
  The callback copies the whole inode out, with its mutex and the fields of the kernel, which in
  \<open>cur\<close> are whatever was on the stack, and reports that nothing changed.
\<close>

definition spfs_btree_lookup_cb :: "spfs_inode modify_cb" where
  "spfs_btree_lookup_cb dest result = Done (False, result, result)"

definition spfs_btree_lookup ::
  "nat \<Rightarrow> env \<Rightarrow> 'a spfs_scheme \<Rightarrow> u64 \<Rightarrow> spfs_inode \<Rightarrow> (int \<times> spfs_inode \<times> 'a spfs_scheme) outcome"
where
  "spfs_btree_lookup fuel env s ino result =
     spfs_btree_modify fuel env s ino result spfs_btree_lookup_cb"

definition spfs_btree_init :: "'a spfs_scheme \<Rightarrow> u64 \<Rightarrow> int \<times> 'a spfs_scheme" where
  "spfs_btree_init s start =
     (0, s\<lparr>tree_block_size := ucast (sbi_block_size s), tree_blocks := 1, tree_start := start\<rparr>)"

section \<open>The bubble\<close>

text \<open>An entry on its way up the tree, with the child to its right.\<close>

record btree_bubble =
  bb_entry :: spfs_bentry
  bb_greater :: u64

definition bubble_zero :: btree_bubble where
  "bubble_zero = \<lparr>bb_entry = \<lparr>be_id = 0, be_offset = 0\<rparr>, bb_greater = 0\<rparr>"

definition bubble_is_active :: "btree_bubble \<Rightarrow> bool" where
  "bubble_is_active bubble \<longleftrightarrow> be_id (bb_entry bubble) \<noteq> 0"

definition bubble_make :: "u64 \<Rightarrow> u64 \<Rightarrow> u64 \<Rightarrow> btree_bubble" where
  "bubble_make ino page gt =
     \<lparr>bb_entry = \<lparr>be_id = be32_raw ino, be_offset = be32_raw page\<rparr>, bb_greater = gt\<rparr>"

definition spfs_bubble_cmp :: "btree_bubble \<Rightarrow> u64 \<Rightarrow> bool" where
  "spfs_bubble_cmp bubble other = spfs_be_id_cmp (be_id (bb_entry bubble)) other"

definition bnode_bin_insert_b :: "buf \<Rightarrow> btree_bubble \<Rightarrow> (u64 option \<times> buf) outcome" where
  "bnode_bin_insert_b b bubble = bnode_bin_insert b (bb_entry bubble) (bb_greater bubble)"

section \<open>Splitting a full node\<close>

text \<open>
  A \<open>struct spfs_bentry *\<close> that may also point to the bubble's entry. The bubble is on the
  stack, far from any buffer: \<open>bnode_index_of\<close> gives the capacity for it.
\<close>

datatype eptr = InNode u64 | InBubble

definition index_of_ptr :: "eptr \<Rightarrow> nat" where
  "index_of_ptr p = (case p of InNode a \<Rightarrow> bnode_index_of a | InBubble \<Rightarrow> bnode_capacity)"

definition ptr_id :: "buf \<Rightarrow> btree_bubble \<Rightarrow> eptr \<Rightarrow> u64 outcome" where
  "ptr_id b bubble p =
     (case p of InNode a \<Rightarrow> bentry_id b a | InBubble \<Rightarrow> Done (be_id (bb_entry bubble)))"

definition spfs_bentry_entry_cmp :: "buf \<Rightarrow> btree_bubble \<Rightarrow> spfs_bentry \<Rightarrow> eptr \<Rightarrow> bool outcome" where
  "spfs_bentry_entry_cmp b bubble f p =
     bnd (ptr_id b bubble p) (\<lambda>s_id. Done (spfs_be_id_cmp (be_id f) s_id))"

definition bnode_median :: "buf \<Rightarrow> spfs_bentry \<Rightarrow> eptr outcome" where
  "bnode_median b extra =
     bnd (bnode_is_full b) (\<lambda>full. bug_on (\<not> full) (
     bnd (bnode_length b) (\<lambda>len.
     let mid = (unat len + 1) div 2 in bug_on (mid = 0) (
     let mid_entry = bnode_get_entry mid in
     bnd (bentry_id b mid_entry) (\<lambda>mid_id.
     if spfs_be_id_cmp (be_id extra) mid_id then Done (InNode mid_entry)
     else let mid_priv_entry = mid_entry - of_nat sizeof_bentry in
       bnd (bentry_id b mid_priv_entry) (\<lambda>priv_id.
       if spfs_be_id_cmp (be_id extra) priv_id then Done InBubble
       else Done (InNode mid_priv_entry)))))))"

text \<open>
  The two loops of \<open>bnode_partition\<close>; the length of \<open>from\<close> is read again in each round
  and never exceeds 100, so 101 rounds of fuel suffice. They return how many entries moved.
\<close>

fun partition_after :: "nat \<Rightarrow> 'a spfs_scheme \<Rightarrow> u64 \<Rightarrow> u64 \<Rightarrow> nat \<Rightarrow> nat \<Rightarrow> (nat \<times> 'a spfs_scheme) outcome"
where
  "partition_after 0 s from to i dropped = Crash NoFuel"
| "partition_after (Suc fuel) s from to i dropped =
     bnd (fs_get s from) (\<lambda>b.
     bnd (bnode_length b) (\<lambda>len.
     if \<not> i < unat len then Done (dropped, s)
     else
       bnd (bnode_get_child b (i + 1)) (\<lambda>src_gt.
       bnd (bentry_deref b (bnode_get_entry i)) (\<lambda>src.
       bnd (fs_get s to) (\<lambda>t.
       bnd (bnode_bin_insert t src src_gt) (\<lambda>(res, t).
       bug_on (res = None)
         (partition_after fuel (fs_put s to t) from to (i + 1) (dropped + 1))))))))"

fun partition_greater ::
  "nat \<Rightarrow> 'a spfs_scheme \<Rightarrow> btree_bubble \<Rightarrow> u64 \<Rightarrow> eptr \<Rightarrow> u64 \<Rightarrow> nat \<Rightarrow> bool \<Rightarrow> nat \<Rightarrow>
    (bool \<times> nat \<times> 'a spfs_scheme) outcome"
where
  "partition_greater 0 s bubble from pivot to i move dropped = Crash NoFuel"
| "partition_greater (Suc fuel) s bubble from pivot to i move dropped =
     bnd (fs_get s from) (\<lambda>b.
     bnd (bnode_length b) (\<lambda>len.
     if \<not> i < unat len then Done (move, dropped, s)
     else
       bnd (bentry_deref b (bnode_get_entry i)) (\<lambda>src.
       bnd (spfs_bentry_entry_cmp b bubble src pivot) (\<lambda>greater.
       if greater then
         bnd (bnode_get_child b (i + 1)) (\<lambda>src_gt.
         bnd (fs_get s to) (\<lambda>t.
         bnd (bnode_bin_insert t src src_gt) (\<lambda>(res, t).
         bug_on (res = None)
           (partition_greater fuel (fs_put s to t) bubble from pivot to (i + 1) True (dropped + 1)))))
       else bug_on move (partition_greater fuel s bubble from pivot to (i + 1) move dropped)))))"

definition partition_fuel :: nat where "partition_fuel = 101"

definition bnode_partition ::
  "'a spfs_scheme \<Rightarrow> btree_bubble \<Rightarrow> u64 \<Rightarrow> eptr \<Rightarrow> u64 \<Rightarrow> 'a spfs_scheme outcome"
where
  "bnode_partition s bubble from pivot to =
     bnd (let idx = index_of_ptr pivot in
          if idx \<noteq> bnode_capacity then partition_after partition_fuel s from to (idx + 1) 0
          else
            bnd (partition_greater partition_fuel s bubble from pivot to 0 False 0)
              (\<lambda>(move, dropped, s). bug_on (\<not> move) (Done (dropped, s))))
       (\<lambda>(dropped, s).
     bnd (fs_get s from) (\<lambda>b.
     bnd (bnode_length b) (\<lambda>len.
     bug_on (unat len < dropped) (
     bnd (bnode_set_length b (len - of_nat dropped)) (\<lambda>(_, b).
     Done (fs_put s from b))))))"

text \<open>Takes the last entry of \<open>tree\<close> as the new bubble entry.\<close>

definition bnode_extract ::
  "'a spfs_scheme \<Rightarrow> u64 \<Rightarrow> eptr \<Rightarrow> btree_bubble \<Rightarrow> u64 \<Rightarrow> (btree_bubble \<times> 'a spfs_scheme) outcome"
where
  "bnode_extract s tree needle dest right =
     bnd (fs_get s tree) (\<lambda>b.
     bnd (bnode_length b) (\<lambda>len.
     let idx = index_of_ptr needle in
     bug_on (idx = bnode_capacity) (
     bug_on (idx \<noteq> unat (len - 1)) (
     bnd (bentry_deref b (bnode_get_entry idx)) (\<lambda>e.
     bnd (bnode_get_child b (idx + 1)) (\<lambda>gt.
     bnd (bnode_set_length b (len - 1)) (\<lambda>(_, b).
     let s = fs_put s tree b in
     bnd (fs_get s right) (\<lambda>r.
     bnd (bnode_is_empty r) (\<lambda>empty. bug_on empty (
     bnd (bnode_get_child r 0) (\<lambda>first. bug_on (first \<noteq> 0) (
     bnd (bnode_set_child r 0 gt) (\<lambda>r.
     Done (dest\<lparr>bb_entry := e\<rparr>, fs_put s right r))))))))))))))"

text \<open>
  \<open>btree_fixup\<close> puts the bubble into the node, or splits the node and leaves the median as
  the new bubble. The bubble of the caller is only replaced in the second case.
\<close>

definition btree_fixup ::
  "'a spfs_scheme \<Rightarrow> u64 \<Rightarrow> btree_bubble \<Rightarrow> (int \<times> btree_bubble \<times> 'a spfs_scheme) outcome"
where
  "btree_fixup s tree bubble =
     bug_on (\<not> bubble_is_active bubble) (
     bnd (fs_get s tree) (\<lambda>b.
     bnd (bnode_is_full b) (\<lambda>full.
     if \<not> full then
       bnd (bnode_bin_insert_b b bubble) (\<lambda>(res, b).
       bug_on (res = None) (Done (0, bubble, fs_put s tree b)))
     else
       bnd (bnode_median b (bb_entry bubble)) (\<lambda>med.
       let (right, s) = fs_alloc s (tree_blocks s) in
       bug_on (right = 0) (
       case fs_bread s right of
         None \<Rightarrow> Done (- EIO, bubble, s)
       | Some (bh, s) \<Rightarrow>
           let s = fs_put s right (bnode_make bh) in
           bnd (bnode_partition s bubble tree med right) (\<lambda>s.
           bnd (if med \<noteq> InBubble then
                  bnd (fs_get s tree) (\<lambda>b.
                  bnd (ptr_id b bubble med) (\<lambda>med_id.
                  let into = (if spfs_bubble_cmp bubble med_id then right else tree) in
                  bnd (fs_get s into) (\<lambda>t.
                  bnd (bnode_bin_insert_b t bubble) (\<lambda>(res, t).
                  bug_on (res = None) (
                  bnode_extract (fs_put s into t) tree med bubble right)))))
                else
                  bnd (fs_get s right) (\<lambda>r.
                  bnd (bnode_get_child r 0) (\<lambda>first. bug_on (first \<noteq> 0) (
                  bnd (bnode_set_child r 0 (bb_greater bubble)) (\<lambda>r.
                  Done (bubble, fs_put s right r))))))
             (\<lambda>(bubble, s).
           let s = fs_brelse (fs_dirty s right) right in
           Done (0, bubble\<lparr>bb_greater := right\<rparr>, s))))))))"

section \<open>Insertion\<close>

text \<open>
  \<open>tree\<close> is \<open>None\<close> for the null pointer, which only the outermost call passes. A child is
  read even when its number is 0: block 0 is then taken for a node. The result carries the
  return code, the bubble and \<open>*out\<close>. The fuel bounds the depth of the recursion.
\<close>

fun btree_insert ::
  "nat \<Rightarrow> env \<Rightarrow> 'a spfs_scheme \<Rightarrow> u64 option \<Rightarrow> spfs_inode \<Rightarrow> u64 \<Rightarrow>
    (int \<times> btree_bubble \<times> u64 \<times> 'a spfs_scheme) outcome"
where
  "btree_insert fuel env s None inode out =
     (let (page, s) = fs_alloc s (tree_blocks s) in
      if page = 0 then Done (1, bubble_zero, out, s)
      else case fs_bread s page of
        None \<Rightarrow> Done (- EIO, bubble_zero, out, s)
      | Some (bh, s) \<Rightarrow>
          bnd (spfs_inode_make (e_frame env) bh inode) (\<lambda>(res, bh).
          let s = fs_put s page bh in
          if res \<noteq> 0 then Done (res, bubble_zero, out, s)
          else Done (0, bubble_make (i_ino inode) page 0, page, fs_brelse (fs_dirty s page) page)))"
| "btree_insert 0 env s (Some tree) inode out = Crash NoFuel"
| "btree_insert (Suc fuel) env s (Some tree) inode out =
     bnd (fs_get s tree) (\<lambda>b.
     bnd (bnode_bin_find_gte b (i_ino inode)) (\<lambda>found.
     let descend = (\<lambda>child.
       case fs_bread s child of
         None \<Rightarrow> Done (- EIO, bubble_zero, out, s)
       | Some (bh, s) \<Rightarrow>
           bnd (btree_insert fuel env s (Some child) inode out) (\<lambda>(res, bubble, out, s).
           let s = fs_brelse (fs_dirty s child) child in
           if bubble_is_active bubble then
             bnd (btree_fixup s tree bubble) (\<lambda>(res, bubble, s). Done (res, bubble, out, s))
           else Done (res, bubble, out, s))) in
     case found of
       Some gte \<Rightarrow>
         bnd (bentry_id b gte) (\<lambda>id.
         if bentry_is_eq id (i_ino inode) then
           bnd (bentry_deref b gte) (\<lambda>e. Done (1, bubble_zero, bentry_offset e, s))
         else
           let index = bnode_index_of gte in
           bug_on (index = bnode_capacity) (bnd (bnode_get_child b index) descend))
     | None \<Rightarrow>
         bnd (bnode_child_length b) (\<lambda>children. bug_on (children = 0) (
         bnd (bnode_length b) (\<lambda>len. bug_on (len = 0) (
         bnd (bnode_is_empty b) (\<lambda>empty. bug_on empty (
         bnd (bnode_get_child b (unat len)) descend))))))))"

text \<open>
  \<open>bnode_alloc_root\<close> allocates a block for the new root, but builds the node in the block of
  the old root (\<open>sb_bread(sb, self->start)\<close>), and makes the new block the root.
\<close>

definition bnode_alloc_root ::
  "'a spfs_scheme \<Rightarrow> btree_bubble \<Rightarrow> (int \<times> 'a spfs_scheme) outcome"
where
  "bnode_alloc_root s bubble =
     (let less = tree_start s; (root, s) = fs_alloc s (tree_blocks s) in
      if root = 0 then Done (- ENOMEM, s)
      else case fs_bread s (tree_start s) of
        None \<Rightarrow> Done (- EIO, s)
      | Some (bh, s) \<Rightarrow>
          let b = bnode_make bh; s = s\<lparr>tree_start := root\<rparr> in
          bnd (bnode_child_add_back b less) (\<lambda>(res, b). bug_on (res \<noteq> 0) (
          bnd (bnode_bin_insert_b b bubble) (\<lambda>(ires, b). bug_on (ires = None) (
          bnd (bnode_length b) (\<lambda>len. bug_on (len = 0) (
          bnd (bnode_child_length b) (\<lambda>children. bug_on (children = 0) (
          bnd (bnode_is_empty b) (\<lambda>empty. bug_on empty (
          Done (0, fs_brelse (fs_dirty (fs_put s less b) less) less))))))))))))"

definition spfs_btree_insert ::
  "nat \<Rightarrow> env \<Rightarrow> 'a spfs_scheme \<Rightarrow> spfs_inode \<Rightarrow> (int \<times> 'a spfs_scheme) outcome"
where
  "spfs_btree_insert fuel env s inode =
     (let start = tree_start s;
          run = (\<lambda>s tree release.
            bnd (btree_insert fuel env s tree inode 0) (\<lambda>(res, bubble, out, s).
            let s = (if release then fs_brelse (fs_dirty s start) start else s) in
            if bubble_is_active bubble then
              bnd (bnode_alloc_root s bubble) (\<lambda>(nres, s). bug_on (nres \<noteq> 0) (Done (res, s)))
            else Done (res, s)))
      in if start \<noteq> 0 then
           (case fs_bread s start of
              None \<Rightarrow> Done (- EIO, s)
            | Some (bh, s) \<Rightarrow> run s (Some start) True)
         else run s None False)"

end
