(* ===== verification/Btree_Walk.thy ===== *)
theory Btree_Walk
  imports Btree
begin

text \<open>
  Looking up and modifying, taken apart: a modification is a search that only reads the
  nodes, followed by a visit of one inode block. From this follow that a lookup changes
  nothing and that a modification is seen by the next lookup of the same inode and by no
  lookup of another one.
\<close>

section \<open>The search as a function of the blocks\<close>

text \<open>One node: \<open>Inl\<close> the block of the inode, \<open>Inr\<close> the child to go on with.\<close>

definition node_step :: "buf \<Rightarrow> u64 \<Rightarrow> (u64 + u64) outcome" where
  "node_step bh ino =
     bnd (bnode_bin_find_gte bh ino) (\<lambda>found.
       case found of
         Some gte \<Rightarrow>
           bnd (bentry_id bh gte) (\<lambda>id.
             if bentry_is_eq id ino then
               bnd (bentry_deref bh gte) (\<lambda>e. Done (Inl (bentry_offset e)))
             else bnd (bnode_get_child bh (bnode_index_of gte)) (\<lambda>child. Done (Inr child)))
       | None \<Rightarrow>
           bnd (bnode_length bh) (\<lambda>len.
           bnd (bnode_get_child bh (unat len)) (\<lambda>child. Done (Inr child))))"

text \<open>\<open>Inr\<close>: the block of the inode; \<open>Inl\<close>: the code with which the walk ends early.\<close>

fun btree_locate :: "nat \<Rightarrow> (u64 \<Rightarrow> buf option) \<Rightarrow> u64 \<Rightarrow> u64 \<Rightarrow> (int + u64) outcome" where
  "btree_locate 0 blk offset ino = (if offset = 0 then Done (Inl 1) else Crash NoFuel)"
| "btree_locate (Suc fuel) blk offset ino =
     (if offset = 0 then Done (Inl 1)
      else case blk offset of
        None \<Rightarrow> Done (Inl (- EIO))
      | Some bh \<Rightarrow>
          bnd (node_step bh ino) (\<lambda>r.
            case r of
              Inl o' \<Rightarrow> Done (Inr o')
            | Inr child \<Rightarrow> btree_locate fuel blk child ino))"

lemma btree_locate_code: "btree_locate fuel blk offset ino = Done (Inl e) \<Longrightarrow> e \<noteq> 0"
proof (induction fuel arbitrary: offset)
  case (Suc fuel)
  show ?case
  proof (cases "offset = 0 \<or> blk offset = None")
    case True
    then show ?thesis using Suc.prems by (auto simp: errno_defs split: if_splits)
  next
    case False
    then obtain bh r where r: "offset \<noteq> 0" "blk offset = Some bh" "node_step bh ino = Done r"
      using Suc.prems by (auto simp: bnd_Done_iff)
    then show ?thesis using Suc by (cases r) auto
  qed
qed (simp split: if_splits)

text \<open>The nodes the search reads, the last one included.\<close>

fun btree_path :: "nat \<Rightarrow> (u64 \<Rightarrow> buf option) \<Rightarrow> u64 \<Rightarrow> u64 \<Rightarrow> u64 list" where
  "btree_path 0 blk offset ino = []"
| "btree_path (Suc fuel) blk offset ino =
     (if offset = 0 then []
      else offset #
        (case map_option (\<lambda>bh. node_step bh ino) (blk offset) of
           Some (Done (Inr child)) \<Rightarrow> btree_path fuel blk child ino
         | _ \<Rightarrow> []))"

lemma btree_modify_loop_step:
  assumes "offset \<noteq> 0" and "d_blocks d offset = Some bh"
  shows "btree_modify_loop (Suc fuel) env d offset ino closure cb =
    bnd (node_step bh ino) (\<lambda>r.
      case r of
        Inl o' \<Rightarrow> btree_visit_entry env d o' closure cb
      | Inr child \<Rightarrow> btree_modify_loop fuel env d child ino closure cb)"
  using assms
  by (simp add: sb_bread_readable node_step_def bnd_assoc)
    (auto intro!: bnd_cong simp: bnd_assoc split: option.split)

lemma btree_modify_loop_locate:
  "btree_modify_loop fuel env d offset ino closure cb =
     bnd (btree_locate fuel (d_blocks d) offset ino) (\<lambda>r.
       case r of
         Inl res \<Rightarrow> Done (res, closure, d)
       | Inr o' \<Rightarrow> btree_visit_entry env d o' closure cb)"
proof (induction fuel arbitrary: offset)
  case 0
  then show ?case by simp
next
  case (Suc fuel)
  show ?case
  proof (cases "offset = 0 \<or> d_blocks d offset = None")
    case True
    then show ?thesis by (auto simp: sb_bread_unreadable)
  next
    case False
    then obtain bh where bh: "offset \<noteq> 0" "d_blocks d offset = Some bh" by auto
    show ?thesis
      using bh Suc.IH unfolding btree_modify_loop_step [OF bh]
      by (auto simp: bnd_assoc intro!: bnd_cong split: sum.split)
  qed
qed

lemma btree_locate_local:
  assumes "\<forall>n\<in>set (btree_path fuel blk offset ino). blk' n = blk n"
  shows "btree_locate fuel blk' offset ino = btree_locate fuel blk offset ino"
  using assms
proof (induction fuel arbitrary: offset)
  case 0
  then show ?case by simp
next
  case (Suc fuel)
  show ?case
  proof (cases "offset = 0 \<or> blk offset = None")
    case True
    then show ?thesis using Suc.prems by auto
  next
    case False
    then obtain bh where bh: "offset \<noteq> 0" "blk offset = Some bh" by auto
    then have "blk' offset = Some bh" using Suc.prems by simp
    then show ?thesis
      using bh Suc.IH Suc.prems by (auto intro!: bnd_cong split: sum.split)
  qed
qed

section \<open>The visit\<close>

lemma btree_visit_entry_Done:
  assumes "btree_visit_entry env d offset closure cb = Done (res, closure', d')"
  obtains (same) "d' = d"
  | (changed) b cur cur' b' res' where "offset \<noteq> 0" and "res = 0"
    and "d_blocks d offset = Some b"
    and "spfs_inode_parse b (e_cur env) = Done (Inr cur)"
    and "cb closure cur = Done (True, closure', cur')"
    and "spfs_inode_make (e_frame env) b cur' = Done (res', b')"
    and "d' = mark_buffer_dirty (put_buf d offset b') offset"
proof (cases "offset = 0 \<or> d_blocks d offset = None")
  case True
  then show ?thesis using assms same
    by (auto simp: btree_visit_entry_def sb_bread_unreadable split: if_splits)
next
  case False
  then obtain b where b: "offset \<noteq> 0" "d_blocks d offset = Some b" by auto
  have refs: "brelse (mark_buffer_dirty (put_buf (d\<lparr>d_refs := (d_refs d)(offset := Suc (d_refs d offset))\<rparr>) offset x) offset) offset =
    mark_buffer_dirty (put_buf d offset x) offset" for x
    by (simp add: brelse_def mark_buffer_dirty_def put_buf_def)
  from assms b obtain r where r: "spfs_inode_parse b (e_cur env) = Done r"
    by (auto simp: btree_visit_entry_def sb_bread_readable bnd_Done_iff)
  show ?thesis
  proof (cases r)
    case (Inl e)
    then show ?thesis using assms b r same by (simp add: btree_visit_entry_def sb_bread_readable)
  next
    case (Inr cur)
    then obtain dirty c' cur' where cb: "cb closure cur = Done (dirty, c', cur')"
      using assms b r by (auto simp: btree_visit_entry_def sb_bread_readable bnd_Done_iff)
    then show ?thesis
      using assms b r Inr
      by (auto simp: btree_visit_entry_def sb_bread_readable bnd_Done_iff Let_def refs
          split: if_splits intro: same changed)
  qed
qed

section \<open>Lookup and modify\<close>

lemma spfs_btree_lookup_state:
  assumes "spfs_btree_lookup fuel env s ino out = Done (res, out', s')"
  shows "s' = s"
proof -
  obtain d where d: "btree_modify_loop fuel env (s_dev s) (tree_start s) ino out spfs_btree_lookup_cb
      = Done (res, out', d)" and s': "s' = s\<lparr>s_dev := d\<rparr>"
    using assms by (auto simp: spfs_btree_lookup_def spfs_btree_modify_def bnd_Done_iff)
  obtain r where r: "btree_locate fuel (d_blocks (s_dev s)) (tree_start s) ino = Done r"
    using d by (auto simp: btree_modify_loop_locate bnd_Done_iff)
  have "d = s_dev s"
  proof (cases r)
    case (Inl e)
    then show ?thesis using d r by (simp add: btree_modify_loop_locate)
  next
    case (Inr o')
    then have "btree_visit_entry env (s_dev s) o' out spfs_btree_lookup_cb = Done (res, out', d)"
      using d r by (simp add: btree_modify_loop_locate)
    then show ?thesis
      by (rule btree_visit_entry_Done) (auto simp: spfs_btree_lookup_cb_def)
  qed
  then show ?thesis by (simp add: s')
qed

text \<open>The inode is in block \<open>o'\<close>, which is none of the nodes read on the way.\<close>

definition located :: "nat \<Rightarrow> 'a spfs_scheme \<Rightarrow> u64 \<Rightarrow> u64 \<Rightarrow> bool" where
  "located fuel s ino o' \<longleftrightarrow>
     btree_locate fuel (d_blocks (s_dev s)) (tree_start s) ino = Done (Inr o')"

definition node_path :: "nat \<Rightarrow> 'a spfs_scheme \<Rightarrow> u64 \<Rightarrow> u64 list" where
  "node_path fuel s ino = btree_path fuel (d_blocks (s_dev s)) (tree_start s) ino"

lemma spfs_btree_modify_located:
  "located fuel s ino o' \<Longrightarrow> spfs_btree_modify fuel env s ino closure cb =
     bnd (btree_visit_entry env (s_dev s) o' closure cb)
       (\<lambda>(res, closure, d). Done (res, closure, s\<lparr>s_dev := d\<rparr>))"
  by (simp add: spfs_btree_modify_def btree_modify_loop_locate located_def)

lemma located_other_block:
  assumes "located fuel s ino o'" and "n \<notin> set (node_path fuel s ino)"
  shows "located fuel (s\<lparr>s_dev := mark_buffer_dirty (put_buf (s_dev s) n b) n\<rparr>) ino o'"
  using assms unfolding located_def node_path_def
  by (subst btree_locate_local) auto

lemma btree_visit_lookup:
  assumes "offset \<noteq> 0" and "d_blocks d offset = Some b"
    and "spfs_inode_parse b (e_cur env) = Done (Inr i)"
  shows "btree_visit_entry env d offset out spfs_btree_lookup_cb = Done (0, i, d)"
  using assms by (simp add: btree_visit_entry_def sb_bread_readable spfs_btree_lookup_cb_def)

text \<open>A modification, described: the inode's block is rewritten and marked dirty.\<close>

lemma spfs_btree_modify_spec:
  assumes "located fuel s ino o'" and "o' \<noteq> 0" and "d_blocks (s_dev s) o' = Some b"
    and "294 \<le> length b"
    and "spfs_inode_parse b (e_cur env) = Done (Inr cur)"
    and "cb closure cur = Done (True, closure', cur')"
  shows "spfs_btree_modify fuel env s ino closure cb = Done (0, closure',
    s\<lparr>s_dev := mark_buffer_dirty
      (put_buf (s_dev s) o' (store b 0 (inode_bytes (e_frame env) cur'))) o'\<rparr>)"
proof -
  have refs: "brelse (mark_buffer_dirty (put_buf (d\<lparr>d_refs := (d_refs d)(o' := Suc (d_refs d o'))\<rparr>) o' x) o') o' =
    mark_buffer_dirty (put_buf d o' x) o'" for x d
    by (simp add: brelse_def mark_buffer_dirty_def put_buf_def)
  show ?thesis
    using assms by (simp add: spfs_btree_modify_located btree_visit_entry_def sb_bread_readable
        spfs_inode_make_eq Let_def refs)
qed

lemma spfs_btree_lookup_located:
  assumes "located fuel s ino o'" and "o' \<noteq> 0" and "d_blocks (s_dev s) o' = Some b"
    and "spfs_inode_parse b (e_cur env) = Done (Inr i)"
  shows "spfs_btree_lookup fuel env s ino out = Done (0, i, s)"
  using assms by (simp add: spfs_btree_lookup_def spfs_btree_modify_located btree_visit_lookup)

text \<open>Whatever a modification does, it keeps the sizes of the buffers and the other state.\<close>

lemma spfs_btree_modify_shape:
  assumes "spfs_btree_modify fuel env s ino closure cb = Done (res, closure', s')"
  shows "\<exists>d. s' = s\<lparr>s_dev := d\<rparr> \<and> same_shape (s_dev s) d \<and> (dirty_complete (s_dev s) d)"
proof -
  obtain d where d: "btree_modify_loop fuel env (s_dev s) (tree_start s) ino closure cb
      = Done (res, closure', d)" and s': "s' = s\<lparr>s_dev := d\<rparr>"
    using assms by (auto simp: spfs_btree_modify_def bnd_Done_iff)
  obtain r where r: "btree_locate fuel (d_blocks (s_dev s)) (tree_start s) ino = Done r"
    using d by (auto simp: btree_modify_loop_locate bnd_Done_iff)
  have "same_shape (s_dev s) d \<and> dirty_complete (s_dev s) d"
  proof (cases r)
    case (Inl e)
    then show ?thesis using d r by (simp add: btree_modify_loop_locate dirty_complete_def)
  next
    case (Inr o')
    then have "btree_visit_entry env (s_dev s) o' closure cb = Done (res, closure', d)"
      using d r by (simp add: btree_modify_loop_locate)
    then show ?thesis
    proof (rule btree_visit_entry_Done)
      assume "d = s_dev s"
      then show ?thesis by (simp add: dirty_complete_def)
    next
      fix b cur cur' b' res'
      assume "d_blocks (s_dev s) o' = Some b" "spfs_inode_make (e_frame env) b cur' = Done (res', b')"
        "d = mark_buffer_dirty (put_buf (s_dev s) o' b') o'"
      then show ?thesis
        by (auto intro!: same_shape_dirty same_shape_put dest: spfs_inode_make_length
            simp: dirty_complete_def)
    qed
  qed
  then show ?thesis using s' by blast
qed

text \<open>A lookup after a modification, of the same inode and of another one.\<close>

lemma spfs_btree_modify_lookup:
  assumes loc: "located fuel s ino o'" "o' \<noteq> 0" "o' \<notin> set (node_path fuel s ino)"
    and b: "d_blocks (s_dev s) o' = Some b" "294 \<le> length b"
    and parse: "spfs_inode_parse b (e_cur env) = Done (Inr cur)"
    and cb: "cb closure cur = Done (True, closure', cur')"
    and mod: "spfs_btree_modify fuel env s ino closure cb = Done (res, closure'', s')"
  shows "res = 0 \<and> closure'' = closure' \<and>
    spfs_btree_lookup fuel env s' ino out = Done (0, inode_on_wire (e_frame env) cur' (e_cur env), s')"
proof -
  define b' where "b' = store b 0 (inode_bytes (e_frame env) cur')"
  have s': "s' = s\<lparr>s_dev := mark_buffer_dirty (put_buf (s_dev s) o' b') o'\<rparr>"
    and res: "res = 0" "closure'' = closure'"
    using mod spfs_btree_modify_spec [where cb = cb, OF loc(1,2) b parse cb] by (auto simp: b'_def)
  have "located fuel s' ino o'" unfolding s' using loc(1,3) by (rule located_other_block)
  moreover have "d_blocks (s_dev s') o' = Some b'" by (simp add: s')
  moreover have "spfs_inode_parse b' (e_cur env) = Done (Inr (inode_on_wire (e_frame env) cur' (e_cur env)))"
    using b(2) by (intro spfs_inode_parse_bytes) (simp_all add: b'_def)
  ultimately show ?thesis using res loc(2) by (simp add: spfs_btree_lookup_located)
qed

lemma spfs_btree_lookup_other:
  assumes "located fuel s ino o2" "o2 \<noteq> o'" "o' \<notin> set (node_path fuel s ino)"
  shows "spfs_btree_lookup fuel env (s\<lparr>s_dev := mark_buffer_dirty (put_buf (s_dev s) o' b') o'\<rparr>) ino out =
    bnd (spfs_btree_lookup fuel env s ino out) (\<lambda>(res, out, _). Done (res, out,
      s\<lparr>s_dev := mark_buffer_dirty (put_buf (s_dev s) o' b') o'\<rparr>))"
proof -
  let ?s = "s\<lparr>s_dev := mark_buffer_dirty (put_buf (s_dev s) o' b') o'\<rparr>"
  have loc: "located fuel ?s ino o2" using assms(1,3) by (rule located_other_block)
  have blk: "d_blocks (s_dev ?s) o2 = d_blocks (s_dev s) o2" using assms(2) by simp
  have visit: "btree_visit_entry env d o2 out spfs_btree_lookup_cb =
    (if o2 = 0 then Done (1, out, d) else
      case d_blocks d o2 of None \<Rightarrow> Done (10, out, d)
      | Some b \<Rightarrow> bnd (spfs_inode_parse b (e_cur env)) (\<lambda>r.
          case r of Inl e \<Rightarrow> Done (e, out, d) | Inr i \<Rightarrow> Done (0, i, d)))" for d
    by (auto simp: btree_visit_entry_def sb_bread_unreadable sb_bread_readable spfs_btree_lookup_cb_def
        split: option.split sum.split intro!: bnd_cong)
  show ?thesis
    using blk
    by (simp add: spfs_btree_lookup_def spfs_btree_modify_located [OF loc]
        spfs_btree_modify_located [OF assms(1)] visit bnd_assoc split: option.split)
      (auto intro!: bnd_cong split: sum.split)
qed

section \<open>A sample tree\<close>

definition sample_inode :: spfs_inode where
  "sample_inode = \<lparr>i_ino = 7, i_mode = 0x81A4, i_gid = 3, i_uid = 4, i_atime = at_sec 5,
     i_mtime = at_sec 6, i_ctime = at_sec 7, i_nlink = 1, i_size = 0, i_lock = False, i_kernel = True,
     in_capacity = 0, in_start = 0, in_name = replicate 256 0\<rparr>"

definition sample_env :: env where
  "sample_env = \<lparr>e_frame = \<lambda>_. 9, e_cur = sample_inode\<lparr>i_kernel := False\<rparr>\<rparr>"

definition sample_block :: buf where
  "sample_block = store (replicate 512 0) 0 (inode_bytes (\<lambda>_. 9) sample_inode)"

text \<open>The search in block 1 leads from number 7 to block 5 and from number 3 to block 6.\<close>

definition sample_fs :: spfs where
  "sample_fs = \<lparr>s_dev = \<lparr>d_blocks = [1 \<mapsto> sample_search_node, 5 \<mapsto> sample_block, 6 \<mapsto> sample_block], d_dirty = {},
       d_refs = \<lambda>_. 0\<rparr>,
     sbi_version = 1, sbi_magic = 0, sbi_block_size = 512, sbi_btree_offset = 0,
     sbi_free_list_offset = 1, sbi_id = 8, sbi_root_id = 1, tree_block_size = 512, tree_blocks = 1,
     tree_start = 1, sbi_free_list = \<lparr>fl_blocks = 0, fl_root = []\<rparr>\<rparr>"

text \<open>What a pointer to a slot of a buffer reads.\<close>

lemma slot_read:
  assumes "load b (4 + 16 * i) 16 = bentry_bytes e" and "20 + 16 * i \<le> length b" and "i < 2 ^ 32"
  shows "bentry_deref b (eptr i) = Done e" and "bentry_id b (eptr i) = Done (be_id e)"
proof -
  have u: "unat (eptr i) = 4 + 16 * i" using assms(3) by (rule unat_eptr)
  show "bentry_deref b (eptr i) = Done e"
    using assms(1,2) by (simp add: bentry_deref_def mem_read_def u sizeof_bentry_def)
      (simp add: bentry_bytes_def)
  have "load b (4 + 16 * i) 8 = take 8 (load b (4 + 16 * i) 16)" by (simp add: load_def)
  then show "bentry_id b (eptr i) = Done (be_id e)"
    using assms(1,2) by (simp add: bentry_id_cases u) (simp add: bentry_bytes_def)
qed

lemma sample_slots:
  "load sample_search_node (4 + 16 * 8) 16 = bentry_bytes \<lparr>be_id = be32_raw 7, be_offset = be32_raw 5\<rparr>"
  "load sample_search_node (4 + 16 * 64) 16 = bentry_bytes \<lparr>be_id = be32_raw 3, be_offset = be32_raw 6\<rparr>"
  by (simp_all add: sample_search_node_def load_store_before)

lemmas sample_slot8 = slot_read [OF sample_slots(1)]
lemmas sample_slot64 = slot_read [OF sample_slots(2)]

lemma sample_search3: "bnode_bin_find_gte sample_search_node 3 = Done (Some (eptr 64))"
proof -
  have "find_gte_loop (Suc (Suc f)) sample_search_node (eptr 1) 3 (eptr 0) (eptr 1) = Done (Some (eptr 64))" for f
    using probe_up [of 0 1] probe_up [of 0 8] eptr_distance [of 0 1] sample_slot8 sample_slot64
    by (simp add: find_gte_loop_Suc spfs_bentry_cmp_def bentry_is_eq_def sample_search_node(1) low32_def
        del: find_gte_loop.simps)
  from this [of 14] show ?thesis
    using eptr_end [of 1] sample_search_node(2)
    by (simp add: bnode_bin_find_gte_def bnode_capacity_def find_gte_fuel_def Let_def eptr_0
        del: find_gte_loop.simps)
qed

lemma sample_step:
  "node_step sample_search_node 7 = Done (Inl 5)" "node_step sample_search_node 3 = Done (Inl 6)"
  by (simp_all add: node_step_def sample_search sample_search3 sample_slot8 sample_slot64
      sample_search_node(1) bentry_is_eq_def bentry_offset_def low32_def)

lemma sample_located:
  "located 1 sample_fs 7 5" "node_path 1 sample_fs 7 = [1]"
  "located 1 sample_fs 3 6" "node_path 1 sample_fs 3 = [1]"
  by (simp_all add: located_def node_path_def sample_fs_def sample_step)

lemma sample_parse:
  "length sample_block = 512"
  "spfs_inode_parse sample_block out = Done (Inr (inode_on_wire (\<lambda>_. 9) sample_inode out))"
proof -
  show len: "length sample_block = 512" by (simp add: sample_block_def)
  show "spfs_inode_parse sample_block out = Done (Inr (inode_on_wire (\<lambda>_. 9) sample_inode out))"
    using len by (intro spfs_inode_parse_bytes) (simp_all add: sample_block_def)
qed

lemma sample_fs_simps [simp]:
  "d_blocks (s_dev sample_fs) 5 = Some sample_block" "d_blocks (s_dev sample_fs) 6 = Some sample_block"
  "e_frame sample_env = (\<lambda>_. 9)"
  "tree_start sample_fs = 1" "d_blocks (s_dev sample_fs) 1 = Some sample_search_node"
  by (simp_all add: sample_fs_def sample_env_def)

section \<open>Properties\<close>

text \<open>
  Looking an inode up changes nothing: no block, no dirty mark, no reference on a buffer,
  no field of the super block, whether the inode is found or not.
\<close>

theorem btree_lookup_read_only:
  assumes "spfs_btree_lookup fuel env s ino out = Done (res, out', s')"
  shows "s' = s"
  using assms by (rule spfs_btree_lookup_state)

theorem btree_lookup_read_only_witness:
  "spfs_btree_lookup 1 sample_env sample_fs 7 sample_inode =
    Done (0, inode_on_wire (\<lambda>_. 9) sample_inode (e_cur sample_env), sample_fs)"
proof -
  obtain s' where s': "spfs_btree_lookup 1 sample_env sample_fs 7 sample_inode =
      Done (0, inode_on_wire (\<lambda>_. 9) sample_inode (e_cur sample_env), s')"
    using spfs_btree_lookup_located [OF sample_located(1), of sample_block sample_env] sample_parse by simp
  then show ?thesis using btree_lookup_read_only [OF s'] by simp
qed

text \<open>
  C23: A modification that the callback reports as dirty is seen by the next lookup of the same
  inode: it returns 0 and what the callback left, cut to what the wire format keeps.
\<close>

theorem btree_modify_then_lookup:
  assumes "located fuel s ino o'" and "o' \<noteq> 0" and "o' \<notin> set (node_path fuel s ino)"
    and "d_blocks (s_dev s) o' = Some b" and "294 \<le> length b"
    and "spfs_inode_parse b (e_cur env) = Done (Inr cur)"
    and "cb closure cur = Done (True, closure', cur')"
    and "spfs_btree_modify fuel env s ino closure cb = Done (res, closure'', s')"
  shows "res = 0 \<and> closure'' = closure' \<and>
    spfs_btree_lookup fuel env s' ino out = Done (0, inode_on_wire (e_frame env) cur' (e_cur env), s')"
  using spfs_btree_modify_lookup [where cb = cb, OF assms] .

definition sample_touch :: "unit modify_cb" where
  "sample_touch c i = Done (True, c, i\<lparr>in_capacity := 77\<rparr>)"

theorem btree_modify_then_lookup_witness:
  "\<exists>s' i. spfs_btree_modify 1 sample_env sample_fs 7 () sample_touch = Done (0, (), s') \<and>
    spfs_btree_lookup 1 sample_env s' 7 sample_inode = Done (0, i, s') \<and> in_capacity i = 77"
proof -
  define cur where "cur = inode_on_wire (\<lambda>_. 9) sample_inode (e_cur sample_env)"
  have p: "spfs_inode_parse sample_block (e_cur sample_env) = Done (Inr cur)"
    by (simp add: cur_def sample_parse)
  have cb: "sample_touch () cur = Done (True, (), cur\<lparr>in_capacity := 77\<rparr>)" by (simp add: sample_touch_def)
  have len: "294 \<le> length sample_block" by (simp add: sample_parse)
  obtain s' where m: "spfs_btree_modify 1 sample_env sample_fs 7 () sample_touch = Done (0, (), s')"
    using spfs_btree_modify_spec [where cb = sample_touch, OF sample_located(1) _ _ len p cb] by simp
  show ?thesis
    using btree_modify_then_lookup [where cb = sample_touch, OF sample_located(1) _ _ _ len p cb m, of sample_inode] m
    by (simp add: sample_located(2) inode_on_wire_def del: One_nat_def)
qed

text \<open>
  C24: Modifying one inode leaves the lookups of the others as they were: an inode in another
  block that is reached without passing through the modified block gives the same result.
\<close>

theorem btree_modify_leaves_others:
  assumes "located fuel s ino o'" and "o' \<noteq> 0" and "d_blocks (s_dev s) o' = Some b"
    and "294 \<le> length b" and "spfs_inode_parse b (e_cur env) = Done (Inr cur)"
    and "cb closure cur = Done (True, closure', cur')"
    and "spfs_btree_modify fuel env s ino closure cb = Done (res, closure'', s')"
    and "located fuel s ino2 o2" and "o2 \<noteq> o'" and "o' \<notin> set (node_path fuel s ino2)"
    and "spfs_btree_lookup fuel env s ino2 out = Done (res2, out2, s)"
  shows "spfs_btree_lookup fuel env s' ino2 out = Done (res2, out2, s')"
proof -
  have s': "s' = s\<lparr>s_dev := mark_buffer_dirty
      (put_buf (s_dev s) o' (store b 0 (inode_bytes (e_frame env) cur'))) o'\<rparr>"
    using assms(7) spfs_btree_modify_spec [where cb = cb, OF assms(1-6)] by simp
  show ?thesis
    using spfs_btree_lookup_other [OF assms(8-10), of env _ out] assms(11) by (simp add: s')
qed

theorem btree_modify_leaves_others_witness:
  "\<exists>s'. spfs_btree_modify 1 sample_env sample_fs 7 () sample_touch = Done (0, (), s') \<and>
    spfs_btree_lookup 1 sample_env s' 3 sample_inode =
      Done (0, inode_on_wire (\<lambda>_. 9) sample_inode (e_cur sample_env), s')"
proof -
  define cur where "cur = inode_on_wire (\<lambda>_. 9) sample_inode (e_cur sample_env)"
  have p: "spfs_inode_parse sample_block (e_cur sample_env) = Done (Inr cur)"
    by (simp add: cur_def sample_parse)
  have cb: "sample_touch () cur = Done (True, (), cur\<lparr>in_capacity := 77\<rparr>)" by (simp add: sample_touch_def)
  have len: "294 \<le> length sample_block" by (simp add: sample_parse)
  obtain s' where m: "spfs_btree_modify 1 sample_env sample_fs 7 () sample_touch = Done (0, (), s')"
    using spfs_btree_modify_spec [where cb = sample_touch, OF sample_located(1) _ _ len p cb] by simp
  have look: "spfs_btree_lookup 1 sample_env sample_fs 3 sample_inode = Done (0, cur, sample_fs)"
    using spfs_btree_lookup_located [OF sample_located(3) _ _ p] by simp
  show ?thesis
    using btree_modify_leaves_others [where cb = sample_touch,
        OF sample_located(1) _ _ len p cb m sample_located(3) _ _ look] m
    by (simp add: sample_located(4) cur_def del: One_nat_def)
qed

text \<open>
  Whatever the callback does, a modification keeps the size of every buffer, marks every
  block dirty whose content it changes, and touches nothing of the super block.
\<close>

theorem btree_modify_marks_dirty:
  assumes "spfs_btree_modify fuel env s ino closure cb = Done (res, closure', s')"
  shows "\<exists>d. s' = s\<lparr>s_dev := d\<rparr> \<and> same_shape (s_dev s) d \<and> dirty_complete (s_dev s) d"
  using assms by (rule spfs_btree_modify_shape)

theorem btree_modify_marks_dirty_witness:
  "\<exists>d. spfs_btree_modify 1 sample_env sample_fs 7 () sample_touch = Done (0, (), sample_fs\<lparr>s_dev := d\<rparr>) \<and>
    dirty_complete (s_dev sample_fs) d"
proof -
  define cur where "cur = inode_on_wire (\<lambda>_. 9) sample_inode (e_cur sample_env)"
  have p: "spfs_inode_parse sample_block (e_cur sample_env) = Done (Inr cur)"
    by (simp add: cur_def sample_parse)
  have cb: "sample_touch () cur = Done (True, (), cur\<lparr>in_capacity := 77\<rparr>)" by (simp add: sample_touch_def)
  have len: "294 \<le> length sample_block" by (simp add: sample_parse)
  obtain s' where m: "spfs_btree_modify 1 sample_env sample_fs 7 () sample_touch = Done (0, (), s')"
    using spfs_btree_modify_spec [where cb = sample_touch, OF sample_located(1) _ _ len p cb] by simp
  show ?thesis using btree_modify_marks_dirty [OF m] m by auto
qed

end
