(* ===== verification/Btree_Growth.thy ===== *)
theory Btree_Growth
  imports Btree_Walk
begin

text \<open>
  What insertion does to the tree. The first insertion into an empty tree succeeds and is
  described exactly; its root node is written over block 0. From then on the tree has a root,
  and no insertion succeeds any more: an empty root stops the kernel with a \<open>BUG_ON\<close>, and in
  a root with entries the search either finds the number (a duplicate) or leaves the buffer.
\<close>

lemma store_twice:
  assumes "length ys = length xs" and "off + length xs \<le> length b"
  shows "store (store b off xs) off ys = store b off ys"
  using assms by (simp add: store_def)

lemma be32_raw_eq_0 [simp]: "be32_raw x = 0 \<longleftrightarrow> low32 x = 0"
proof
  assume "be32_raw x = 0"
  then have "raw_be32 (be32_raw x) = raw_be32 0" by simp
  then show "low32 x = 0" by (simp only: raw_be32_be32_raw raw_be32_0)
next
  assume "low32 x = 0"
  then have "(ucast x :: u32) = 0" by (metis ucast_low32 unsigned_0)
  then show "be32_raw x = 0" by (simp add: be32_raw_def cpu_to_be32_def)
qed

section \<open>Allocating the root\<close>

text \<open>The node written over the old root: the bubble's entry, nothing below it on the left.\<close>

definition root_node :: "buf \<Rightarrow> btree_bubble \<Rightarrow> buf" where
  "root_node b bubble = one_entry_node (bnode_make b) (bb_entry bubble) (bb_greater bubble)"

lemma length_bnode_make [simp]: "length (bnode_make b) = length b"
  by (simp add: bnode_make_def)

lemma length_root_node [simp]: "1620 \<le> length b \<Longrightarrow> length (root_node b bubble) = length b"
  by (simp add: root_node_def one_entry_node)

lemma one_entry_node_child0:
  "1620 \<le> length b \<Longrightarrow> length xs = 8 \<Longrightarrow> one_entry_node (store b 1604 xs) e gt = one_entry_node b e gt"
  by (simp add: one_entry_node_def store_twice)

lemma brelse_after_bread:
  "brelse (mark_buffer_dirty (put_buf (d\<lparr>d_refs := (d_refs d)(n := Suc (d_refs d n))\<rparr>) n b) n) n =
    mark_buffer_dirty (put_buf d n b) n"
  by (simp add: brelse_def mark_buffer_dirty_def put_buf_def)

lemma bnode_alloc_root_spec:
  assumes alloc: "spfs_free_alloc (sbi_free_list s) (tree_blocks s) = (root, fl)" "root \<noteq> 0"
    and b: "d_blocks (s_dev s) (tree_start s) = Some b" "1620 \<le> length b"
  shows "bnode_alloc_root s bubble = Done (0, s\<lparr>
    s_dev := mark_buffer_dirty (put_buf (s_dev s) (tree_start s) (root_node b bubble)) (tree_start s),
    tree_start := root, sbi_free_list := fl\<rparr>)"
proof -
  define b1 where "b1 = store (bnode_make b) 1604 (to_mem 8 (be32_raw (tree_start s)))"
  have l0: "bnode_length (bnode_make b) = Done 0"
    using b(2) by (intro bnode_make_length) simp
  have len1: "length b1 = length b" using b(2) by (simp add: b1_def)
  have add: "bnode_child_add_back (bnode_make b) (tree_start s) = Done (0, b1)"
    using l0 b(2) by (simp add: bnode_child_add_back_def mem_write_def layout_defs b1_def)
  have "bnode_length b1 = Done 0"
    using l0 b(2) by (simp add: b1_def bnode_length_store_later)
  then have "bnode_bin_insert b1 (bb_entry bubble) (bb_greater bubble) =
      Done (Some (eptr 0), one_entry_node b1 (bb_entry bubble) (bb_greater bubble))"
    using b(2) len1 by (intro bnode_bin_insert_empty) simp_all
  also have "one_entry_node b1 (bb_entry bubble) (bb_greater bubble) = root_node b bubble"
    using b(2) by (simp add: b1_def root_node_def one_entry_node_child0)
  finally have ins: "bnode_bin_insert_b b1 bubble = Done (Some (eptr 0), root_node b bubble)"
    by (simp add: bnode_bin_insert_b_def)
  have l1: "bnode_length (root_node b bubble) = Done 1"
    using b(2) by (simp add: root_node_def one_entry_node)
  show ?thesis
    using alloc b add ins l1
    by (simp add: bnode_alloc_root_def fs_alloc_def fs_defs sb_bread_readable Let_def
        bnode_child_length_def bnode_is_empty_def brelse_after_bread)
qed

section \<open>The first insertion\<close>

definition first_entry :: "spfs_inode \<Rightarrow> u64 \<Rightarrow> btree_bubble" where
  "first_entry inode page = bubble_make (i_ino inode) page 0"

lemma spfs_btree_insert_empty_tree:
  assumes start: "tree_start s = 0"
    and a1: "spfs_free_alloc (sbi_free_list s) (tree_blocks s) = (page, fl1)" "page \<noteq> 0"
    and a2: "spfs_free_alloc fl1 (tree_blocks s) = (root, fl2)" "root \<noteq> 0"
    and b: "d_blocks (s_dev s) page = Some b" "294 \<le> length b"
    and b0: "d_blocks (s_dev s) 0 = Some b0" "1620 \<le> length b0"
    and ino: "low32 (i_ino inode) \<noteq> 0"
  shows "spfs_btree_insert fuel env s inode = Done (0, s\<lparr>
    s_dev := mark_buffer_dirty (put_buf
      (mark_buffer_dirty (put_buf (s_dev s) page (store b 0 (inode_bytes (e_frame env) inode))) page)
      0 (root_node b0 (first_entry inode page))) 0,
    tree_start := root, sbi_free_list := fl2\<rparr>)"
proof -
  define s1 where "s1 = s\<lparr>sbi_free_list := fl1,
    s_dev := mark_buffer_dirty (put_buf (s_dev s) page (store b 0 (inode_bytes (e_frame env) inode))) page\<rparr>"
  have ins: "btree_insert fuel env s None inode 0 = Done (0, first_entry inode page, page, s1)"
    using a1 b by (simp add: fs_alloc_def fs_defs sb_bread_readable spfs_inode_make_eq Let_def
        brelse_after_bread s1_def first_entry_def)
  have act: "bubble_is_active (first_entry inode page)"
    using ino by (simp add: bubble_is_active_def first_entry_def bubble_make_def)
  have "bnode_alloc_root s1 (first_entry inode page) = Done (0, s1\<lparr>
    s_dev := mark_buffer_dirty (put_buf (s_dev s1) (tree_start s1)
      (root_node b0 (first_entry inode page))) (tree_start s1),
    tree_start := root, sbi_free_list := fl2\<rparr>)"
    using a2 b0 a1(2) start by (intro bnode_alloc_root_spec) (simp_all add: s1_def)
  then show ?thesis
    using ins act start by (simp add: spfs_btree_insert_def s1_def)
qed

section \<open>No insertion below a root\<close>

lemma btree_insert_below_root:
  assumes "d_blocks (s_dev s) tree = Some b" and "length b < 2 ^ 32"
    and "btree_insert (Suc fuel) env s (Some tree) inode out = Done (res, bubble, out', s')"
  shows "res = 1 \<and> bubble = bubble_zero \<and> s' = s"
proof -
  obtain n where n: "bnode_length b = Done n"
    using assms(1,3) by (auto simp: fs_get_def bnd_Done_iff get_buf_def bnode_bin_find_gte_def)
  show ?thesis
  proof (cases "n = 0")
    case True
    then show ?thesis
      using assms n by (simp add: fs_get_def get_buf_def bnode_bin_find_gte_empty
          bnode_child_length_def Let_def)
  next
    case False
    then have "hits b (i_ino inode) (bnode_bin_find_gte b (i_ino inode))"
      using assms(2) n by (intro bnode_bin_find_gte_nonempty)
    then show ?thesis
      using assms(1,3) by (auto simp: hits_def fs_get_def get_buf_def bnd_Done_iff Let_def)
  qed
qed

lemma btree_insert_empty_root:
  assumes "d_blocks (s_dev s) tree = Some b" and "bnode_length b = Done 0"
  shows "btree_insert (Suc fuel) env s (Some tree) inode out = Crash BugOn"
  using assms by (simp add: fs_get_def get_buf_def bnode_bin_find_gte_empty
      bnode_child_length_def Let_def)

lemma spfs_btree_insert_with_root:
  assumes "tree_start s \<noteq> 0" and "d_blocks (s_dev s) (tree_start s) = Some b"
    and "length b < 2 ^ 32" and "spfs_btree_insert (Suc fuel) env s inode = Done (res, s')"
  shows "res = 1 \<and> s' = s\<lparr>s_dev := mark_buffer_dirty (s_dev s) (tree_start s)\<rparr>"
proof -
  define s1 where "s1 = s\<lparr>s_dev := (s_dev s)\<lparr>d_refs := (d_refs (s_dev s))(tree_start s :=
    Suc (d_refs (s_dev s) (tree_start s)))\<rparr>\<rparr>"
  have bread: "fs_bread s (tree_start s) = Some (b, s1)"
    using assms(2) by (simp add: fs_bread_def sb_bread_readable s1_def)
  obtain res0 bubble out s2 where ins: "btree_insert (Suc fuel) env s1 (Some (tree_start s)) inode 0
      = Done (res0, bubble, out, s2)"
    using assms(1,4) bread by (auto simp: spfs_btree_insert_def bnd_Done_iff Let_def
        simp del: btree_insert.simps)
  have "d_blocks (s_dev s1) (tree_start s) = Some b" using assms(2) by (simp add: s1_def)
  note done_ins = btree_insert_below_root [OF this assms(3) ins]
  have "\<not> bubble_is_active bubble" using done_ins by (simp add: bubble_is_active_def bubble_zero_def)
  moreover have "fs_brelse (fs_dirty s1 (tree_start s)) (tree_start s) =
      s\<lparr>s_dev := mark_buffer_dirty (s_dev s) (tree_start s)\<rparr>"
    by (simp add: s1_def fs_defs mark_buffer_dirty_def brelse_def)
  ultimately show ?thesis
    using assms(1,4) bread ins done_ins
    by (simp add: spfs_btree_insert_def Let_def del: btree_insert.simps)
qed

lemma spfs_btree_insert_empty_root:
  assumes "tree_start s \<noteq> 0" and "d_blocks (s_dev s) (tree_start s) = Some b"
    and "bnode_length b = Done 0"
  shows "spfs_btree_insert (Suc fuel) env s inode = Crash BugOn"
  using assms by (simp add: spfs_btree_insert_def fs_bread_def sb_bread_readable Let_def
      btree_insert_empty_root del: btree_insert.simps)

section \<open>Fixing up a node\<close>

text \<open>
  When the node has room the bubble goes in, and the caller's bubble stays active: the code
  returns without clearing it, so every ancestor inserts the same entry again.
\<close>

lemma btree_fixup_room:
  assumes "d_blocks (s_dev s) tree = Some b" and "bnode_length b = Done 0" and "1620 \<le> length b"
    and "bubble_is_active bubble"
  shows "btree_fixup s tree bubble =
    Done (0, bubble, fs_put s tree (one_entry_node b (bb_entry bubble) (bb_greater bubble)))"
  using assms bnode_bin_insert_empty [OF assms(2,3)]
  by (simp add: btree_fixup_def fs_get_def get_buf_def bnode_is_full_def bnode_bin_insert_b_def
      bnode_capacity_def)

lemma spfs_btree_insert_root_fails:
  assumes "tree_start s \<noteq> 0" and "\<And>n b. d_blocks (s_dev s) n = Some b \<Longrightarrow> length b < 2 ^ 32"
    and "spfs_btree_insert fuel env s inode = Done (res, s')"
  shows "res \<noteq> 0"
proof (cases "d_blocks (s_dev s) (tree_start s)")
  case None
  then show ?thesis
    using assms(1,3) by (auto simp: spfs_btree_insert_def fs_bread_def sb_bread_unreadable EIO_def)
next
  case (Some b)
  show ?thesis
  proof (cases fuel)
    case 0
    then show ?thesis
      using assms(1,3) Some by (simp add: spfs_btree_insert_def fs_bread_def sb_bread_def)
  next
    case (Suc f)
    show ?thesis
      using spfs_btree_insert_with_root [OF assms(1) Some _ assms(3) [unfolded Suc]] assms(2) Some by simp
  qed
qed

section \<open>Splitting a full node\<close>

text \<open>The distance to an entry beyond the sixth is more than 100 bytes: its index is the capacity.\<close>

lemma bnode_index_of_far: "6 < i \<Longrightarrow> i < 2 ^ 32 \<Longrightarrow> bnode_index_of (eptr i) = bnode_capacity"
proof -
  assume i: "6 < i" "i < 2 ^ 32"
  have u: "unat (eptr i) = 4 + 16 * i" "unat (eptr 0) = 4" using i(2) by (simp_all add: unat_eptr)
  then have "eptr 0 \<le> eptr i" by (simp add: word_le_nat_alt)
  then have "unat (eptr i - eptr 0) = 16 * i" using u by (simp add: unat_sub)
  then show ?thesis
    using i(1) \<open>eptr 0 \<le> eptr i\<close> by (simp add: bnode_index_of_def eptr_0 bnode_capacity_def Let_def not_less)
qed

lemma bnode_median_entry:
  assumes "bnode_median b e = Done (InNode p)" and "bnode_length b = Done 100"
  shows "p = eptr 50 \<or> p = eptr 49"
proof -
  have m: "bnode_get_entry 50 = eptr 50" "eptr 50 - of_nat sizeof_bentry = eptr 49"
    by (simp_all add: bnode_get_entry_eptr eptr_def sizeof_bentry_def)
  show ?thesis
    using assms by (auto simp: bnode_median_def bnode_is_full_def Let_def bnd_Done_iff bug_on_Done_iff
        bnode_capacity_def m split: if_splits)
qed

lemma bnode_extract_far:
  assumes "needle = InNode (eptr i)" and "6 < i" and "i < 2 ^ 32"
  shows "bnode_extract s tree needle dest right \<noteq> Done r"
  using assms bnode_index_of_far
  by (auto simp: bnode_extract_def index_of_ptr_def bnd_Done_iff bug_on_Done_iff Let_def)

lemma btree_fixup_full_entry:
  assumes b: "d_blocks (s_dev s) tree = Some b" "bnode_length b = Done 100"
    and med: "bnode_median b (bb_entry bubble) = Done (InNode p)"
    and fx: "btree_fixup s tree bubble = Done (res, bubble', s')"
  shows "res = - EIO"
proof -
  have p: "p = eptr 50 \<or> p = eptr 49" using bnode_median_entry [OF med b(2)] .
  obtain right s1 where a: "fs_alloc s (tree_blocks s) = (right, s1)" by fastforce
  have extr: "bnode_extract t tree (InNode p) bubble right \<noteq> Done r" for t r
    using p
  proof (elim disjE)
    assume "p = eptr 50"
    then show ?thesis by (intro bnode_extract_far [of _ 50]) simp_all
  next
    assume "p = eptr 49"
    then show ?thesis by (intro bnode_extract_far [of _ 49]) simp_all
  qed
  have "fs_bread s1 right = None"
  proof (rule ccontr)
    assume "fs_bread s1 right \<noteq> None"
    then obtain bh s2 where r: "fs_bread s1 right = Some (bh, s2)" by auto
    show False
      using fx b med a r extr
      by (auto simp: btree_fixup_def fs_get_def get_buf_def bnode_is_full_def bnode_capacity_def
          bnd_Done_iff bug_on_Done_iff Let_def)
  qed
  then show ?thesis
    using fx b med a
    by (auto simp: btree_fixup_def fs_get_def get_buf_def bnode_is_full_def bnode_capacity_def
        bug_on_Done_iff Let_def)
qed

section \<open>A sample file system without a tree\<close>

definition empty_fs :: spfs where
  "empty_fs = sample_fs\<lparr>s_dev := \<lparr>d_blocks = [0 \<mapsto> replicate 2048 1, 10 \<mapsto> replicate 2048 0,
       11 \<mapsto> replicate 2048 0], d_dirty = {}, d_refs = \<lambda>_. 0\<rparr>,
     tree_start := 0, sbi_free_list := \<lparr>fl_blocks = 10, fl_root = [\<lparr>fn_start = 2, fn_blocks = 10\<rparr>]\<rparr>\<rparr>"

definition empty_fs_taken :: "u32 \<Rightarrow> spfs_free_list" where
  "empty_fs_taken n = \<lparr>fl_blocks = n, fl_root = [\<lparr>fn_start = 2, fn_blocks = n\<rparr>]\<rparr>"

lemma empty_fs_allocs:
  "spfs_free_alloc (sbi_free_list empty_fs) (tree_blocks empty_fs) = (11, empty_fs_taken 9)"
  "spfs_free_alloc (empty_fs_taken 9) (tree_blocks empty_fs) = (10, empty_fs_taken 8)"
  by (simp_all add: empty_fs_def empty_fs_taken_def sample_fs_def spfs_free_alloc_def)

lemma empty_fs_simps:
  "tree_start empty_fs = 0" "d_blocks (s_dev empty_fs) 11 = Some (replicate 2048 0)"
  "d_blocks (s_dev empty_fs) 10 = Some (replicate 2048 0)"
  "d_blocks (s_dev empty_fs) 0 = Some (replicate 2048 1)" "low32 (i_ino sample_inode) \<noteq> 0"
  by (simp_all add: empty_fs_def sample_fs_def sample_inode_def low32_def)

section \<open>Properties\<close>

text \<open>
  C10: The first insertion into an empty tree stores the inode in a new block, from which it can
  be parsed; it takes a second block and makes it the root, but writes the node of the root,
  with the one entry, into block 0. No other block changes, both allocations are accounted for.
\<close>

theorem btree_first_insertion:
  assumes "tree_start s = 0"
    and "spfs_free_alloc (sbi_free_list s) (tree_blocks s) = (page, fl1)" and "page \<noteq> 0"
    and "spfs_free_alloc fl1 (tree_blocks s) = (root, fl2)" and "root \<noteq> 0"
    and "d_blocks (s_dev s) page = Some b" and "294 \<le> length b"
    and "d_blocks (s_dev s) 0 = Some b0" and "1620 \<le> length b0" and "low32 (i_ino inode) \<noteq> 0"
  shows "\<exists>s' pb rb. spfs_btree_insert fuel env s inode = Done (0, s') \<and>
    tree_start s' = root \<and> sbi_free_list s' = fl2 \<and>
    d_blocks (s_dev s') = (d_blocks (s_dev s))(page \<mapsto> pb, 0 \<mapsto> rb) \<and>
    spfs_inode_parse pb out = Done (Inr (inode_on_wire (e_frame env) inode out)) \<and>
    bnode_length rb = Done 1 \<and>
    entry_at rb 0 = Done \<lparr>be_id = be32_raw (i_ino inode), be_offset = be32_raw page\<rparr>"
proof -
  define pb where "pb = store b 0 (inode_bytes (e_frame env) inode)"
  have "spfs_inode_parse pb out = Done (Inr (inode_on_wire (e_frame env) inode out))"
    using assms(7) by (intro spfs_inode_parse_bytes) (simp_all add: pb_def)
  then show ?thesis
    using spfs_btree_insert_empty_tree [OF assms, of fuel env] assms(9)
      one_entry_node [of "bnode_make b0" "bb_entry (first_entry inode page)" "bb_greater (first_entry inode page)"]
    by (auto simp: pb_def root_node_def) (auto simp: first_entry_def bubble_make_def)
qed

theorem btree_first_insertion_witness:
  "\<exists>s' pb rb. spfs_btree_insert 0 sample_env empty_fs sample_inode = Done (0, s') \<and> tree_start s' = 10 \<and>
    sbi_free_list s' = empty_fs_taken 8 \<and>
    d_blocks (s_dev s') = (d_blocks (s_dev empty_fs))(11 \<mapsto> pb, 0 \<mapsto> rb) \<and> bnode_length rb = Done 1"
  using btree_first_insertion [OF empty_fs_simps(1) empty_fs_allocs(1) _ empty_fs_allocs(2) _
      empty_fs_simps(2) _ empty_fs_simps(4) _ empty_fs_simps(5), of 0 sample_env sample_inode]
  by auto

text \<open>
  C5: Once the tree has a root no insertion succeeds: whenever \<open>spfs_btree_insert\<close> returns,
  its code is not 0, whatever is in the tree and whichever inode is inserted (for buffers of
  less than 4 GiB).
\<close>

theorem btree_insert_needs_empty_tree:
  assumes "tree_start s \<noteq> 0" and "\<forall>n b. d_blocks (s_dev s) n = Some b \<longrightarrow> length b < 2 ^ 32"
    and "spfs_btree_insert (Suc fuel) env s inode = Done (res, s')"
  shows "res \<noteq> 0"
  using spfs_btree_insert_root_fails [OF assms(1) _ assms(3)] assms(2) by blast

theorem btree_insert_needs_empty_tree_witness:
  "\<exists>res s'. spfs_btree_insert (Suc 0) sample_env (empty_fs\<lparr>tree_start := 33\<rparr>) sample_inode = Done (res, s') \<and>
    res \<noteq> 0"
proof -
  let ?s = "empty_fs\<lparr>tree_start := 33\<rparr>"
  have "d_blocks (s_dev ?s) 33 = None" by (simp add: empty_fs_def)
  then have ins: "spfs_btree_insert (Suc 0) sample_env ?s sample_inode = Done (- EIO, ?s)"
    by (simp add: spfs_btree_insert_def fs_bread_def sb_bread_unreadable)
  have "\<forall>n b. d_blocks (s_dev ?s) n = Some b \<longrightarrow> length b < 2 ^ 32"
    by (simp add: empty_fs_def)
  from btree_insert_needs_empty_tree [OF _ this ins] ins show ?thesis by auto
qed

text \<open>
  A root without entries, which is what an uninitialised block of zeros is, stops the kernel
  with a failed assertion at the next insertion.
\<close>

theorem btree_insert_empty_root_bug:
  assumes "tree_start s \<noteq> 0" and "d_blocks (s_dev s) (tree_start s) = Some b"
    and "bnode_length b = Done 0"
  shows "spfs_btree_insert (Suc fuel) env s inode = Crash BugOn"
  using assms by (rule spfs_btree_insert_empty_root)

theorem btree_insert_empty_root_bug_witness:
  "spfs_btree_insert (Suc 0) sample_env (empty_fs\<lparr>tree_start := 10\<rparr>) sample_inode = Crash BugOn"
  using btree_insert_empty_root_bug [of "empty_fs\<lparr>tree_start := 10\<rparr>" "replicate 2048 0" 0]
    bnode_make_length [of "replicate 2048 0"]
  by (simp add: empty_fs_simps bnode_make_def)

text \<open>
  When a node has room for the entry that bubbles up, \<open>btree_fixup\<close> inserts it and leaves
  the bubble active and unchanged: the ancestors are made to insert the same entry again.
\<close>

theorem btree_fixup_keeps_bubble:
  assumes "d_blocks (s_dev s) tree = Some b" and "bnode_length b = Done 0" and "1620 \<le> length b"
    and "bubble_is_active bubble"
  shows "\<exists>b'. btree_fixup s tree bubble = Done (0, bubble, fs_put s tree b') \<and>
    bnode_length b' = Done 1 \<and> entry_at b' 0 = Done (bb_entry bubble)"
  using btree_fixup_room [OF assms] one_entry_node [OF assms(3), of "bb_entry bubble" "bb_greater bubble"]
  by blast

theorem btree_fixup_keeps_bubble_witness:
  "\<exists>b'. btree_fixup empty_fs 10 (bubble_make 7 11 0) = Done (0, bubble_make 7 11 0, fs_put empty_fs 10 b')"
  using btree_fixup_keeps_bubble [of empty_fs 10 "replicate 2048 0" "bubble_make 7 11 0"]
    bnode_make_length [of "replicate 2048 0"]
  by (auto simp: empty_fs_simps bnode_make_def bubble_is_active_def bubble_make_def low32_def)

text \<open>
  C37: Splitting a full node around one of its own entries never completes: the only way
  \<open>btree_fixup\<close> returns is that the new block could not be read.
\<close>

theorem btree_split_never_completes:
  assumes "d_blocks (s_dev s) tree = Some b" and "bnode_length b = Done 100"
    and "bnode_median b (bb_entry bubble) = Done (InNode p)"
    and "btree_fixup s tree bubble = Done (res, bubble', s')"
  shows "res = - EIO"
  using assms by (rule btree_fixup_full_entry)

definition full_node :: buf where
  "full_node = store (replicate 2500 0) 0 (be_bytes 4 100)"

lemma full_node:
  "length full_node = 2500" "bnode_length full_node = Done 100"
  "bnode_median full_node (bb_entry (bubble_make 7 11 0)) = Done (InNode (eptr 50))"
proof -
  show len: "length full_node = 2500" by (simp add: full_node_def)
  show l: "bnode_length full_node = Done 100"
    using len by (simp add: bnode_length_def mem_read_def bnode_capacity_def Let_def)
      (simp add: full_node_def be_num_be_bytes)
  have u: "unat (eptr 50) = 804" by (simp add: unat_eptr)
  have "load full_node 804 8 = replicate 8 0"
    by (simp add: full_node_def load_store_after) (simp add: load_def)
  then have "bentry_id full_node (eptr 50) = Done 0"
    by (simp add: bentry_id_cases u len of_mem_def)
  then show "bnode_median full_node (bb_entry (bubble_make 7 11 0)) = Done (InNode (eptr 50))"
    using l by (simp add: bnode_median_def bnode_is_full_def bnode_capacity_def Let_def
        bnode_get_entry_eptr spfs_be_id_cmp_def bubble_make_def low32_def)
qed

theorem btree_split_never_completes_witness:
  "\<exists>s' bubble' res. btree_fixup (fs_put (empty_fs\<lparr>sbi_free_list := empty_fs_taken 8\<rparr>) 10 full_node) 10
      (bubble_make 7 11 0) = Done (res, bubble', s') \<and> res = - EIO"
proof -
  define s where "s = fs_put (empty_fs\<lparr>sbi_free_list := empty_fs_taken 8\<rparr>) 10 full_node"
  have b: "d_blocks (s_dev s) 10 = Some full_node" by (simp add: s_def fs_put_def)
  have alloc: "fs_alloc s (tree_blocks s) = (9, s\<lparr>sbi_free_list := empty_fs_taken 7\<rparr>)"
    by (simp add: s_def fs_alloc_def fs_put_def empty_fs_taken_def spfs_free_alloc_def empty_fs_def
        sample_fs_def)
  have none: "d_blocks (s_dev s) 9 = None" by (simp add: s_def fs_put_def empty_fs_def)
  have act: "bubble_is_active (bubble_make 7 11 0)"
    by (simp add: bubble_is_active_def bubble_make_def low32_def)
  have fx: "btree_fixup s 10 (bubble_make 7 11 0) =
      Done (- EIO, bubble_make 7 11 0, s\<lparr>sbi_free_list := empty_fs_taken 7\<rparr>)"
    using b none act full_node alloc
    by (simp add: btree_fixup_def fs_get_def get_buf_def bnode_is_full_def bnode_capacity_def
        fs_bread_def sb_bread_unreadable)
  from btree_split_never_completes [OF b full_node(2,3) fx] fx show ?thesis by (auto simp: s_def)
qed

end
