(* ===== verification/Dir_Block.thy ===== *)
theory Dir_Block
  imports Fs_State
begin

text \<open>
  Directories on disk (sp.c): a chain of blocks, each with a header (magic, next block, number
  of children) and the children's inode numbers. \<open>spfs_dir_write_child\<close> places child \<open>i\<close>
  at a distance of \<open>8 * i\<close> bytes and writes 4 of them; the reader advances by 4 and skips
  zeros, so it finds the children as long as the gaps are zero.
\<close>

section \<open>The header\<close>

record spfs_dir_block =
  db_next :: u64
  db_children :: u32

definition SPOOKY_FS_DIR_BLOCK_MAGIC :: u32 where
  "SPOOKY_FS_DIR_BLOCK_MAGIC = 0xDEADBEEF"

definition spfs_parse_dir_block :: "buf \<Rightarrow> nat \<Rightarrow> (int + spfs_dir_block \<times> nat) outcome" where
  "spfs_parse_dir_block bh pos =
     read_or (spfs_sb_read_u32 bh pos) (- EINVAL) (\<lambda>magic pos.
     read_or (spfs_sb_read_sector bh pos) (- EINVAL) (\<lambda>next pos.
     read_or (spfs_sb_read_u32 bh pos) EINVAL (\<lambda>children pos.
     if magic \<noteq> SPOOKY_FS_DIR_BLOCK_MAGIC then Done (Inl (- EINVAL))
     else Done (Inr (\<lparr>db_next = next, db_children = children\<rparr>, pos)))))"

definition spfs_make_dir_block :: "buf \<Rightarrow> nat \<Rightarrow> spfs_dir_block \<Rightarrow> (int \<times> buf \<times> nat) outcome" where
  "spfs_make_dir_block bh pos block =
     write_or (spfs_sb_write_u32 bh pos SPOOKY_FS_DIR_BLOCK_MAGIC) (- EINVAL) bh pos (\<lambda>bh pos.
     write_or (spfs_sb_write_u32 bh pos (ucast (db_next block))) (- EINVAL) bh pos (\<lambda>bh pos.
     write_or (spfs_sb_write_u32 bh pos (db_children block)) EINVAL bh pos (\<lambda>bh pos.
     Done (0, bh, pos))))"

definition spfs_dir_is_full :: "spfs_dir_block \<Rightarrow> bool" where
  "spfs_dir_is_full block \<longleftrightarrow> db_children block = 100"

definition spfs_dir_write_child :: "buf \<Rightarrow> nat \<Rightarrow> nat \<Rightarrow> u64 \<Rightarrow> (int \<times> buf) outcome" where
  "spfs_dir_write_child bh start idx child =
     (let sz = 8; offset = start + idx * sz in
      bnd (spfs_sb_remaining bh offset) (\<lambda>remaining.
      if remaining < sz then Done (- EIO, bh)
      else
        bnd (spfs_sb_write_u32 bh offset (ucast child)) (\<lambda>r.
        case r of None \<Rightarrow> Done (- EIO, bh) | Some (bh, _) \<Rightarrow> Done (0, bh))))"

text \<open>
  The block allocated for a directory; 0 when there is none. The caller keeps the buffer.
  The rest of the block is not cleared.
\<close>

definition spfs_dir_block_alloc ::
  "'a spfs_scheme \<Rightarrow> nat \<Rightarrow> (u64 \<times> nat \<times> 'a spfs_scheme) outcome"
where
  "spfs_dir_block_alloc s bh_pos =
     (let (result, s) = fs_alloc s 1 in
      if result = 0 then Done (0, bh_pos, s)
      else case fs_bread s result of
        None \<Rightarrow> Done (0, bh_pos, s)
      | Some (bh, s) \<Rightarrow>
          bnd (spfs_make_dir_block bh bh_pos \<lparr>db_next = 0, db_children = 0\<rparr>) (\<lambda>(res, bh, bh_pos).
          Done (if res \<noteq> 0 then 0 else result, bh_pos, fs_put s result bh)))"

section \<open>Adding a child\<close>

text \<open>
  Writing one more child into the block \<open>n\<close> that holds \<open>block\<close>: both return codes are
  overwritten, the count is increased whether or not the child was written.
\<close>

definition dir_append_child ::
  "'a spfs_scheme \<Rightarrow> u64 \<Rightarrow> nat \<Rightarrow> spfs_dir_block \<Rightarrow> u64 \<Rightarrow> 'a spfs_scheme outcome"
where
  "dir_append_child s n bh_pos block child =
     bnd (fs_get s n) (\<lambda>bh.
     bnd (spfs_dir_write_child bh bh_pos (unat (db_children block)) child) (\<lambda>(_, bh).
     bnd (spfs_make_dir_block bh 0 (block\<lparr>db_children := db_children block + 1\<rparr>)) (\<lambda>(_, bh, _).
     Done (fs_brelse (fs_dirty (fs_put s n bh) n) n))))"

text \<open>
  The loop over the chain from \<open>start\<close>. When it ends (an empty directory, or every block is
  full) a new block is allocated and becomes \<open>parent->start\<close>.
\<close>

fun add_child_loop ::
  "nat \<Rightarrow> 'a spfs_scheme \<Rightarrow> spfs_inode \<Rightarrow> u64 \<Rightarrow> u64 \<Rightarrow> (int \<times> spfs_inode \<times> 'a spfs_scheme) outcome"
where
  "add_child_loop fuel s parent start child =
     (if start \<noteq> 0 then
        (case fs_bread s start of
           None \<Rightarrow> Done (- EIO, parent, s)
         | Some (bh, s) \<Rightarrow>
             bnd (spfs_parse_dir_block bh 0) (\<lambda>r.
             case r of
               Inl _ \<Rightarrow> Done (- EINVAL, parent, s)
             | Inr (block, bh_pos) \<Rightarrow>
                 if \<not> spfs_dir_is_full block then
                   bnd (dir_append_child s start bh_pos block child) (\<lambda>s. Done (0, parent, s))
                 else
                   (case fuel of
                      0 \<Rightarrow> Crash NoFuel
                    | Suc fuel \<Rightarrow>
                        add_child_loop fuel (fs_brelse s start) parent (db_next block) child)))
      else
        bnd (spfs_dir_block_alloc s 0) (\<lambda>(result, bh_pos, s).
        let parent = parent\<lparr>in_start := result\<rparr> in
        if result = 0 then Done (- EINVAL, parent, s)
        else
          bnd (dir_append_child s result bh_pos \<lparr>db_next = 0, db_children = 0\<rparr> child) (\<lambda>s.
          Done (0, parent, s))))"

declare add_child_loop.simps [simp del]

definition mutex_lock :: "spfs_inode \<Rightarrow> spfs_inode outcome" where
  "mutex_lock i = (if i_lock i then Crash SelfDeadlock else Done (i\<lparr>i_lock := True\<rparr>))"

definition mutex_unlock :: "spfs_inode \<Rightarrow> spfs_inode" where
  "mutex_unlock i = i\<lparr>i_lock := False\<rparr>"

definition spfs_add_child ::
  "nat \<Rightarrow> 'a spfs_scheme \<Rightarrow> spfs_inode \<Rightarrow> u64 \<Rightarrow> (int \<times> spfs_inode \<times> 'a spfs_scheme) outcome"
where
  "spfs_add_child fuel s parent child =
     bnd (mutex_lock parent) (\<lambda>parent.
     let parent = parent\<lparr>in_capacity := in_capacity parent + 1\<rparr> in
     bnd (add_child_loop fuel s parent (in_start parent) child) (\<lambda>(res, parent, s).
     Done (res, mutex_unlock parent, s)))"

section \<open>Reading the children\<close>

text \<open>
  One round of the \<open>while\<close> loop over a block, and the loop itself: \<open>visit\<close> is what the loop
  does with a number that is not 0 (find the inode, call the callback); it returns false to
  stop. The reads cannot pass the end of the block, so \<open>length bh\<close> rounds are enough. The
  result is \<open>Inl\<close> of a return code, or \<open>Inr\<close> of whether to go on.
\<close>

fun dir_children_loop ::
  "nat \<Rightarrow> ('st \<Rightarrow> u64 \<Rightarrow> (bool \<times> 'st) outcome) \<Rightarrow> buf \<Rightarrow> nat \<Rightarrow> u32 \<Rightarrow> u32 \<Rightarrow> 'st \<Rightarrow>
    ((int + bool) \<times> 'st) outcome"
where
  "dir_children_loop 0 visit bh bh_pos i children st =
     (if i < children then Crash NoFuel else Done (Inr True, st))"
| "dir_children_loop (Suc fuel) visit bh bh_pos i children st =
     (if i < children then
        bnd (spfs_sb_read_ino bh bh_pos) (\<lambda>r.
        case r of
          None \<Rightarrow> Done (Inl (- EINVAL), st)
        | Some (cur_ino, bh_pos) \<Rightarrow>
            if cur_ino \<noteq> 0 then
              bnd (visit st cur_ino) (\<lambda>(go, st).
              if \<not> go then Done (Inr False, st)
              else dir_children_loop fuel visit bh bh_pos (i + 1) children st)
            else dir_children_loop fuel visit bh bh_pos i children st)
      else Done (Inr True, st))"

end
