(* ===== verification/File_Extent.thy ===== *)
theory File_Extent
  imports Btree_Walk Dir_Block
begin

text \<open>
  Regular files (sp.c): a chain of extents, each a run of blocks whose first one starts with a
  header (magic, next extent, capacity in blocks, length in bytes), and the \<open>read\<close> and
  \<open>write\<close> operations. A user buffer is its list of bytes: \<open>src\<close> is what is left of the
  buffer a write copies from, so \<open>*in_len\<close> is its length; \<open>out\<close> is what a read has copied
  to the user so far. File positions are \<open>loff_t\<close> values that the VFS keeps non-negative and
  are numbers here; the counters of bytes stay below the size of a buffer.
\<close>

unbundle bit_operations_syntax

section \<open>The header\<close>

record spfs_file_extent =
  fe_next :: u64
  fe_capacity :: u32
  fe_length :: u32

definition SPOOKY_FS_FILE_BLOCK_MAGIC :: u32 where
  "SPOOKY_FS_FILE_BLOCK_MAGIC = 0xDEADBEEF"

definition spfs_parse_file_extent :: "buf \<Rightarrow> nat \<Rightarrow> (int + spfs_file_extent \<times> nat) outcome" where
  "spfs_parse_file_extent bh pos =
     read_or (spfs_sb_read_u32 bh pos) (- EINVAL) (\<lambda>magic pos.
     read_or (spfs_sb_read_sector bh pos) (- EINVAL) (\<lambda>next pos.
     read_or (spfs_sb_read_u32 bh pos) (- EINVAL) (\<lambda>capacity pos.
     read_or (spfs_sb_read_u32 bh pos) (- EINVAL) (\<lambda>len pos.
     if magic \<noteq> SPOOKY_FS_FILE_BLOCK_MAGIC then Done (Inl (- EINVAL))
     else Done (Inr (\<lparr>fe_next = next, fe_capacity = capacity, fe_length = len\<rparr>, pos))))))"

definition spfs_make_file_extent ::
  "buf \<Rightarrow> nat \<Rightarrow> spfs_file_extent \<Rightarrow> (int \<times> buf \<times> nat) outcome"
where
  "spfs_make_file_extent bh pos header =
     write_or (spfs_sb_write_u32 bh pos SPOOKY_FS_FILE_BLOCK_MAGIC) 1 bh pos (\<lambda>bh pos.
     write_or (spfs_sb_write_u32 bh pos (ucast (fe_next header))) 1 bh pos (\<lambda>bh pos.
     write_or (spfs_sb_write_u32 bh pos (fe_capacity header)) 1 bh pos (\<lambda>bh pos.
     write_or (spfs_sb_write_u32 bh pos (fe_length header)) 1 bh pos (\<lambda>bh pos.
     Done (0, bh, pos)))))"

definition spfs_sizeof_file_extent_header :: u64 where
  "spfs_sizeof_file_extent_header = 4 + 4 + 4 + 4"

definition spfs_file_extent_data_bytes :: "u32 \<Rightarrow> u64 \<Rightarrow> u64 outcome" where
  "spfs_file_extent_data_bytes block_size blocks =
     bug_on (blocks = 0) (Done (blocks * ucast block_size - spfs_sizeof_file_extent_header))"

section \<open>Reading\<close>

text \<open>
  One round of the \<open>do\<close> loop over the blocks of an extent: it skips towards the position and
  copies if the position is reached. The result: \<open>bh_pos\<close> is no longer needed; the length
  still to go, the bytes copied, what is left of \<open>*in_len\<close> and \<open>*pos\<close>, the count.
\<close>

definition read_extent_round ::
  "buf \<Rightarrow> nat \<Rightarrow> u32 \<Rightarrow> byte list \<Rightarrow> nat \<Rightarrow> nat \<Rightarrow> nat \<Rightarrow>
    (u32 \<times> byte list \<times> nat \<times> nat \<times> nat) outcome"
where
  "read_extent_round bh bh_pos len out in_len pos read =
     bnd (spfs_sb_remaining bh bh_pos) (\<lambda>remaining.
     let con = min pos (min remaining (unat len));
         bh_pos = bh_pos + con; pos = pos - con; len = len - of_nat con in
     if pos = 0 then
       bnd (spfs_sb_remaining bh bh_pos) (\<lambda>remaining.
       let con = min in_len (min remaining (unat len)) in
       Done (len - of_nat con, out @ load bh bh_pos con, in_len - con, pos, read + con))
     else Done (len, out, in_len, pos, read))"

text \<open>The loop goes on as long as \<open>header.length\<close> has not been counted down to 0.\<close>

fun read_extent_loop ::
  "nat \<Rightarrow> 'a spfs_scheme \<Rightarrow> u64 \<Rightarrow> buf \<Rightarrow> nat \<Rightarrow> u32 \<Rightarrow> byte list \<Rightarrow> nat \<Rightarrow> nat \<Rightarrow> nat \<Rightarrow>
    (int \<times> byte list \<times> nat \<times> nat \<times> 'a spfs_scheme) outcome"
where
  "read_extent_loop 0 s start bh bh_pos len out in_len pos read = Crash NoFuel"
| "read_extent_loop (Suc fuel) s start bh bh_pos len out in_len pos read =
     bnd (read_extent_round bh bh_pos len out in_len pos read)
       (\<lambda>(len, out, in_len, pos, read).
     if len = 0 then Done (int read, out, in_len, pos, fs_brelse s start)
     else
       case fs_bread (fs_brelse s start) (start + 1) of
         None \<Rightarrow> Done (- EIO, out, in_len, pos, fs_brelse s start)
       | Some (bh, s) \<Rightarrow> read_extent_loop fuel s (start + 1) bh 0 len out in_len pos read)"

text \<open>\<open>next\<close> is what \<open>*next\<close> holds before the call; a failing call leaves it.\<close>

definition spfs_read_file_extent ::
  "nat \<Rightarrow> 'a spfs_scheme \<Rightarrow> u64 \<Rightarrow> u64 \<Rightarrow> byte list \<Rightarrow> nat \<Rightarrow> nat \<Rightarrow>
    (int \<times> u64 \<times> byte list \<times> nat \<times> nat \<times> 'a spfs_scheme) outcome"
where
  "spfs_read_file_extent fuel s next start out in_len pos =
     (case fs_bread s start of
        None \<Rightarrow> Done (- EIO, next, out, in_len, pos, s)
      | Some (bh, s) \<Rightarrow>
          bnd (spfs_parse_file_extent bh 0) (\<lambda>r.
          case r of
            Inl res \<Rightarrow> Done (res, next, out, in_len, pos, s)
          | Inr (header, bh_pos) \<Rightarrow>
              bnd (read_extent_loop fuel s start bh bh_pos (fe_length header) out in_len pos 0)
                (\<lambda>(res, out, in_len, pos, s). Done (res, fe_next header, out, in_len, pos, s))))"

text \<open>The loop over the extents (\<open>goto Lit\<close>): \<open>Inl\<close> is the early return of a failed read.\<close>

fun read_extents ::
  "nat \<Rightarrow> nat \<Rightarrow> 'a spfs_scheme \<Rightarrow> u64 \<Rightarrow> byte list \<Rightarrow> nat \<Rightarrow> nat \<Rightarrow> int \<Rightarrow>
    ((int + int) \<times> byte list \<times> 'a spfs_scheme) outcome"
where
  "read_extents 0 bfuel s start out in_len pos read =
     (if start = 0 then Done (Inr read, out, s) else Crash NoFuel)"
| "read_extents (Suc fuel) bfuel s start out in_len pos read =
     (if start = 0 then Done (Inr read, out, s)
      else
        bnd (spfs_read_file_extent bfuel s 0 start out in_len pos) (\<lambda>(res, next, out, in_len, pos, s).
        if res < 0 then Done (Inl res, out, s)
        else if 0 < in_len then read_extents fuel bfuel s next out in_len pos (read + res)
        else Done (Inr (read + res), out, s)))"

definition S_ISREG :: "u16 \<Rightarrow> bool" where "S_ISREG mode \<longleftrightarrow> mode AND 0xF000 = 0x8000"
definition S_ISDIR :: "u16 \<Rightarrow> bool" where "S_ISDIR mode \<longleftrightarrow> mode AND 0xF000 = 0x4000"

text \<open>
  \<open>spfs_read\<close>: \<open>fuel\<close> bounds the extents, \<open>bfuel\<close> the blocks of one. The early return of a
  failed extent leaves the inode's mutex locked and \<open>*ppos\<close> as it was.
\<close>

definition spfs_read ::
  "nat \<Rightarrow> nat \<Rightarrow> 'a spfs_scheme \<Rightarrow> spfs_inode \<Rightarrow> nat \<Rightarrow> nat option \<Rightarrow>
    (int \<times> byte list \<times> spfs_inode \<times> nat option \<times> 'a spfs_scheme) outcome"
where
  "spfs_read fuel bfuel s inode in_len ppos =
     (case ppos of
        None \<Rightarrow> Done (- EINVAL, [], inode, ppos, s)
      | Some pos \<Rightarrow>
          if in_len = 0 then Done (0, [], inode, ppos, s)
          else if \<not> S_ISREG (i_mode inode) then Done (- EINVAL, [], inode, ppos, s)
          else
            bnd (mutex_lock inode) (\<lambda>inode.
            bnd (read_extents fuel bfuel s (in_start inode) [] in_len pos 0) (\<lambda>(r, out, s).
            case r of
              Inl res \<Rightarrow> Done (res, out, inode, ppos, s)
            | Inr read \<Rightarrow>
                Done (read, out, mutex_unlock inode, Some (nat (int pos + read)), s))))"

section \<open>Growing a file\<close>

record spfs_modify_start =
  ms_start :: u64
  ms_capacity :: u64

definition spfs_modify_start_cb :: "spfs_modify_start modify_cb" where
  "spfs_modify_start_cb ctx inode =
     bug_on (\<not> S_ISREG (i_mode inode))
       (Done (True, ctx, inode\<lparr>in_start := ms_start ctx, in_capacity := ucast (ms_capacity ctx)\<rparr>))"

definition spfs_file_extent_alloc ::
  "'a spfs_scheme \<Rightarrow> u64 \<Rightarrow> (u64 \<times> 'a spfs_scheme) outcome"
where
  "spfs_file_extent_alloc s blocks =
     (let (result, s) = fs_alloc s blocks in
      if result = 0 then Done (0, s)
      else case fs_bread s result of
        None \<Rightarrow> Crash BugOn
      | Some (bh, s) \<Rightarrow>
          bnd (spfs_make_file_extent bh 0
                 \<lparr>fe_next = 0, fe_capacity = ucast blocks, fe_length = 0\<rparr>) (\<lambda>(res, bh, _).
          let s = fs_put s result bh in
          if res \<noteq> 0 then Done (0, s)
          else Done (result, fs_brelse (fs_dirty s result) result)))"

text \<open>
  The loop of \<open>spfs_blocks_for\<close>. With a block size of 0 it takes nothing off \<open>bytes\<close> and
  never ends, which is \<open>NoFuel\<close> here.
\<close>

function blocks_for_loop :: "nat \<Rightarrow> nat \<Rightarrow> nat \<Rightarrow> nat outcome" where
  "blocks_for_loop block_size bytes result =
     (if bytes = 0 then Done result
      else if block_size = 0 then Crash NoFuel
      else blocks_for_loop block_size (bytes - min bytes block_size) (result + 1))"
  by pat_completeness auto
termination by (relation "measure (\<lambda>(_, bytes, _). bytes)") auto

declare blocks_for_loop.simps [simp del]

definition spfs_blocks_for :: "u32 \<Rightarrow> u64 \<Rightarrow> u64 outcome" where
  "spfs_blocks_for block_size bytes =
     bnd (blocks_for_loop (unat block_size) (unat bytes) 0) (\<lambda>n. Done (of_nat n))"

definition spfs_calc_extra_blocks :: "u32 \<Rightarrow> spfs_inode \<Rightarrow> u64 \<Rightarrow> u64 \<Rightarrow> u64 outcome" where
  "spfs_calc_extra_blocks block_size inode in_pos in_len =
     (let end = in_pos + in_len in
      if end \<le> ucast (in_capacity inode) then Done 0
      else spfs_blocks_for block_size
        (end - ucast (in_capacity inode) + spfs_sizeof_file_extent_header))"

text \<open>The result: return code, \<open>*extra\<close>, the inode, the state.\<close>

definition spfs_ensure_capacity ::
  "nat \<Rightarrow> env \<Rightarrow> 'a spfs_scheme \<Rightarrow> spfs_inode \<Rightarrow> u64 \<Rightarrow> u64 \<Rightarrow>
    (int \<times> u64 \<times> spfs_inode \<times> 'a spfs_scheme) outcome"
where
  "spfs_ensure_capacity fuel env s inode in_pos in_len =
     bnd (spfs_calc_extra_blocks (sbi_block_size s) inode in_pos in_len) (\<lambda>extra_blocks.
     if extra_blocks = 0 then Done (0, 0, inode, s)
     else
       bnd (spfs_file_extent_alloc s extra_blocks) (\<lambda>(extra, s).
       if extra = 0 then Done (- EIO, extra, inode, s)
       else
         let (inode, extra) =
               (if in_start inode = 0 then (inode\<lparr>in_start := extra\<rparr>, 0) else (inode, extra)) in
         bnd (spfs_file_extent_data_bytes (sbi_block_size s) extra_blocks) (\<lambda>bytes.
         let inode = inode\<lparr>in_capacity := ucast (ucast (in_capacity inode) + bytes)\<rparr>;
             ctx = \<lparr>ms_start = in_start inode, ms_capacity = ucast (in_capacity inode)\<rparr> in
         bnd (spfs_btree_modify fuel env s (i_ino inode) ctx spfs_modify_start_cb) (\<lambda>(res, _, s).
         Done (if res \<noteq> 0 then res else 0, extra, inode, s)))))"

section \<open>Writing\<close>

text \<open>
  The result: bytes written, the buffer, its position, what is left of the source and of
  \<open>*ppos\<close>. The position in the buffer is not advanced over the bytes written.
\<close>

definition spfs_do_write ::
  "buf \<Rightarrow> nat \<Rightarrow> byte list \<Rightarrow> nat \<Rightarrow> (nat \<times> buf \<times> nat \<times> byte list \<times> nat) outcome"
where
  "spfs_do_write bh bh_pos src pos =
     bnd (spfs_sb_remaining bh bh_pos) (\<lambda>remaining.
     let con = min pos remaining; pos = pos - con; bh_pos = bh_pos + con in
     if pos = 0 then
       bnd (spfs_sb_remaining bh bh_pos) (\<lambda>remaining.
       let con = min (length src) remaining in
       Done (con, store bh bh_pos (take con src), bh_pos, drop con src, pos))
     else Done (0, bh, bh_pos, src, pos))"

definition spfs_in_sector :: "u32 \<Rightarrow> nat \<Rightarrow> bool" where
  "spfs_in_sector block_size pos \<longleftrightarrow> pos < unat block_size"

text \<open>
  The \<open>while\<close> loop over the blocks after the first, \<open>write_block\<close> being what it does with
  one of them (\<open>None\<close> when it cannot be read). In the result of the loop \<open>Inl\<close> is the early return of a failed
  \<open>sb_bread\<close>, \<open>Inr\<close> carries \<open>head_dirty\<close>. What it writes is not added to \<open>written\<close>.
\<close>

definition write_block ::
  "'a spfs_scheme \<Rightarrow> u64 \<Rightarrow> spfs_file_extent \<Rightarrow> byte list \<Rightarrow> nat \<Rightarrow>
    (nat \<times> spfs_file_extent \<times> byte list \<times> nat \<times> 'a spfs_scheme) option outcome"
where
  "write_block s it header src pos =
     (case fs_bread s it of
        None \<Rightarrow> Done None
      | Some (bh, s) \<Rightarrow>
          bnd (spfs_do_write bh 0 src pos) (\<lambda>(res, bh, _, src, pos).
          let s = fs_put s it bh in
          Done (Some (res, header\<lparr>fe_length := fe_length header + of_nat res\<rparr>, src, pos,
            fs_brelse (if 0 < res then fs_dirty s it else s) it))))"

fun write_blocks ::
  "nat \<Rightarrow> 'a spfs_scheme \<Rightarrow> u64 \<Rightarrow> u64 \<Rightarrow> spfs_file_extent \<Rightarrow> byte list \<Rightarrow> nat \<Rightarrow> bool \<Rightarrow>
    ((int + bool) \<times> spfs_file_extent \<times> byte list \<times> nat \<times> 'a spfs_scheme) outcome"
where
  "write_blocks 0 s end it header src pos head_dirty =
     (if src \<noteq> [] \<and> it < end then Crash NoFuel
      else Done (Inr head_dirty, header, src, pos, s))"
| "write_blocks (Suc fuel) s end it header src pos head_dirty =
     (if src \<noteq> [] \<and> it < end then
        if spfs_in_sector (sbi_block_size s) pos then
          bnd (write_block s it header src pos) (\<lambda>r.
          case r of
            None \<Rightarrow> Done (Inl (- EIO), header, src, pos, s)
          | Some (res, header, src, pos, s) \<Rightarrow>
              write_blocks fuel s end (it + 1) header src pos (head_dirty \<or> 0 < res))
        else
          write_blocks fuel s end (it + 1) header src (pos - unat (sbi_block_size s)) head_dirty
      else Done (Inr head_dirty, header, src, pos, s))"

text \<open>
  The result: return code, \<open>*header\<close>, the source, \<open>*ppos\<close>, \<open>*extra\<close>, the state. A
  header that could not be parsed is left as zeros; its caller returns.
\<close>

definition spfs_write_file_extent ::
  "'a spfs_scheme \<Rightarrow> u64 \<Rightarrow> byte list \<Rightarrow> nat \<Rightarrow> u64 \<Rightarrow>
    (int \<times> spfs_file_extent \<times> byte list \<times> nat \<times> u64 \<times> 'a spfs_scheme) outcome"
where
  "spfs_write_file_extent s start src pos extra =
     (let none = \<lparr>fe_next = 0, fe_capacity = 0, fe_length = 0\<rparr> in
      case fs_bread s start of
        None \<Rightarrow> Done (- EIO, none, src, pos, extra, s)
      | Some (head_bh, s) \<Rightarrow>
          bnd (spfs_parse_file_extent head_bh 0) (\<lambda>r.
          case r of
            Inl res \<Rightarrow> Done (res, none, src, pos, extra, s)
          | Inr (header, head_pos) \<Rightarrow>
              let linked = fe_next header = 0 \<and> extra \<noteq> 0;
                  header = (if linked then header\<lparr>fe_next := extra\<rparr> else header);
                  extra = (if linked then 0 else extra) in
              bnd (spfs_do_write head_bh head_pos src pos) (\<lambda>(res, head_bh, _, src, pos).
              let written = int res;
                  header = header\<lparr>fe_length := fe_length header + of_nat res\<rparr>;
                  s = fs_put s start head_bh in
              bnd (write_blocks (unat (fe_capacity header)) s (start + ucast (fe_capacity header))
                     (start + 1) header src pos (linked \<or> 0 < res)) (\<lambda>(r, header, src, pos, s).
              case r of
                Inl e \<Rightarrow> Done (e, header, src, pos, extra, s)
              | Inr head_dirty \<Rightarrow>
                  if head_dirty then
                    bnd (fs_get s start) (\<lambda>head_bh.
                    bnd (spfs_make_file_extent head_bh 0 header) (\<lambda>(res, head_bh, _).
                    bug_on (res \<noteq> 0)
                      (Done (written, header, src, pos, extra,
                        fs_brelse (fs_dirty (fs_put s start head_bh) start) start))))
                  else Done (written, header, src, pos, extra, fs_brelse s start)))))"

text \<open>The loop over the extents; \<open>if (ires)\<close> takes every count but 0 for an error.\<close>

fun write_extents ::
  "nat \<Rightarrow> 'a spfs_scheme \<Rightarrow> u64 \<Rightarrow> byte list \<Rightarrow> nat \<Rightarrow> u64 \<Rightarrow> int \<Rightarrow>
    ((int + int) \<times> byte list \<times> u64 \<times> 'a spfs_scheme) outcome"
where
  "write_extents 0 s start src pos extra written =
     (if start = 0 then Done (Inr written, src, extra, s) else Crash NoFuel)"
| "write_extents (Suc fuel) s start src pos extra written =
     (if start = 0 then Done (Inr written, src, extra, s)
      else
        bnd (spfs_write_file_extent s start src pos extra) (\<lambda>(ires, header, src, pos, extra, s).
        if ires \<noteq> 0 then Done (Inl (- EIO), src, extra, s)
        else if src \<noteq> [] then
          write_extents fuel s (fe_next header) src pos extra (written + ires)
        else Done (Inr (written + ires), src, extra, s)))"

text \<open>
  \<open>spfs_write\<close>: \<open>interrupted\<close> says that \<open>mutex_lock_interruptible\<close> was interrupted by a
  signal. Both early returns below the lock leave the mutex locked.
\<close>

definition spfs_write ::
  "nat \<Rightarrow> nat \<Rightarrow> env \<Rightarrow> bool \<Rightarrow> 'a spfs_scheme \<Rightarrow> spfs_inode \<Rightarrow> byte list \<Rightarrow> nat option \<Rightarrow>
    (int \<times> spfs_inode \<times> nat option \<times> 'a spfs_scheme) outcome"
where
  "spfs_write fuel tfuel env interrupted s inode src ppos =
     (case ppos of
        None \<Rightarrow> Done (- EINVAL, inode, ppos, s)
      | Some p \<Rightarrow>
          if src = [] then Done (0, inode, ppos, s)
          else if \<not> S_ISREG (i_mode inode) then Done (- EINVAL, inode, ppos, s)
          else if interrupted then Done (- EINTR, inode, ppos, s)
          else
            bnd (mutex_lock inode) (\<lambda>inode.
            let orig_file_sz = i_size inode;
                p = min p (unat orig_file_sz) in
            bnd (spfs_ensure_capacity tfuel env s inode (of_nat p) (of_nat (length src)))
              (\<lambda>(res, extra, inode, s).
            if res \<noteq> 0 then Done (res, inode, Some p, s)
            else
              bnd (write_extents fuel s (in_start inode) src p extra 0) (\<lambda>(r, src, extra, s).
              case r of
                Inl e \<Rightarrow> Done (e, inode, Some p, s)
              | Inr written \<Rightarrow>
                  bug_on (extra \<noteq> 0) (bug_on (src \<noteq> []) (
                  let inode = inode\<lparr>i_size := orig_file_sz + of_int written\<rparr> in
                  Done (written, mutex_unlock inode, Some (nat (int p + written)), s)))))))"

end
