(* ===== verification/Vfs.thy ===== *)
theory Vfs
  imports Btree_Growth Super_Block File_Extent
begin

text \<open>
  The file system as the VFS sees it (sp.c): mount, inodes and their cache, creating files
  and directories, looking up a name, listing a directory, writing an inode back. An inode in
  the cache is named by its number; a pointer to it is that number, a null pointer or an
  error pointer.
\<close>

section \<open>The inode cache\<close>

record vfs = spfs +
  icache :: "u64 \<Rightarrow> spfs_inode option"

datatype iptr = ErrPtr int | NullPtr | Inode u64

text \<open>
  What the kernel gives: \<open>k_fresh n\<close> is the object \<open>iget_locked\<close> sets up for a number that
  is not in the cache (\<open>None\<close> when there is no memory; the object comes from the slab of the
  file system, whose constructor runs once per object and not per use), \<open>k_now\<close> is
  \<open>current_time\<close>, \<open>k_owner\<close> is \<open>inode_init_owner\<close>.
\<close>

record kernel =
  k_fresh :: "u64 \<Rightarrow> spfs_inode option"
  k_now :: timespec
  k_owner :: "spfs_inode \<Rightarrow> spfs_inode \<Rightarrow> u16 \<Rightarrow> spfs_inode"
  k_fsuid :: u32
  k_fsgid :: u32

text \<open>\<open>iget_locked\<close>: \<open>Some True\<close> when the inode is new, \<open>Some False\<close> when it was cached.\<close>

definition iget_locked :: "kernel \<Rightarrow> vfs \<Rightarrow> u64 \<Rightarrow> bool option \<times> vfs" where
  "iget_locked k s needle =
     (case icache s needle of
        Some _ \<Rightarrow> (Some False, s)
      | None \<Rightarrow>
          (case k_fresh k needle of
             None \<Rightarrow> (None, s)
           | Some i \<Rightarrow>
               (Some True, s\<lparr>icache := (icache s)(needle \<mapsto> i\<lparr>i_ino := needle, i_kernel := True\<rparr>)\<rparr>)))"

text \<open>
  \<open>unlock_new_inode\<close> takes the spin lock of the inode, changes its \<open>i_state\<close> and wakes the tasks
  that wait for it: all of it fields that have to be the kernel's. (In \<open>spfs_new_inode\<close> they are as
  \<open>iget_locked\<close> set them up.)
\<close>

definition unlock_new_inode :: "spfs_inode \<Rightarrow> unit outcome" where
  "unlock_new_inode i = (if i_kernel i then Done () else Crash BadAccess)"

text \<open>\<open>iget_failed\<close> takes the inode out of the cache.\<close>

definition iget_failed :: "vfs \<Rightarrow> u64 \<Rightarrow> vfs" where
  "iget_failed s n = s\<lparr>icache := (icache s)(n := None)\<rparr>"

definition get_inode :: "vfs \<Rightarrow> u64 \<Rightarrow> spfs_inode outcome" where
  "get_inode s n = (case icache s n of None \<Rightarrow> Crash NullDeref | Some i \<Rightarrow> Done i)"

definition put_inode :: "vfs \<Rightarrow> u64 \<Rightarrow> spfs_inode \<Rightarrow> vfs" where
  "put_inode s n i = s\<lparr>icache := (icache s)(n \<mapsto> i)\<rparr>"

definition spfs_inode_init_once :: "spfs_inode \<Rightarrow> spfs_inode" where
  "spfs_inode_init_once inode = inode\<lparr>i_ino := 0, i_mode := 0, i_gid := 0, i_uid := 0,
     i_atime := \<lparr>tv_sec = 0, tv_nsec = 0\<rparr>, i_mtime := \<lparr>tv_sec = 0, tv_nsec = 0\<rparr>,
     i_ctime := \<lparr>tv_sec = 0, tv_nsec = 0\<rparr>, i_nlink := 0, i_size := 0, i_lock := False, i_kernel := True,
     in_capacity := 0, in_start := 0, in_name := replicate SPOOKY_FS_NAME_MAX 0\<rparr>"

definition spfs_setup_inode_fp :: "spfs_inode \<Rightarrow> spfs_inode outcome" where
  "spfs_setup_inode_fp inode =
     (if S_ISREG (i_mode inode) then Done inode
      else if S_ISDIR (i_mode inode) then Done (inode\<lparr>i_nlink := i_nlink inode + 1\<rparr>)
      else Crash BugOn)"

definition spfs_new_inode ::
  "kernel \<Rightarrow> vfs \<Rightarrow> u64 option \<Rightarrow> u16 \<Rightarrow> (iptr \<times> vfs) outcome"
where
  "spfs_new_inode k s parent mode =
     (let needle = sbi_id s; s = s\<lparr>sbi_id := sbi_id s + 1\<rparr> in
      case iget_locked k s needle of
        (None, s) \<Rightarrow> Done (ErrPtr (- ENOMEM), s)
      | (Some new, s) \<Rightarrow>
          if new then
            bnd (get_inode s needle) (\<lambda>inode.
            bnd (case parent of
                   Some p \<Rightarrow> bnd (get_inode s p) (\<lambda>dir. Done (k_owner k dir inode mode))
                 | None \<Rightarrow> Done (inode\<lparr>i_mode := mode\<rparr>)) (\<lambda>inode.
            let inode = inode\<lparr>i_ctime := k_now k, i_atime := k_now k, i_mtime := k_now k\<rparr> in
            bnd (spfs_setup_inode_fp inode) (\<lambda>inode.
            Done (Inode needle, put_inode s needle inode))))
          else Done (ErrPtr (- ENOMEM), iget_failed s needle))"

text \<open>
  \<open>fuel\<close> bounds the depth of the tree. A number that is found in the tree has the whole object
  \<open>cur\<close> of the stack copied over the inode of the cache, its mutex and the fields of the kernel
  included.
\<close>

definition spfs_inode_by_id ::
  "kernel \<Rightarrow> nat \<Rightarrow> env \<Rightarrow> vfs \<Rightarrow> u64 \<Rightarrow> (iptr \<times> vfs) outcome"
where
  "spfs_inode_by_id k fuel env s needle =
     (case iget_locked k s needle of
        (None, s) \<Rightarrow> Done (ErrPtr (- ENOMEM), s)
      | (Some new, s) \<Rightarrow>
          if \<not> new then Done (Inode needle, s)
          else
            bnd (get_inode s needle) (\<lambda>result.
            bnd (spfs_btree_lookup fuel env s needle result) (\<lambda>(res, result, s).
            if res \<noteq> 0 then Done (NullPtr, iget_failed s needle)
            else
              bnd (spfs_setup_inode_fp result) (\<lambda>result.
              bnd (unlock_new_inode result) (\<lambda>_.
              Done (Inode needle, put_inode s needle result))))))"

section \<open>Creating\<close>

text \<open>
  \<open>name\<close> is the name of the dentry without its terminator. The result: return code, the
  inode the dentry was instantiated with.
\<close>

definition spfs_generic_create ::
  "kernel \<Rightarrow> nat \<Rightarrow> env \<Rightarrow> vfs \<Rightarrow> u64 \<Rightarrow> byte list \<Rightarrow> u16 \<Rightarrow> (int \<times> u64 option \<times> vfs) outcome"
where
  "spfs_generic_create k fuel env s parent name mode =
     (if SPOOKY_FS_NAME_MAX < length name then Done (- ENAMETOOLONG, None, s)
      else
        bnd (spfs_new_inode k s (Some parent) mode) (\<lambda>(p, s).
        case p of
          NullPtr \<Rightarrow> Done (- ENOENT, None, s)
        | ErrPtr _ \<Rightarrow> Crash NullDeref
        | Inode n \<Rightarrow>
            bnd (get_inode s n) (\<lambda>inode.
            let inode = inode\<lparr>in_name := name @ replicate (SPOOKY_FS_NAME_MAX - length name) 0\<rparr>;
                s = put_inode s n inode in
            bnd (spfs_btree_insert fuel env s inode) (\<lambda>(res, s).
            if res \<noteq> 0 then Done (res, None, s) else Done (0, Some n, s)))))"

text \<open>\<open>spfs_add_child\<close> on an inode of the cache.\<close>

definition add_child_to :: "nat \<Rightarrow> vfs \<Rightarrow> u64 \<Rightarrow> u64 \<Rightarrow> (int \<times> vfs) outcome" where
  "add_child_to fuel s parent child =
     bnd (get_inode s parent) (\<lambda>dir.
     bnd (get_inode s child) (\<lambda>inode.
     bnd (spfs_add_child fuel s dir (i_ino inode)) (\<lambda>(res, dir, s).
     Done (res, put_inode s parent dir))))"

definition spfs_create ::
  "kernel \<Rightarrow> nat \<Rightarrow> env \<Rightarrow> vfs \<Rightarrow> u64 \<Rightarrow> byte list \<Rightarrow> u16 \<Rightarrow> (int \<times> u64 option \<times> vfs) outcome"
where
  "spfs_create k fuel env s parent subject mode =
     bug_on (\<not> S_ISREG mode) (
     bnd (spfs_generic_create k fuel env s parent subject mode) (\<lambda>(res, inode, s).
     case inode of
       None \<Rightarrow> bug_on (res = 0) (Done (res, None, s))
     | Some n \<Rightarrow> bnd (add_child_to fuel s parent n) (\<lambda>(res, s). Done (res, Some n, s))))"

definition spfs_mkdir ::
  "kernel \<Rightarrow> nat \<Rightarrow> env \<Rightarrow> vfs \<Rightarrow> u64 \<Rightarrow> byte list \<Rightarrow> u16 \<Rightarrow> (int \<times> u64 option \<times> vfs) outcome"
where
  "spfs_mkdir k fuel env s parent subject mode =
     bug_on (\<not> S_ISDIR mode) (
     bnd (spfs_generic_create k fuel env s parent subject mode) (\<lambda>(res, inode, s).
     case inode of
       None \<Rightarrow> bug_on (res = 0) (Done (res, None, s))
     | Some n \<Rightarrow>
         bnd (get_inode s parent) (\<lambda>dir.
         let s = put_inode s parent (dir\<lparr>i_nlink := i_nlink dir + 1\<rparr>) in
         bnd (add_child_to fuel s parent n) (\<lambda>(res, s). Done (res, Some n, s)))))"

section \<open>The children of a directory\<close>

text \<open>
  A callback gets the child, or \<open>None\<close> for the null pointer that \<open>spfs_inode_by_id\<close> returns
  for a number that is not in the tree: \<open>IS_ERR\<close> does not catch it.
\<close>

type_synonym 'c for_all_cb = "'c \<Rightarrow> (u64 \<times> spfs_inode) option \<Rightarrow> (bool \<times> 'c) outcome"

definition visit_child ::
  "kernel \<Rightarrow> nat \<Rightarrow> env \<Rightarrow> 'c for_all_cb \<Rightarrow> 'c \<times> vfs \<Rightarrow> u64 \<Rightarrow> (bool \<times> 'c \<times> vfs) outcome"
where
  "visit_child k fuel env f st cur_ino =
     (let (closure, s) = st in
      bnd (spfs_inode_by_id k fuel env s cur_ino) (\<lambda>(p, s).
      case p of
        ErrPtr _ \<Rightarrow> Done (True, closure, s)
      | NullPtr \<Rightarrow> bnd (f closure None) (\<lambda>(go, closure). Done (go, closure, s))
      | Inode n \<Rightarrow>
          bnd (get_inode s n) (\<lambda>i.
          bnd (f closure (Some (n, i))) (\<lambda>(go, closure). Done (go, closure, s)))))"

text \<open>The loop over the blocks of the directory.\<close>

fun for_all_loop ::
  "kernel \<Rightarrow> nat \<Rightarrow> env \<Rightarrow> nat \<Rightarrow> 'c for_all_cb \<Rightarrow> 'c \<Rightarrow> vfs \<Rightarrow> u64 \<Rightarrow> (int \<times> 'c \<times> vfs) outcome"
where
  "for_all_loop k tfuel env 0 f closure s child_list =
     (if child_list = 0 then Done (0, closure, s) else Crash NoFuel)"
| "for_all_loop k tfuel env (Suc fuel) f closure s child_list =
     (if child_list = 0 then Done (0, closure, s)
      else
        case fs_bread s child_list of
          None \<Rightarrow> Done (- EIO, closure, s)
        | Some (bh, s) \<Rightarrow>
            bnd (spfs_parse_dir_block bh 0) (\<lambda>r.
            case r of
              Inl res \<Rightarrow> Done (res, closure, s)
            | Inr (block, bh_pos) \<Rightarrow>
                bnd (dir_children_loop (length bh) (visit_child k tfuel env f) bh bh_pos 0
                       (db_children block) (closure, s)) (\<lambda>(r, closure, s).
                case r of
                  Inl res \<Rightarrow> Done (res, closure, s)
                | Inr go \<Rightarrow>
                    if go then
                      for_all_loop k tfuel env fuel f closure (fs_brelse s child_list) (db_next block)
                    else Done (0, closure, fs_brelse s child_list))))"

definition spfs_for_all_children ::
  "kernel \<Rightarrow> nat \<Rightarrow> nat \<Rightarrow> env \<Rightarrow> vfs \<Rightarrow> u64 \<Rightarrow> 'c \<Rightarrow> 'c for_all_cb \<Rightarrow> (int \<times> 'c \<times> vfs) outcome"
where
  "spfs_for_all_children k tfuel fuel env s parent closure f =
     bnd (get_inode s parent) (\<lambda>dir.
     if \<not> S_ISDIR (i_mode dir) then Done (- EINVAL, closure, s)
     else
       bnd (mutex_lock dir) (\<lambda>dir.
       bnd (for_all_loop k tfuel env fuel f closure (put_inode s parent dir) (in_start dir))
         (\<lambda>(res, closure, s).
       bnd (get_inode s parent) (\<lambda>dir.
       Done (res, closure, put_inode s parent (mutex_unlock dir))))))"

section \<open>Looking up a name\<close>

text \<open>\<open>strcmp\<close> of the stored name and the one looked for, which the VFS keeps below 256 bytes.\<close>

definition c_string :: "byte list \<Rightarrow> byte list" where
  "c_string bs = takeWhile (\<lambda>b. b \<noteq> 0) bs"

definition spfs_inode_by_name_cb :: "byte list \<Rightarrow> u64 option for_all_cb" where
  "spfs_inode_by_name_cb name result cur =
     (case cur of
        None \<Rightarrow> Crash NullDeref
      | Some (n, i) \<Rightarrow>
          if c_string (in_name i) = name then Done (False, Some n) else Done (True, result))"

definition spfs_inode_by_name ::
  "kernel \<Rightarrow> nat \<Rightarrow> nat \<Rightarrow> env \<Rightarrow> vfs \<Rightarrow> u64 \<Rightarrow> byte list \<Rightarrow> (u64 option \<times> vfs) outcome"
where
  "spfs_inode_by_name k tfuel fuel env s parent name =
     bnd (spfs_for_all_children k tfuel fuel env s parent None (spfs_inode_by_name_cb name))
       (\<lambda>(_, result, s). Done (result, s))"

text \<open>The inode that is added to the dentry; \<open>None\<close> is the null pointer that is returned.\<close>

definition spfs_lookup ::
  "kernel \<Rightarrow> nat \<Rightarrow> nat \<Rightarrow> env \<Rightarrow> vfs \<Rightarrow> u64 \<Rightarrow> byte list \<Rightarrow> (u64 option \<times> vfs) outcome"
where
  "spfs_lookup k tfuel fuel env s parent name =
     bnd (spfs_inode_by_name k tfuel fuel env s parent name) (\<lambda>(result, s). Done (result, s))"

section \<open>Listing a directory\<close>

text \<open>
  \<open>dir_context\<close>: its position and \<open>'d\<close>, the state of the caller's buffer. \<open>emit\<close> and
  \<open>emit_dots\<close> are the kernel's \<open>dir_emit\<close> and \<open>dir_emit_dots\<close>. A name that fills its field
  has no terminator, and \<open>strlen\<close> runs out of it.
\<close>

record 'd iterate_ctx =
  it_pos :: nat
  dc_pos :: nat
  dc_buf :: 'd

definition spfs_iterate_cb ::
  "('d \<Rightarrow> byte list \<Rightarrow> u64 \<Rightarrow> u16 \<Rightarrow> bool \<times> 'd) \<Rightarrow> 'd iterate_ctx for_all_cb"
where
  "spfs_iterate_cb emit ctx cur =
     (case cur of
        None \<Rightarrow> Crash NullDeref
      | Some (_, i) \<Rightarrow>
          if 0 \<notin> set (in_name i) then Crash BadAccess
          else if it_pos ctx = dc_pos ctx then
            let kind = drop_bit 12 (i_mode i) AND 15;
                (result, buf) = emit (dc_buf ctx) (c_string (in_name i)) (i_ino i) kind;
                ctx = ctx\<lparr>dc_buf := buf, dc_pos := (if result then dc_pos ctx + 1 else dc_pos ctx)\<rparr> in
            Done (result, ctx\<lparr>it_pos := it_pos ctx + 1\<rparr>)
          else Done (True, ctx\<lparr>it_pos := it_pos ctx + 1\<rparr>))"

definition spfs_iterate ::
  "('d \<Rightarrow> byte list \<Rightarrow> u64 \<Rightarrow> u16 \<Rightarrow> bool \<times> 'd) \<Rightarrow> (nat \<Rightarrow> 'd \<Rightarrow> bool \<times> nat \<times> 'd) \<Rightarrow>
    kernel \<Rightarrow> nat \<Rightarrow> nat \<Rightarrow> env \<Rightarrow> vfs \<Rightarrow> u64 \<Rightarrow> nat \<Rightarrow> 'd \<Rightarrow> (int \<times> nat \<times> 'd \<times> vfs) outcome"
where
  "spfs_iterate emit emit_dots k tfuel fuel env s parent pos buf =
     bnd (get_inode s parent) (\<lambda>dir.
     let (ok, pos, buf) = emit_dots pos buf in
     if \<not> ok then Done (- EIO, pos, buf, s)
     else if unat (in_capacity dir + 2) \<le> pos then Done (0, pos, buf, s)
     else
       bnd (spfs_for_all_children k tfuel fuel env s parent
              \<lparr>it_pos = 2, dc_pos = pos, dc_buf = buf\<rparr> (spfs_iterate_cb emit)) (\<lambda>(_, ctx, s).
       Done (0, dc_pos ctx, dc_buf ctx, s)))"

section \<open>Writing an inode back\<close>

text \<open>The callback does not touch the inode it is given, which was parsed from the disk.\<close>

definition spfs_mod_inode_cb :: "spfs_inode modify_cb" where
  "spfs_mod_inode_cb closure entry = Done (True, closure, entry)"

definition spfs_write_inode ::
  "nat \<Rightarrow> env \<Rightarrow> vfs \<Rightarrow> u64 \<Rightarrow> (int \<times> vfs) outcome"
where
  "spfs_write_inode fuel env s n =
     bnd (get_inode s n) (\<lambda>inode.
     bnd (spfs_btree_modify fuel env s (i_ino inode) inode spfs_mod_inode_cb)
       (\<lambda>(res, _, s). Done (res, s)))"

section \<open>Mounting\<close>

definition mounted :: "dev \<Rightarrow> vfs" where
  "mounted d = \<lparr>s_dev = d, sbi_version = 0, sbi_magic = 0, sbi_block_size = 0,
     sbi_btree_offset = 0, sbi_free_list_offset = 0, sbi_id = 0, sbi_root_id = 0,
     tree_block_size = 0, tree_blocks = 0, tree_start = 0,
     sbi_free_list = \<lparr>fl_blocks = 0, fl_root = []\<rparr>, icache = \<lambda>_. None\<rparr>"

definition root_mode :: u16 where
  "root_mode = 0x4000 OR 0x1FF"

text \<open>
  The steps of \<open>spfs_fill_super_block\<close> up to the root inode: block size, super block, block
  size again, tree, free list.
\<close>

definition fill_super ::
  "(u64 \<Rightarrow> dev \<Rightarrow> u64 \<times> dev) \<Rightarrow> bool \<Rightarrow> (nat \<Rightarrow> bool) \<Rightarrow> nat \<Rightarrow> vfs \<Rightarrow> (int \<times> vfs) outcome"
where
  "fill_super setbs is_bdev kz fuel s =
     (let (res, s) = spfs_set_blocksize setbs is_bdev s (of_nat SPOOKY_FS_INITIAL_BLOCK_SIZE) in
      if res \<noteq> 0 then Done (res, s)
      else
        bnd (spfs_super_block_init s 0) (\<lambda>(res, s).
        if res \<noteq> 0 then Done (res, s)
        else
          let (res, s) = spfs_set_blocksize setbs is_bdev s (ucast (sbi_block_size s)) in
          if res \<noteq> 0 then Done (res, s)
          else
            let (res, s) = spfs_btree_init s (sbi_btree_offset s) in
            if res \<noteq> 0 then Done (res, s)
            else
              bnd (spfs_free_init kz fuel (s_dev s) (sbi_free_list_offset s)) (\<lambda>(res, fl, d).
              Done (res, s\<lparr>sbi_free_list := fl, s_dev := d\<rparr>))))"

text \<open>
  \<open>kz_sbi\<close>: whether the \<open>kzalloc\<close> of the private data succeeds. On an error the private
  data is freed (\<open>None\<close>); otherwise the result holds the mounted file system, whose root is
  the cached inode \<open>sbi_root_id\<close>.
\<close>

definition spfs_fill_super_block ::
  "(u64 \<Rightarrow> dev \<Rightarrow> u64 \<times> dev) \<Rightarrow> bool \<Rightarrow> bool \<Rightarrow> (nat \<Rightarrow> bool) \<Rightarrow> kernel \<Rightarrow> nat \<Rightarrow> env \<Rightarrow> dev \<Rightarrow>
    (int \<times> vfs option) outcome"
where
  "spfs_fill_super_block setbs is_bdev kz_sbi kz k fuel env d =
     (if \<not> kz_sbi then Done (- ENOMEM, None)
      else
        bnd (fill_super setbs is_bdev kz fuel (mounted d)) (\<lambda>(res, s).
        if res \<noteq> 0 then Done (res, None)
        else
          bnd (spfs_inode_by_id k fuel env s (sbi_root_id s)) (\<lambda>(root, s).
          bnd (case root of
                 NullPtr \<Rightarrow>
                   bnd (spfs_new_inode k s None root_mode) (\<lambda>(root, s).
                   case root of
                     Inode n \<Rightarrow>
                       bnd (get_inode s n) (\<lambda>i. Done (root, s\<lparr>sbi_root_id := i_ino i\<rparr>))
                   | _ \<Rightarrow> Done (root, s))
               | _ \<Rightarrow> Done (root, s)) (\<lambda>(root, s).
          case root of
            ErrPtr e \<Rightarrow> Done (e, None)
          | NullPtr \<Rightarrow> Crash NullDeref
          | Inode n \<Rightarrow>
              bnd (get_inode s n) (\<lambda>i.
              Done (0, Some (put_inode s n (i\<lparr>i_uid := k_fsuid k, i_gid := k_fsgid k\<rparr>))))))))"

definition spfs_put_super :: "vfs option \<Rightarrow> vfs option" where
  "spfs_put_super s_fs_info = (case s_fs_info of Some _ \<Rightarrow> None | None \<Rightarrow> None)"

end
