(* ===== verification/Dir_Laws.thy ===== *)
theory Dir_Laws
  imports Dir_Block
begin

text \<open>
  What the directory operations do to well-formed directory blocks: the header and the
  children can be read back, a child is appended behind the others, and a directory whose
  blocks are all full is replaced by a new block.
\<close>

section \<open>The header\<close>

definition dir_header_bytes :: "u64 \<Rightarrow> u32 \<Rightarrow> byte list" where
  "dir_header_bytes next n =
     be_bytes 4 (unat SPOOKY_FS_DIR_BLOCK_MAGIC) @ be_bytes 4 (unat (ucast next :: u32)) @
     be_bytes 4 (unat n)"

lemma length_dir_header_bytes [simp]: "length (dir_header_bytes next n) = 12"
  by (simp add: dir_header_bytes_def)

lemma spfs_make_dir_block_eq:
  "12 \<le> length b \<Longrightarrow> spfs_make_dir_block b 0 block =
    Done (0, store b 0 (dir_header_bytes (db_next block) (db_children block)), 12)"
  by (simp add: spfs_make_dir_block_def dir_header_bytes_def field_writes store_append)

lemma spfs_parse_dir_block_bytes:
  assumes "12 \<le> length b" and "load b 0 12 = dir_header_bytes next n"
  shows "spfs_parse_dir_block b 0 = Done (Inr (\<lparr>db_next = low32 next, db_children = n\<rparr>, 12))"
proof -
  have part: "load b p m = take m (drop p (dir_header_bytes next n))" if "p + m \<le> 12" for p m
    using that by (simp add: load_def drop_take min_def flip: assms(2))
  show ?thesis
    using assms(1) by (simp add: spfs_parse_dir_block_def field_reads part)
      (simp add: dir_header_bytes_def low32_def)
qed

section \<open>Well-formed blocks\<close>

text \<open>The children in their slots of 8 bytes, zeros in the gaps and in the rest of the block.\<close>

definition child_bytes :: "u64 \<Rightarrow> byte list" where
  "child_bytes c = be_bytes 4 (unat (ucast c :: u32)) @ replicate 4 0"

definition is_dir_block :: "buf \<Rightarrow> u64 \<Rightarrow> u64 list \<Rightarrow> bool" where
  "is_dir_block b next cs \<longleftrightarrow>
     low32 next = next \<and> length cs \<le> 100 \<and> 16 \<le> length b \<and> 12 + 8 * length cs \<le> length b \<and>
     (\<forall>c\<in>set cs. c \<noteq> 0 \<and> low32 c = c) \<and>
     load b 0 12 = dir_header_bytes next (of_nat (length cs)) \<and>
     drop 12 b = concat (map child_bytes cs) @ replicate (length b - 12 - 8 * length cs) 0"

lemma length_child_bytes [simp]: "length (child_bytes c) = 8"
  by (simp add: child_bytes_def)

lemma length_concat_child_bytes [simp]: "length (concat (map child_bytes cs)) = 8 * length cs"
  by (induction cs) simp_all

lemma is_dir_block_parse:
  "is_dir_block b next cs \<Longrightarrow> spfs_parse_dir_block b 0 =
    Done (Inr (\<lparr>db_next = next, db_children = of_nat (length cs)\<rparr>, 12))"
  by (simp add: is_dir_block_def spfs_parse_dir_block_bytes)

lemma unat_children: "n \<le> 100 \<Longrightarrow> unat (of_nat n :: u32) = n"
  by (simp add: unat_of_nat)

lemma children_full: "n \<le> 100 \<Longrightarrow> (of_nat n :: u32) = 100 \<longleftrightarrow> n = 100"
  by (metis unat_children of_nat_numeral order_refl)

text \<open>The block after appending \<open>c\<close>.\<close>

definition dir_appended :: "buf \<Rightarrow> u64 \<Rightarrow> nat \<Rightarrow> u64 \<Rightarrow> buf" where
  "dir_appended b next n c =
     store (store b (12 + n * 8) (be_bytes 4 (unat (ucast c :: u32)))) 0
       (dir_header_bytes next (of_nat (Suc n)))"

lemma drop_store_after:
  "off + length xs \<le> p \<Longrightarrow> off + length xs \<le> length b \<Longrightarrow> drop p (store b off xs) = drop p b"
  by (simp add: store_def)

lemma drop_store_inside:
  assumes "p \<le> off" and "off + length xs \<le> length b"
  shows "drop p (store b off xs) =
    take (off - p) (drop p b) @ xs @ drop (off - p + length xs) (drop p b)"
  using assms by (simp add: store_def drop_take)

lemma drop_dir_appended:
  assumes "20 + 8 * n \<le> length b"
  shows "drop 12 (dir_appended b next n c) =
    take (8 * n) (drop 12 b) @ be_bytes 4 (unat (ucast c :: u32)) @ drop (8 * n + 4) (drop 12 b)"
proof -
  have "drop 12 (dir_appended b next n c) =
      drop 12 (store b (12 + n * 8) (be_bytes 4 (unat (ucast c :: u32))))"
    unfolding dir_appended_def using assms by (intro drop_store_after) simp_all
  also have "\<dots> = take (8 * n) (drop 12 b) @ be_bytes 4 (unat (ucast c :: u32)) @
      drop (8 * n + 4) (drop 12 b)"
    using assms by (subst drop_store_inside) (simp_all add: mult.commute)
  finally show ?thesis .
qed

lemma drop_past: "length xs = k \<Longrightarrow> drop (k + 4) (xs @ replicate r 0) = replicate (r - 4) 0"
  by simp

lemma is_dir_block_append:
  assumes b: "is_dir_block b next cs" and room: "length cs < 100" "20 + 8 * length cs \<le> length b"
    and c: "c \<noteq> 0" "low32 c = c"
  shows "is_dir_block (dir_appended b next (length cs) c) next (cs @ [c])"
proof -
  let ?r = "length b - 12 - 8 * length cs"
  obtain m where m: "length b = 20 + 8 * length cs + m" using room(2) by (auto simp: le_iff_add)
  have body: "drop 12 b = concat (map child_bytes cs) @ replicate ?r 0"
    using b unfolding is_dir_block_def by blast
  have "drop (8 * length cs + 4) (drop 12 b) = replicate (?r - 4) 0"
    unfolding body by (rule drop_past) (rule length_concat_child_bytes)
  also have "?r - 4 = 4 + (length b - 12 - 8 * length (cs @ [c]))" by (simp add: m)
  finally have rest: "drop (8 * length cs + 4) (drop 12 b) =
      replicate 4 0 @ replicate (length b - 12 - 8 * length (cs @ [c])) 0"
    by (simp only: replicate_add)
  have len: "length (dir_appended b next (length cs) c) = length b"
    using room by (simp add: dir_appended_def)
  have "drop 12 (dir_appended b next (length cs) c) =
      concat (map child_bytes (cs @ [c])) @ replicate (length b - 12 - 8 * length (cs @ [c])) 0"
    unfolding drop_dir_appended [OF room(2)] rest unfolding body
    by (simp add: child_bytes_def)
  moreover have "load (dir_appended b next (length cs) c) 0 12 =
      dir_header_bytes next (of_nat (length (cs @ [c])))"
    using room by (simp add: dir_appended_def)
  moreover have "low32 next = next" "\<forall>c\<in>set cs. c \<noteq> 0 \<and> low32 c = c" "16 \<le> length b"
    using b unfolding is_dir_block_def by blast+
  ultimately show ?thesis
    using room c unfolding is_dir_block_def len by (intro conjI) simp_all
qed

text \<open>A block of zeros becomes an empty directory block.\<close>

lemma is_dir_block_empty:
  assumes "16 \<le> n"
  shows "is_dir_block (store (replicate n 0) 0 (dir_header_bytes 0 0)) 0 []"
  using assms by (simp add: is_dir_block_def low32_def) (simp add: store_def)

section \<open>Appending a child\<close>

lemma dir_append_child_eq:
  assumes b: "d_blocks (s_dev s) n = Some b" and room: "20 + 8 * unat (db_children block) \<le> length b"
  shows "dir_append_child s n 12 block child =
    Done (fs_brelse (fs_dirty (fs_put s n (dir_appended b (db_next block)
      (unat (db_children block)) child)) n) n)"
proof -
  have space: "\<not> length b - (12 + unat (db_children block) * 8) < 8"
    and le: "12 + unat (db_children block) * 8 + 4 \<le> length b" using room by simp_all
  have w: "spfs_dir_write_child b 12 (unat (db_children block)) child =
      Done (0, store b (12 + unat (db_children block) * 8) (be_bytes 4 (unat (ucast child :: u32))))"
    using space le fu32.wr_ok [of "12 + unat (db_children block) * 8" b]
    by (simp add: spfs_dir_write_child_def spfs_sb_remaining_def Let_def)
  have "(of_nat (Suc (unat (db_children block))) :: u32) = db_children block + 1" by simp
  then show ?thesis
    using b w room by (simp add: dir_append_child_def fs_get_def get_buf_def spfs_make_dir_block_eq
        dir_appended_def add.commute)
qed

text \<open>When the child does not fit its bytes are not written, but the count is.\<close>

lemma dir_append_child_short:
  assumes b: "d_blocks (s_dev s) n = Some b" and "16 \<le> length b"
    and "12 + 8 * unat (db_children block) \<le> length b" "length b < 20 + 8 * unat (db_children block)"
  shows "dir_append_child s n 12 block child =
    Done (fs_brelse (fs_dirty (fs_put s n
      (store b 0 (dir_header_bytes (db_next block) (db_children block + 1)))) n) n)"
proof -
  have "length b - (12 + unat (db_children block) * 8) < 8" using assms by simp
  then have "spfs_dir_write_child b 12 (unat (db_children block)) child = Done (- EIO, b)"
    using assms(3) by (simp add: spfs_dir_write_child_def spfs_sb_remaining_def Let_def mult.commute)
  then show ?thesis
    using assms by (simp add: dir_append_child_def fs_get_def get_buf_def spfs_make_dir_block_eq)
qed

section \<open>Chains\<close>

fun dir_head :: "(u64 \<times> u64 list) list \<Rightarrow> u64" where
  "dir_head [] = 0"
| "dir_head ((h, cs) # rest) = h"

fun dir_chain :: "(u64 \<Rightarrow> buf option) \<Rightarrow> (u64 \<times> u64 list) list \<Rightarrow> bool" where
  "dir_chain blk [] = True"
| "dir_chain blk ((h, cs) # rest) =
     (h \<noteq> 0 \<and> (case blk h of None \<Rightarrow> False | Some b \<Rightarrow> is_dir_block b (dir_head rest) cs) \<and>
      dir_chain blk rest)"

definition dir_children :: "(u64 \<times> u64 list) list \<Rightarrow> u64 list" where
  "dir_children chain = concat (map snd chain)"

lemma dir_chain_cong:
  "\<forall>h\<in>set (map fst chain). blk' h = blk h \<Longrightarrow> dir_chain blk' chain = dir_chain blk chain"
  by (induction blk chain rule: dir_chain.induct) auto

lemma fs_brelse_bread:
  "fs_brelse (s\<lparr>s_dev := s_dev s\<lparr>d_refs := (d_refs (s_dev s))(n := Suc (d_refs (s_dev s) n))\<rparr>\<rparr>) n = s"
  by (simp add: fs_brelse_def)

lemma fs_bread_Some:
  "d_blocks (s_dev s) n = Some b \<Longrightarrow> fs_bread s n = Some (b,
    s\<lparr>s_dev := s_dev s\<lparr>d_refs := (d_refs (s_dev s))(n := Suc (d_refs (s_dev s) n))\<rparr>\<rparr>)"
  by (simp add: fs_bread_def sb_bread_readable)

lemma fs_release_put:
  "fs_brelse (fs_dirty (fs_put (s\<lparr>s_dev := s_dev s\<lparr>d_refs := (d_refs (s_dev s))(n :=
     Suc (d_refs (s_dev s) n))\<rparr>\<rparr>) n b) n) n = fs_dirty (fs_put s n b) n"
  by (simp add: fs_defs brelse_def mark_buffer_dirty_def put_buf_def)

text \<open>Full blocks are passed over and nothing changes.\<close>

lemma add_child_loop_full:
  assumes "dir_chain (d_blocks (s_dev s)) (full @ rest)" and "\<forall>(h, cs)\<in>set full. length cs = 100"
  shows "add_child_loop (length full + fuel) s parent (dir_head (full @ rest)) child =
    add_child_loop fuel s parent (dir_head rest) child"
  using assms
proof (induction full)
  case Nil
  then show ?case by simp
next
  case (Cons f full)
  obtain h cs where f: "f = (h, cs)" by (cases f)
  from Cons.prems obtain b where h: "h \<noteq> 0" and b: "d_blocks (s_dev s) h = Some b"
    and blk: "is_dir_block b (dir_head (full @ rest)) cs" and chain: "dir_chain (d_blocks (s_dev s)) (full @ rest)"
    by (auto simp: f split: option.splits)
  have "length cs = 100" using Cons.prems by (simp add: f)
  then have "add_child_loop (Suc (length full + fuel)) s parent h child =
      add_child_loop (length full + fuel) s parent (dir_head (full @ rest)) child"
    using h by (subst add_child_loop.simps)
      (simp add: fs_bread_Some [OF b] is_dir_block_parse [OF blk] spfs_dir_is_full_def fs_brelse_bread)
  then show ?case using Cons chain by (simp add: f)
qed

lemma add_child_loop_room:
  assumes b: "d_blocks (s_dev s) h = Some b" and blk: "is_dir_block b next cs" and h: "h \<noteq> 0"
    and room: "length cs < 100" "20 + 8 * length cs \<le> length b"
  shows "add_child_loop fuel s parent h child =
    Done (0, parent, fs_dirty (fs_put s h (dir_appended b next (length cs) child)) h)"
proof -
  have n: "unat (of_nat (length cs) :: u32) = length cs" using room(1) by (simp add: unat_children)
  have "\<not> spfs_dir_is_full \<lparr>db_next = next, db_children = of_nat (length cs)\<rparr>"
    using room(1) by (simp add: spfs_dir_is_full_def children_full)
  then show ?thesis
    using h room(2) b
    by (subst add_child_loop.simps)
      (simp add: fs_bread_Some [OF b] is_dir_block_parse [OF blk] dir_append_child_eq [where b = b]
        n fs_release_put)
qed

text \<open>At the end of the chain a new block becomes the start of the directory.\<close>

lemma add_child_loop_end:
  assumes alloc: "fs_alloc s 1 = (r, s1)" "r \<noteq> 0" and b: "d_blocks (s_dev s) r = Some b"
    and size: "20 \<le> length b"
  shows "add_child_loop fuel s parent 0 child = Done (0, parent\<lparr>in_start := r\<rparr>,
    fs_dirty (fs_put s1 r (dir_appended (store b 0 (dir_header_bytes 0 0)) 0 0 child)) r)"
proof -
  have b1: "d_blocks (s_dev s1) r = Some b"
    using alloc(1) b by (auto simp: fs_alloc_eq)
  define s2 where "s2 = s1\<lparr>s_dev := s_dev s1\<lparr>d_refs := (d_refs (s_dev s1))(r :=
    Suc (d_refs (s_dev s1) r))\<rparr>\<rparr>"
  have "spfs_dir_block_alloc s 0 = Done (r, 12, fs_put s2 r (store b 0 (dir_header_bytes 0 0)))"
    using alloc size by (simp add: spfs_dir_block_alloc_def fs_bread_Some [OF b1]
        spfs_make_dir_block_eq s2_def)
  moreover have "d_blocks (s_dev (fs_put s2 r x)) r = Some x" for x by (simp add: fs_put_def)
  moreover have "fs_put (fs_put t r x) r y = fs_put t r y" for t :: "'a spfs_scheme" and x y
    by (simp add: fs_put_def put_buf_def)
  ultimately show ?thesis
    using alloc(2) size
    by (subst add_child_loop.simps)
      (simp add: dir_append_child_eq fs_release_put Let_def s2_def)
qed

lemma add_child_loop_no_space:
  "fs_alloc s 1 = (0, s') \<Longrightarrow> add_child_loop fuel s parent 0 child =
    Done (- EINVAL, parent\<lparr>in_start := 0\<rparr>, s')"
  by (subst add_child_loop.simps) (simp add: spfs_dir_block_alloc_def)

section \<open>Reading the children\<close>

text \<open>The callback on one child after the other, until it says stop.\<close>

fun visit_all :: "('st \<Rightarrow> u64 \<Rightarrow> (bool \<times> 'st) outcome) \<Rightarrow> u64 list \<Rightarrow> 'st \<Rightarrow> ((int + bool) \<times> 'st) outcome" where
  "visit_all visit [] st = Done (Inr True, st)"
| "visit_all visit (c # cs) st =
     bnd (visit st c) (\<lambda>(go, st). if \<not> go then Done (Inr False, st) else visit_all visit cs st)"

lemma read_slot:
  assumes "drop pos b = child_bytes c @ rest" and "low32 c = c"
  shows "spfs_sb_read_ino b pos = Done (Some (c, pos + 4))"
proof -
  have "length (drop pos b) = 8 + length rest" using assms(1) by simp
  then have "pos + 8 \<le> length b" by simp
  moreover have "load b pos 4 = be_bytes 4 (unat (ucast c :: u32))"
    using assms(1) by (simp add: load_def child_bytes_def)
  ultimately show ?thesis using assms(2) by (simp add: fino.rd_ok low32_def)
qed

lemma read_gap:
  assumes "drop pos b = child_bytes c @ rest" and "4 \<le> length rest"
  shows "spfs_sb_read_ino b (pos + 4) = Done (Some (0, pos + 8))"
proof -
  have "length (drop pos b) = 8 + length rest" using assms(1) by simp
  then have "pos + 12 \<le> length b" using assms(2) by simp
  moreover have "drop (pos + 4) b = drop 4 (drop pos b)" by (simp add: add.commute)
  then have "load b (pos + 4) 4 = replicate 4 0"
    using assms(1) by (simp add: load_def child_bytes_def)
  ultimately show ?thesis by (simp add: fino.rd_ok be_num_def)
qed

lemma dir_children_loop_spec:
  assumes "drop pos b = concat (map child_bytes cs) @ rest" and "2 * length cs \<le> fuel"
    and "i + length cs \<le> 100" and "\<forall>c\<in>set cs. c \<noteq> 0 \<and> low32 c = c"
  shows "dir_children_loop fuel visit b pos (of_nat i) (of_nat (i + length cs)) st =
    visit_all visit cs st"
  using assms
proof (induction cs arbitrary: fuel pos i st)
  case Nil
  then show ?case by (cases fuel) simp_all
next
  case (Cons c cs)
  define f where "f = fuel - 2"
  have f: "fuel = Suc (Suc f)" using Cons.prems(2) by (simp add: f_def)
  have less: "(of_nat i :: u32) < of_nat (i + length (c # cs))"
    using Cons.prems(3) by (simp add: word_less_nat_alt unat_children del: of_nat_add of_nat_Suc)
  have d: "drop pos b = child_bytes c @ (concat (map child_bytes cs) @ rest)"
    using Cons.prems(1) by simp
  have tail: "drop (pos + 8) b = concat (map child_bytes cs) @ rest"
  proof -
    have "drop (pos + 8) b = drop 8 (drop pos b)" by (simp add: add.commute)
    then show ?thesis by (simp add: d)
  qed
  have c: "c \<noteq> 0" "low32 c = c" using Cons.prems(4) by simp_all
  define n :: u32 where "n = of_nat (i + 1 + length cs)"
  have n: "of_nat (i + length (c # cs)) = n" by (simp add: n_def ac_simps)
  have step: "dir_children_loop fuel visit b pos (of_nat i) n st =
    bnd (visit st c) (\<lambda>(go, st). if \<not> go then Done (Inr False, st)
      else dir_children_loop (Suc f) visit b (pos + 4) (of_nat i + 1) n st)"
    using less [unfolded n] c read_slot [OF d c(2)] by (simp add: f)
  have i1: "of_nat i + 1 = (of_nat (i + 1) :: u32)" by simp
  have cont: "dir_children_loop (Suc f) visit b (pos + 4) (of_nat i + 1) n st' =
    visit_all visit cs st'" for st'
  proof (cases cs)
    case Nil
    then show ?thesis by (simp add: n_def add.commute)
  next
    case (Cons c' cs')
    then have "(of_nat (i + 1) :: u32) < of_nat (i + 1 + length cs)"
      using Cons.prems(3) by (simp add: word_less_nat_alt unat_children del: of_nat_add of_nat_Suc)
    moreover have "4 \<le> length (concat (map child_bytes cs) @ rest)" by (simp add: Cons)
    ultimately have "dir_children_loop (Suc f) visit b (pos + 4) (of_nat (i + 1)) (of_nat (i + 1 + length cs)) st' =
      dir_children_loop f visit b (pos + 8) (of_nat (i + 1)) (of_nat (i + 1 + length cs)) st'"
      using read_gap [OF d] by simp
    also have "\<dots> = visit_all visit cs st'"
      using Cons.prems tail by (intro Cons.IH) (simp_all add: f)
    finally show ?thesis unfolding i1 n_def .
  qed
  show ?case unfolding n step cont by simp
qed

lemma dir_children_loop_block:
  assumes "is_dir_block b next cs"
  shows "dir_children_loop (length b) visit b 12 0 (of_nat (length cs)) st = visit_all visit cs st"
  using assms dir_children_loop_spec [of 12 b cs _ "length b" 0 visit st]
  by (simp add: is_dir_block_def)

text \<open>The loop stops: each round reads four bytes further.\<close>

lemma dir_children_loop_stops:
  assumes "length b < pos + 4 * fuel" and "pos \<le> length b" and "\<And>st c. visit st c \<noteq> Crash NoFuel"
  shows "dir_children_loop fuel visit b pos i n st \<noteq> Crash NoFuel"
  using assms(1,2)
proof (induction fuel arbitrary: pos i st)
  case 0
  then show ?case by simp
next
  case (Suc fuel)
  show ?case
  proof (cases "pos + 8 \<le> length b")
    case False
    then show ?thesis using Suc.prems by (simp add: fino.short_read)
  next
    case True
    then have "dir_children_loop fuel visit b (pos + 4) i' n st' \<noteq> Crash NoFuel" for i' st'
      using Suc.prems by (intro Suc.IH) simp_all
    then show ?thesis
      using True assms(3) by (auto simp: fino.rd_ok bnd_def split: outcome.splits)
  qed
qed

section \<open>Chains after an addition\<close>

lemma dir_head_append: "dir_head (full @ (h, cs) # rest) = dir_head (full @ (h, cs') # rest)"
  by (cases full) auto

lemma dir_chain_at:
  "dir_chain blk (full @ (h, cs) # rest) \<Longrightarrow>
    \<exists>b. h \<noteq> 0 \<and> blk h = Some b \<and> is_dir_block b (dir_head rest) cs"
  by (induction full) (auto split: option.splits)

lemma dir_chain_update:
  assumes "dir_chain blk (full @ (h, cs) # rest)" and "h \<notin> set (map fst full) \<union> set (map fst rest)"
    and "is_dir_block b (dir_head rest) cs'"
  shows "dir_chain (blk(h \<mapsto> b)) (full @ (h, cs') # rest)"
  using assms
proof (induction full)
  case Nil
  then have "dir_chain (blk(h \<mapsto> b)) rest = dir_chain blk rest"
    by (intro dir_chain_cong) auto
  then show ?case using Nil by (auto simp del: fun_upd_apply) simp
next
  case (Cons f full)
  obtain g gs where f: "f = (g, gs)" by (cases f)
  show ?case
    using Cons dir_head_append [of full h cs rest cs'] by (auto simp: f split: option.splits)
qed

section \<open>Properties\<close>

text \<open>
  C8: Adding a child to a directory whose first block with room is \<open>h\<close> appends it to the
  children of that block: the chain is the same otherwise, the block is marked dirty, the count
  of the directory grows by one and its mutex is free again.
\<close>

theorem add_child_appends:
  assumes "dir_chain (d_blocks (s_dev s)) (full @ (h, cs) # rest)"
    and "\<forall>(g, gs)\<in>set full. length gs = 100" and "length cs < 100"
    and "h \<notin> set (map fst full) \<union> set (map fst rest)"
    and "\<forall>b. d_blocks (s_dev s) h = Some b \<longrightarrow> 20 + 8 * length cs \<le> length b"
    and "in_start parent = dir_head (full @ (h, cs) # rest)" and "\<not> i_lock parent"
    and "child \<noteq> 0" and "low32 child = child" and "length full \<le> fuel"
  shows "\<exists>s'. spfs_add_child fuel s parent child =
      Done (0, parent\<lparr>in_capacity := in_capacity parent + 1\<rparr>, s') \<and>
    dir_chain (d_blocks (s_dev s')) (full @ (h, cs @ [child]) # rest) \<and> h \<in> d_dirty (s_dev s')"
proof -
  obtain b where b: "h \<noteq> 0" "d_blocks (s_dev s) h = Some b" "is_dir_block b (dir_head rest) cs"
    using dir_chain_at [OF assms(1)] by blast
  have room: "20 + 8 * length cs \<le> length b" using assms(5) b(2) by simp
  define s' where "s' = fs_dirty (fs_put s h (dir_appended b (dir_head rest) (length cs) child)) h"
  obtain m where m: "fuel = length full + m" using assms(10) le_Suc_ex by blast
  have loop: "add_child_loop fuel s p (dir_head (full @ (h, cs) # rest)) child = Done (0, p, s')" for p
    unfolding m add_child_loop_full [OF assms(1,2)]
    using add_child_loop_room [OF b(2,3,1) assms(3) room] by (simp add: s'_def)
  have "is_dir_block (dir_appended b (dir_head rest) (length cs) child) (dir_head rest) (cs @ [child])"
    using b(3) assms(3) room assms(8,9) by (rule is_dir_block_append)
  then have "dir_chain (d_blocks (s_dev s')) (full @ (h, cs @ [child]) # rest)"
    using dir_chain_update [OF assms(1,4)] by (simp add: s'_def fs_dirty_def fs_put_def)
  moreover have "mutex_unlock (parent\<lparr>i_lock := True, in_capacity := in_capacity parent + 1\<rparr>) =
      parent\<lparr>in_capacity := in_capacity parent + 1\<rparr>"
    using assms(7) by (simp add: mutex_unlock_def)
  ultimately show ?thesis
    using assms(6,7) loop
    by (simp add: spfs_add_child_def mutex_lock_def Let_def) (simp add: s'_def fs_dirty_def fs_put_def)
qed

text \<open>A directory of one block of 1024 bytes with the child 9, and an unlocked inode for it.\<close>

definition dir_sample :: buf where
  "dir_sample = dir_appended (store (replicate 1024 0) 0 (dir_header_bytes 0 0)) 0 0 9"

lemma dir_sample: "is_dir_block dir_sample 0 [9]" "length dir_sample = 1024"
proof -
  show len: "length dir_sample = 1024" by (simp add: dir_sample_def dir_appended_def)
  show "is_dir_block dir_sample 0 [9]"
    unfolding dir_sample_def
    using is_dir_block_append [OF is_dir_block_empty [of 1024], of 9] by (simp add: low32_def)
qed

definition dir_sample_fs :: spfs where
  "dir_sample_fs = \<lparr>s_dev = \<lparr>d_blocks = [4 \<mapsto> dir_sample, 11 \<mapsto> replicate 1024 0], d_dirty = {},
       d_refs = \<lambda>_. 0\<rparr>,
     sbi_version = 1, sbi_magic = 0, sbi_block_size = 1024, sbi_btree_offset = 0,
     sbi_free_list_offset = 1, sbi_id = 8, sbi_root_id = 1, tree_block_size = 1024, tree_blocks = 1,
     tree_start = 0, sbi_free_list = \<lparr>fl_blocks = 10, fl_root = [\<lparr>fn_start = 2, fn_blocks = 10\<rparr>]\<rparr>\<rparr>"

definition dir_sample_inode :: "u64 \<Rightarrow> spfs_inode" where
  "dir_sample_inode start = \<lparr>i_ino = 1, i_mode = 0x41FF, i_gid = 0, i_uid = 0, i_atime = at_sec 0,
     i_mtime = at_sec 0, i_ctime = at_sec 0, i_nlink = 2, i_size = 0, i_lock = False, i_kernel = True,
     in_capacity = 1, in_start = start, in_name = replicate 256 0\<rparr>"

lemma dir_sample_chain: "dir_chain (d_blocks (s_dev dir_sample_fs)) [(4, [9])]"
  by (simp add: dir_sample_fs_def dir_sample)

theorem add_child_appends_witness:
  "\<exists>s'. spfs_add_child 0 dir_sample_fs (dir_sample_inode 4) 12 =
      Done (0, dir_sample_inode 4\<lparr>in_capacity := 2\<rparr>, s') \<and>
    dir_chain (d_blocks (s_dev s')) [(4, [9, 12])]"
  using add_child_appends [of dir_sample_fs "[]" 4 "[9]" "[]" "dir_sample_inode 4" 12 0] dir_sample_chain
  by (auto simp: dir_sample_inode_def dir_sample_fs_def dir_sample low32_def)

text \<open>
  C28: When a directory has blocks, every one of them is full and a zeroed block can be allocated, the
  new child (a number below \<open>2 ^ 32\<close>) goes into the new block, which becomes the start of the
  directory and points to no other block: the chain of the directory holds this child only, and none
  of the earlier children can be reached from it any more, while the number of children that is kept
  in the inode still counts them.
\<close>

theorem add_child_full_loses_children:
  assumes "dir_chain (d_blocks (s_dev s)) full" and "\<forall>(g, gs)\<in>set full. length gs = 100" and "full \<noteq> []"
    and "in_start parent = dir_head full" and "\<not> i_lock parent" and "length full \<le> fuel"
    and "fs_alloc s 1 = (r, s1)" and "r \<noteq> 0" and "d_blocks (s_dev s) r = Some (replicate n 0)"
    and "20 \<le> n" and "child \<noteq> 0" and "low32 child = child"
  shows "\<exists>s'. spfs_add_child fuel s parent child =
      Done (0, parent\<lparr>in_capacity := in_capacity parent + 1, in_start := r\<rparr>, s') \<and>
    dir_chain (d_blocks (s_dev s')) [(r, [child])]"
proof -
  obtain m where m: "fuel = length full + m" using assms(6) le_Suc_ex by blast
  define s' where "s' = fs_dirty (fs_put s1 r (dir_appended (store (replicate n 0) 0
    (dir_header_bytes 0 0)) 0 0 child)) r"
  have "add_child_loop fuel s p (dir_head (full @ [])) child = Done (0, p\<lparr>in_start := r\<rparr>, s')" for p
    unfolding m using assms(1,2) add_child_loop_full [of s full "[]" m p child]
      add_child_loop_end [OF assms(7-9), of m p child] assms(10)
    by (simp add: s'_def)
  then have "spfs_add_child fuel s parent child = Done (0, parent\<lparr>in_capacity := in_capacity parent + 1,
      in_start := r\<rparr>, s')"
    using assms(4,5) by (simp add: spfs_add_child_def mutex_lock_def mutex_unlock_def Let_def)
  moreover have "dir_chain (d_blocks (s_dev s')) [(r, [child])]"
    using is_dir_block_append [OF is_dir_block_empty [of n], of child] assms(8,10-12)
    by (simp add: s'_def fs_dirty_def fs_put_def)
  ultimately show ?thesis by auto
qed

text \<open>A directory with one full block: it holds the children 1 to 100.\<close>

definition hundred_children :: "u64 list" where
  "hundred_children = map of_nat [1..<101]"

definition full_dir :: buf where
  "full_dir = dir_header_bytes 0 100 @ concat (map child_bytes hundred_children) @ replicate 212 0"

definition full_dir_fs :: spfs where
  "full_dir_fs = dir_sample_fs\<lparr>s_dev := \<lparr>d_blocks = [4 \<mapsto> full_dir, 11 \<mapsto> replicate 1024 0], d_dirty = {},
     d_refs = \<lambda>_. 0\<rparr>\<rparr>"

lemma hundred_children:
  "length hundred_children = 100" "\<forall>c\<in>set hundred_children. c \<noteq> 0 \<and> low32 c = c"
proof -
  show "length hundred_children = 100" by (simp add: hundred_children_def)
  have "(of_nat i :: u64) \<noteq> 0 \<and> low32 (of_nat i) = of_nat i" if "0 < i" "i < 101" for i
  proof -
    have u: "unat (of_nat i :: u64) = i" using that by (simp add: unat_of_nat)
    then have "(of_nat i :: u64) \<noteq> 0" using that(1) by (metis unat_0 less_irrefl)
    then show ?thesis using that u by (simp add: low32_small)
  qed
  then show "\<forall>c\<in>set hundred_children. c \<noteq> 0 \<and> low32 c = c"
    by (auto simp: hundred_children_def)
qed

lemma full_dir: "is_dir_block full_dir 0 hundred_children" "length full_dir = 1024"
proof -
  show len: "length full_dir = 1024" by (simp add: full_dir_def hundred_children)
  show "is_dir_block full_dir 0 hundred_children"
    unfolding is_dir_block_def len hundred_children(1) using hundred_children(2)
    by (auto simp: full_dir_def load_def low32_def)
qed

lemma full_dir_chain: "dir_chain (d_blocks (s_dev full_dir_fs)) [(4, hundred_children)]"
  by (simp add: full_dir_fs_def full_dir)

theorem add_child_full_loses_children_witness:
  "dir_chain (d_blocks (s_dev full_dir_fs)) [(4, hundred_children)] \<and>
   (\<exists>s'. spfs_add_child 1 full_dir_fs (dir_sample_inode 4) 101 =
      Done (0, dir_sample_inode 11\<lparr>in_capacity := 2\<rparr>, s') \<and>
    dir_chain (d_blocks (s_dev s')) [(11, [101])])"
  using full_dir_chain add_child_full_loses_children [OF full_dir_chain, of "dir_sample_inode 4" 1 11
      "full_dir_fs\<lparr>sbi_free_list := \<lparr>fl_blocks = 9, fl_root = [\<lparr>fn_start = 2, fn_blocks = 9\<rparr>]\<rparr>\<rparr>" 1024 101]
  by (simp add: hundred_children dir_sample_inode_def full_dir_fs_def dir_sample_fs_def low32_def fs_alloc_def
      spfs_free_alloc_def)

text \<open>
  When the block of a directory has no room for the next child, adding it reports success
  and the number of children grows, but nothing but the header of the block changes: the child
  is lost.
\<close>

theorem add_child_block_overflow:
  assumes "d_blocks (s_dev s) h = Some b" and "is_dir_block b next cs" and "h \<noteq> 0"
    and "length cs < 100" and "length b < 20 + 8 * length cs"
    and "in_start parent = h" and "\<not> i_lock parent"
  shows "spfs_add_child fuel s parent child = Done (0, parent\<lparr>in_capacity := in_capacity parent + 1\<rparr>,
    fs_dirty (fs_put s h (store b 0 (dir_header_bytes next (of_nat (length cs) + 1)))) h)"
proof -
  have n: "unat (of_nat (length cs) :: u32) = length cs" using assms(4) by (simp add: unat_children)
  have le: "16 \<le> length b" "12 + 8 * length cs \<le> length b"
    using assms(2) unfolding is_dir_block_def by blast+
  have "\<not> spfs_dir_is_full \<lparr>db_next = next, db_children = of_nat (length cs)\<rparr>"
    using assms(4) by (simp add: spfs_dir_is_full_def children_full)
  then have "add_child_loop fuel s p h child = Done (0, p,
      fs_dirty (fs_put s h (store b 0 (dir_header_bytes next (of_nat (length cs) + 1)))) h)" for p
    using assms(1,3,5) le
    by (subst add_child_loop.simps)
      (simp add: fs_bread_Some [OF assms(1)] is_dir_block_parse [OF assms(2)]
        dir_append_child_short [where b = b] n fs_release_put)
  moreover have "mutex_unlock (parent\<lparr>i_lock := True, in_capacity := in_capacity parent + 1\<rparr>) =
      parent\<lparr>in_capacity := in_capacity parent + 1\<rparr>"
    using assms(7) by (simp add: mutex_unlock_def)
  ultimately show ?thesis
    using assms(6,7) by (simp add: spfs_add_child_def mutex_lock_def Let_def)
qed

definition tiny_dir_fs :: spfs where
  "tiny_dir_fs = dir_sample_fs\<lparr>s_dev := \<lparr>d_blocks = [4 \<mapsto> store (replicate 16 0) 0 (dir_header_bytes 0 0)],
     d_dirty = {}, d_refs = \<lambda>_. 0\<rparr>\<rparr>"

theorem add_child_block_overflow_witness:
  "spfs_add_child 0 tiny_dir_fs (dir_sample_inode 4) 12 = Done (0, dir_sample_inode 4\<lparr>in_capacity := 2\<rparr>,
    fs_dirty (fs_put tiny_dir_fs 4 (store (store (replicate 16 0) 0 (dir_header_bytes 0 0)) 0
      (dir_header_bytes 0 1))) 4)"
  using add_child_block_overflow [of tiny_dir_fs 4 "store (replicate 16 0) 0 (dir_header_bytes 0 0)" 0 "[]"
      "dir_sample_inode 4" 0 12] is_dir_block_empty [of 16]
  by (simp add: tiny_dir_fs_def dir_sample_inode_def)

end
