(* ===== verification/Vfs_Laws.thy ===== *)
theory Vfs_Laws
  imports Vfs Dir_Laws
begin

text \<open>
  What the VFS operations do: looking up a name in a directory whose inodes are cached, that
  looking up and listing leave the disk alone, that writing an inode back does not carry the
  inode to the disk, and when a creation can succeed.
\<close>

section \<open>Inodes by number\<close>

lemma spfs_inode_by_id_cached:
  "icache s n = Some i \<Longrightarrow> spfs_inode_by_id k fuel env s n = Done (Inode n, s)"
  by (simp add: spfs_inode_by_id_def iget_locked_def)

text \<open>
  A number that is neither in the cache nor in the tree: the search ends early, and
  \<open>spfs_inode_by_id\<close> returns the null pointer.
\<close>

definition missing :: "kernel \<Rightarrow> nat \<Rightarrow> vfs \<Rightarrow> u64 \<Rightarrow> bool" where
  "missing k fuel s n \<longleftrightarrow> icache s n = None \<and> k_fresh k n \<noteq> None \<and>
     (\<exists>e. btree_locate fuel (d_blocks (s_dev s)) (tree_start s) n = Done (Inl e))"

lemma spfs_inode_by_id_missing:
  assumes "missing k fuel s n"
  shows "spfs_inode_by_id k fuel env s n = Done (NullPtr, s)"
proof -
  obtain i e where i: "icache s n = None" "k_fresh k n = Some i"
    and e: "btree_locate fuel (d_blocks (s_dev s)) (tree_start s) n = Done (Inl e)"
    using assms by (auto simp: missing_def)
  let ?t = "s\<lparr>icache := (icache s)(n \<mapsto> i\<lparr>i_ino := n, i_kernel := True\<rparr>)\<rparr>"
  have "spfs_btree_lookup fuel env ?t n (i\<lparr>i_ino := n, i_kernel := True\<rparr>) = 
    Done (e, i\<lparr>i_ino := n, i_kernel := True\<rparr>, ?t)"
    using e by (simp add: spfs_btree_lookup_def spfs_btree_modify_def btree_modify_loop_locate)
  moreover have "e \<noteq> 0" by (rule btree_locate_code [OF e])
  moreover have "(icache s)(n := None) = icache s" using i(1) by (simp add: fun_upd_idem)
  ultimately show ?thesis
    using i by (simp add: spfs_inode_by_id_def iget_locked_def get_inode_def iget_failed_def)
qed

text \<open>The state without the cache: what is on the disk and what the super block holds.\<close>

definition same_disk :: "vfs \<Rightarrow> vfs \<Rightarrow> bool" where
  "same_disk s s' \<longleftrightarrow> d_blocks (s_dev s') = d_blocks (s_dev s) \<and> d_dirty (s_dev s') = d_dirty (s_dev s) \<and>
     sbi_free_list s' = sbi_free_list s \<and> tree_start s' = tree_start s \<and> sbi_id s' = sbi_id s"

lemma same_disk_refl [simp]: "same_disk s s"
  by (simp add: same_disk_def)

lemma same_disk_trans [trans]: "same_disk s t \<Longrightarrow> same_disk t u \<Longrightarrow> same_disk s u"
  by (simp add: same_disk_def)

lemma same_disk_cache [simp]:
  "same_disk s (t\<lparr>icache := c\<rparr>) = same_disk s t" "same_disk (s\<lparr>icache := c\<rparr>) t = same_disk s t"
  "same_disk s (put_inode t n i) = same_disk s t" "same_disk s (iget_failed t n) = same_disk s t"
  "same_disk (put_inode s n i) t = same_disk s t" "same_disk (iget_failed s n) t = same_disk s t"
  "same_disk s (fs_brelse t m) = same_disk s t" "same_disk (fs_brelse s m) t = same_disk s t"
  by (simp_all add: same_disk_def put_inode_def iget_failed_def fs_brelse_def)

lemma iget_locked_disk: "iget_locked k s n = (r, s') \<Longrightarrow> same_disk s s'"
  by (auto simp: iget_locked_def split: option.splits)

lemma spfs_inode_by_id_disk:
  assumes "spfs_inode_by_id k fuel env s n = Done (p, s')"
  shows "same_disk s s'"
proof -
  obtain r s1 where g: "iget_locked k s n = (r, s1)" by fastforce
  note disk = iget_locked_disk [OF g]
  show ?thesis
  proof (cases "r = Some True")
    case False
    then show ?thesis using assms g disk by (auto simp: spfs_inode_by_id_def split: option.splits)
  next
    case True
    then obtain i where i: "get_inode s1 n = Done i"
      using assms g by (auto simp: spfs_inode_by_id_def bnd_Done_iff)
    then obtain res out s2 where l: "spfs_btree_lookup fuel env s1 n i = Done (res, out, s2)"
      using assms g True by (auto simp: spfs_inode_by_id_def bnd_Done_iff)
    then have "s2 = s1" by (rule spfs_btree_lookup_state)
    then show ?thesis
      using assms g True i l disk
      by (auto simp: spfs_inode_by_id_def bnd_Done_iff split: if_splits)
  qed
qed

section \<open>Walking over the children of a directory\<close>

text \<open>
  A walk over a directory changes the state only by fetching inodes by number and by getting and
  giving back buffers. A relation that is reflexive and transitive and holds across those steps,
  for the kernels and the stacks \<open>good\<close> describes, holds across the walk, whatever the callback does.
\<close>

locale walk_relation =
  fixes good :: "kernel \<Rightarrow> env \<Rightarrow> bool" and rel :: "vfs \<Rightarrow> vfs \<Rightarrow> bool"
  assumes rel_refl: "rel s s"
    and rel_trans: "rel s t \<Longrightarrow> rel t u \<Longrightarrow> rel s u"
    and rel_bread: "fs_bread s n = Some (b, t) \<Longrightarrow> rel s t"
    and rel_brelse: "rel s (fs_brelse s n)"
    and rel_by_id: "good k env \<Longrightarrow> spfs_inode_by_id k fuel env s n = Done (p, t) \<Longrightarrow> rel s t"
begin

lemma visit_child:
  assumes "good k env" and "visit_child k fuel env f (c, s) n = Done (go, c', s')"
  shows "rel s s'"
proof -
  obtain p s1 where p: "spfs_inode_by_id k fuel env s n = Done (p, s1)"
    using assms by (auto simp: visit_child_def bnd_Done_iff)
  then show ?thesis
    using assms rel_by_id [OF assms(1) p]
    by (cases p) (auto simp: visit_child_def bnd_Done_iff)
qed

lemma dir_children:
  assumes "good k env" and "dir_children_loop fuel (visit_child k tf env f) bh pos i n (c, s) = Done (r, c', s')"
  shows "rel s s'"
  using assms(2)
proof (induction fuel arbitrary: pos i c s)
  case 0
  then show ?case by (auto split: if_splits intro: rel_refl)
next
  case (Suc fuel)
  show ?case
  proof (cases "i < n")
    case False
    then show ?thesis using Suc.prems by (auto intro: rel_refl)
  next
    case True
    then obtain rd where rd: "spfs_sb_read_ino bh pos = Done rd" using Suc.prems by (auto simp: bnd_Done_iff)
    show ?thesis
    proof (cases "rd = None \<or> (\<exists>p. rd = Some (0, p))")
      case z: True
      then show ?thesis using True rd Suc.prems Suc.IH by (auto intro: rel_refl)
    next
      case False
      then obtain ino p where q: "rd = Some (ino, p)" "ino \<noteq> 0" by (cases rd) auto
      obtain go c1 s1 where v: "visit_child k tf env f (c, s) ino = Done (go, c1, s1)"
        using True rd q Suc.prems by (auto simp: bnd_Done_iff)
      then show ?thesis
        using True rd q Suc.prems Suc.IH visit_child [OF assms(1) v] rel_trans
        by (auto split: if_splits)
    qed
  qed
qed

lemma all_blocks:
  assumes "good k env" and "for_all_loop k tf env fuel f c s start = Done (res, c', s')"
  shows "rel s s'"
  using assms(2)
proof (induction fuel arbitrary: c s start)
  case 0
  then show ?case by (auto split: if_splits intro: rel_refl)
next
  case (Suc fuel)
  show ?case
  proof (cases "start = 0 \<or> fs_bread s start = None")
    case True
    then show ?thesis using Suc.prems by (cases "start = 0") (auto intro: rel_refl)
  next
    case False
    then obtain b s1 where b: "start \<noteq> 0" "fs_bread s start = Some (b, s1)" by auto
    note d1 = rel_bread [OF b(2)]
    obtain r where r: "spfs_parse_dir_block b 0 = Done r" using Suc.prems b by (auto simp: bnd_Done_iff)
    show ?thesis
    proof (cases r)
      case (Inl e)
      then show ?thesis using Suc.prems b r d1 by simp
    next
      case (Inr q)
      obtain blk p where q: "q = (blk, p)" by (cases q)
      obtain r2 c2 s2 where l: "dir_children_loop (length b) (visit_child k tf env f) b p 0
          (db_children blk) (c, s1) = Done (r2, c2, s2)"
        using Suc.prems b r Inr q by (auto simp: bnd_Done_iff)
      have d2: "rel s s2" using d1 dir_children [OF assms(1) l] by (rule rel_trans)
      then have d3: "rel s (fs_brelse s2 start)" using rel_brelse by (rule rel_trans)
      show ?thesis
        using Suc.prems b r Inr q l d2 d3 Suc.IH [of c2 "fs_brelse s2 start" "db_next blk"]
        by (auto split: sum.splits if_splits intro: rel_trans)
    qed
  qed
qed

end

lemma fs_bread_disk: "fs_bread s n = Some (b, s') \<Longrightarrow> same_disk s s'"
  by (auto simp: fs_bread_def sb_bread_Some same_disk_def)

interpretation disk_walk: walk_relation "\<lambda>_ _. True" same_disk
  by unfold_locales (auto intro: same_disk_trans fs_bread_disk spfs_inode_by_id_disk)

lemma spfs_for_all_children_disk:
  assumes "spfs_for_all_children k tf fuel env s parent c f = Done (res, c', s')"
  shows "same_disk s s'"
  using assms
  by (auto simp: spfs_for_all_children_def bnd_Done_iff dest!: disk_walk.all_blocks [OF TrueI] split: if_splits)

section \<open>Scanning the children\<close>

text \<open>
  What the callback sees of a directory whose children are in the cache or missing: for a
  missing one it gets the null pointer.
\<close>

fun scan_children ::
  "'c for_all_cb \<Rightarrow> (u64 \<Rightarrow> spfs_inode option) \<Rightarrow> u64 list \<Rightarrow> 'c \<Rightarrow> (bool \<times> 'c) outcome"
where
  "scan_children f cache [] c = Done (True, c)"
| "scan_children f cache (n # ns) c =
     bnd (f c (map_option (\<lambda>i. (n, i)) (cache n))) (\<lambda>(go, c).
     if go then scan_children f cache ns c else Done (False, c))"

definition resolved :: "kernel \<Rightarrow> nat \<Rightarrow> vfs \<Rightarrow> u64 \<Rightarrow> bool" where
  "resolved k fuel s n \<longleftrightarrow> icache s n \<noteq> None \<or> missing k fuel s n"

lemma resolved_cong:
  "icache t n = icache s n \<Longrightarrow> d_blocks (s_dev t) = d_blocks (s_dev s) \<Longrightarrow> tree_start t = tree_start s \<Longrightarrow>
    resolved k fuel t n = resolved k fuel s n"
  by (simp add: resolved_def missing_def)

lemma scan_children_append:
  "scan_children f cache (xs @ ys) c =
    bnd (scan_children f cache xs c) (\<lambda>(go, c). if go then scan_children f cache ys c else Done (False, c))"
proof (induction xs arbitrary: c)
  case Nil
  then show ?case by simp
next
  case (Cons x xs)
  show ?case
    unfolding append_Cons scan_children.simps bnd_assoc by (rule bnd_cong) (auto simp: Cons.IH)
qed

lemma visit_resolved:
  assumes "resolved k tf s n"
  shows "visit_child k tf env f (c, s) n =
    bnd (f c (map_option (\<lambda>i. (n, i)) (icache s n))) (\<lambda>(go, c). Done (go, c, s))"
proof (cases "icache s n")
  case None
  then have "missing k tf s n" using assms by (simp add: resolved_def)
  then show ?thesis using None by (simp add: visit_child_def spfs_inode_by_id_missing)
next
  case (Some i)
  then show ?thesis by (simp add: visit_child_def spfs_inode_by_id_cached get_inode_def)
qed

lemma visit_all_resolved:
  assumes "\<forall>n\<in>set ns. resolved k tf s n"
  shows "visit_all (visit_child k tf env f) ns (c, s) =
    bnd (scan_children f (icache s) ns c) (\<lambda>(go, c). Done (Inr go, c, s))"
  using assms
proof (induction ns arbitrary: c)
  case Nil
  then show ?case by simp
next
  case (Cons n ns)
  then show ?case
    by (simp add: visit_resolved bnd_assoc) (auto intro!: bnd_cong)
qed

lemma for_all_loop_resolved:
  assumes "dir_chain (d_blocks (s_dev s)) chain" and "length chain \<le> fuel"
    and "\<forall>n\<in>set (dir_children chain). resolved k tf s n"
  shows "for_all_loop k tf env fuel f c s (dir_head chain) =
    bnd (scan_children f (icache s) (dir_children chain) c) (\<lambda>(go, c). Done (0, c, s))"
  using assms
proof (induction chain arbitrary: fuel c)
  case Nil
  then show ?case by (cases fuel) (simp_all add: dir_children_def)
next
  case (Cons x chain)
  obtain h cs where x: "x = (h, cs)" by (cases x)
  obtain m where m: "fuel = Suc m" using Cons.prems(2) by (cases fuel) auto
  from Cons.prems(1) obtain b where h: "h \<noteq> 0" and b: "d_blocks (s_dev s) h = Some b"
    and blk: "is_dir_block b (dir_head chain) cs" and chain: "dir_chain (d_blocks (s_dev s)) chain"
    by (auto simp: x split: option.splits)
  define s1 where "s1 = s\<lparr>s_dev := s_dev s\<lparr>d_refs := (d_refs (s_dev s))(h := Suc (d_refs (s_dev s) h))\<rparr>\<rparr>"
  have s1: "fs_brelse s1 h = s" "icache s1 = icache s" by (simp_all add: s1_def fs_brelse_bread)
  have "resolved k tf s1 n = resolved k tf s n" for n by (intro resolved_cong) (simp_all add: s1_def)
  then have all: "\<forall>n\<in>set cs. resolved k tf s1 n" "\<forall>n\<in>set (dir_children chain). resolved k tf s n"
    using Cons.prems(3) by (auto simp: x dir_children_def)
  have "for_all_loop k tf env fuel f c s h =
    bnd (scan_children f (icache s) cs c) (\<lambda>(go, c).
      if go then for_all_loop k tf env m f c s (dir_head chain) else Done (0, c, s))"
    using h by (simp add: m fs_bread_Some [OF b] is_dir_block_parse [OF blk]
        dir_children_loop_block [OF blk] flip: s1_def)
      (auto simp: visit_all_resolved [OF all(1)] bnd_assoc s1 intro!: bnd_cong)
  also have "\<dots> = bnd (scan_children f (icache s) (dir_children (x # chain)) c) (\<lambda>(go, c). Done (0, c, s))"
    using Cons.IH [OF chain, of m] Cons.prems(2) all(2)
    by (simp add: m x dir_children_def scan_children_append bnd_assoc)
      (auto intro!: bnd_cong)
  finally show ?case by (simp add: x)
qed

lemma spfs_for_all_children_resolved:
  assumes p: "icache s parent = Some dir" "S_ISDIR (i_mode dir)" "\<not> i_lock dir"
    and chain: "in_start dir = dir_head chain" "dir_chain (d_blocks (s_dev s)) chain" "length chain \<le> fuel"
    and kids: "\<forall>n\<in>set (dir_children chain). resolved k tf s n" "parent \<notin> set (dir_children chain)"
  shows "spfs_for_all_children k tf fuel env s parent c f =
    bnd (scan_children f (icache s) (dir_children chain) c) (\<lambda>(go, c). Done (0, c, s))"
proof -
  define s1 where "s1 = put_inode s parent (dir\<lparr>i_lock := True\<rparr>)"
  have cache: "scan_children f (icache s1) ns c = scan_children f (icache s) ns c"
    if "parent \<notin> set ns" for ns c
    using that by (induction ns arbitrary: c) (auto simp: s1_def put_inode_def intro!: bnd_cong)
  have "resolved k tf s1 n = resolved k tf s n" if "n \<noteq> parent" for n
    using that by (intro resolved_cong) (simp_all add: s1_def put_inode_def)
  then have "\<forall>n\<in>set (dir_children chain). resolved k tf s1 n" using kids by metis
  then have loop: "for_all_loop k tf env fuel f c s1 (dir_head chain) =
      bnd (scan_children f (icache s1) (dir_children chain) c) (\<lambda>(go, c). Done (0, c, s1))"
    using chain(2,3) by (intro for_all_loop_resolved) (auto simp: s1_def put_inode_def)
  have undo: "put_inode s1 parent dir = s" "icache s1 parent = Some (dir\<lparr>i_lock := True\<rparr>)"
    "mutex_unlock (dir\<lparr>i_lock := True\<rparr>) = dir"
    using p by (simp_all add: s1_def put_inode_def mutex_unlock_def fun_upd_idem)
  have "spfs_for_all_children k tf fuel env s parent c f =
    bnd (for_all_loop k tf env fuel f c s1 (dir_head chain)) (\<lambda>(res, closure, s).
    bnd (get_inode s parent) (\<lambda>dir. Done (res, closure, put_inode s parent (mutex_unlock dir))))"
    using p chain(1) by (simp add: spfs_for_all_children_def get_inode_def mutex_lock_def s1_def)
  also have "\<dots> = bnd (scan_children f (icache s) (dir_children chain) c) (\<lambda>(go, c). Done (0, c, s))"
    unfolding loop cache [OF kids(2)] bnd_assoc
    by (rule bnd_cong) (auto simp: get_inode_def undo)
  finally show ?thesis .
qed

lemma spfs_for_all_children_cached:
  assumes "icache s parent = Some dir" "S_ISDIR (i_mode dir)" "\<not> i_lock dir"
    and "in_start dir = dir_head chain" "dir_chain (d_blocks (s_dev s)) chain" "length chain \<le> fuel"
    and "\<forall>n\<in>set (dir_children chain). icache s n \<noteq> None" "parent \<notin> set (dir_children chain)"
  shows "spfs_for_all_children k tf fuel env s parent c f =
    bnd (scan_children f (icache s) (dir_children chain) c) (\<lambda>(go, c). Done (0, c, s))"
  using assms by (intro spfs_for_all_children_resolved) (auto simp: resolved_def)

section \<open>Looking up a name\<close>

definition has_name :: "vfs \<Rightarrow> byte list \<Rightarrow> u64 \<Rightarrow> bool" where
  "has_name s name n = (map_option (\<lambda>i. c_string (in_name i)) (icache s n) = Some name)"

text \<open>The first child that ends the search: one with the name, or a missing one.\<close>

definition ends_search :: "vfs \<Rightarrow> byte list \<Rightarrow> u64 \<Rightarrow> bool" where
  "ends_search s name n \<longleftrightarrow> icache s n = None \<or> has_name s name n"

lemma scan_by_name:
  "scan_children (spfs_inode_by_name_cb name) (icache s) ns None =
    (case find (ends_search s name) ns of
       None \<Rightarrow> Done (True, None)
     | Some n \<Rightarrow> if icache s n = None then Crash NullDeref else Done (False, Some n))"
proof (induction ns)
  case (Cons n ns)
  then show ?case
    by (cases "icache s n"; cases "has_name s name n")
      (auto simp: spfs_inode_by_name_cb_def has_name_def ends_search_def)
qed simp

lemma find_cached:
  "\<forall>n\<in>set ns. icache s n \<noteq> None \<Longrightarrow> find (ends_search s name) ns = find (has_name s name) ns"
  by (induction ns) (auto simp: ends_search_def)

lemma spfs_lookup_resolved:
  assumes "icache s parent = Some dir" "S_ISDIR (i_mode dir)" "\<not> i_lock dir"
    and "in_start dir = dir_head chain" "dir_chain (d_blocks (s_dev s)) chain" "length chain \<le> fuel"
    and "\<forall>n\<in>set (dir_children chain). resolved k tf s n" "parent \<notin> set (dir_children chain)"
  shows "spfs_lookup k tf fuel env s parent name =
    (case find (ends_search s name) (dir_children chain) of
       None \<Rightarrow> Done (None, s)
     | Some n \<Rightarrow> if icache s n = None then Crash NullDeref else Done (Some n, s))"
  using spfs_for_all_children_resolved [OF assms, of env None "spfs_inode_by_name_cb name"]
  by (simp add: spfs_lookup_def spfs_inode_by_name_def scan_by_name bnd_assoc split: option.split)

lemma spfs_lookup_cached:
  assumes "icache s parent = Some dir" "S_ISDIR (i_mode dir)" "\<not> i_lock dir"
    and "in_start dir = dir_head chain" "dir_chain (d_blocks (s_dev s)) chain" "length chain \<le> fuel"
    and kids: "\<forall>n\<in>set (dir_children chain). icache s n \<noteq> None" and "parent \<notin> set (dir_children chain)"
  shows "spfs_lookup k tf fuel env s parent name =
    Done (find (has_name s name) (dir_children chain), s)"
proof -
  have "\<forall>n\<in>set (dir_children chain). resolved k tf s n" using kids by (simp add: resolved_def)
  moreover have "icache s n \<noteq> None" if "find (has_name s name) (dir_children chain) = Some n" for n
    using that by (auto simp: find_Some_iff has_name_def)
  ultimately show ?thesis
    using spfs_lookup_resolved [OF assms(1-6) _ assms(8)] find_cached [OF kids]
    by (auto split: option.split)
qed

section \<open>Listing\<close>

text \<open>A buffer that takes every entry.\<close>

definition emit_all :: "(byte list \<times> u64 \<times> u16) list \<Rightarrow> byte list \<Rightarrow> u64 \<Rightarrow> u16 \<Rightarrow>
  bool \<times> (byte list \<times> u64 \<times> u16) list" where
  "emit_all buf name ino kind = (True, buf @ [(name, ino, kind)])"

definition listed :: "spfs_inode \<Rightarrow> byte list \<times> u64 \<times> u16" where
  "listed i = (c_string (in_name i), i_ino i, drop_bit 12 (i_mode i) AND 15)"

lemma scan_iterate:
  assumes "\<forall>n\<in>set ns. \<exists>i. icache s n = Some i \<and> 0 \<in> set (in_name i)" and "p \<le> q"
  shows "scan_children (spfs_iterate_cb emit_all) (icache s) ns \<lparr>it_pos = p, dc_pos = q, dc_buf = buf\<rparr> =
    Done (True, \<lparr>it_pos = p + length ns, dc_pos = max q (p + length ns),
      dc_buf = buf @ map (\<lambda>n. listed (the (icache s n))) (drop (q - p) ns)\<rparr>)"
  using assms
proof (induction ns arbitrary: p q buf)
  case Nil
  then show ?case by simp
next
  case (Cons n ns)
  then obtain i where i: "icache s n = Some i" "0 \<in> set (in_name i)" by auto
  show ?case
  proof (cases "p = q")
    case True
    then show ?thesis
      using i Cons.IH [of "Suc p" "Suc q"] Cons.prems
      by (simp add: spfs_iterate_cb_def emit_all_def listed_def Let_def)
  next
    case False
    then obtain m where m: "q = Suc p + m" using Cons.prems(2) by (metis Suc_leI le_imp_less_or_eq le_iff_add)
    then show ?thesis
      using i Cons.IH [of "Suc p" q] Cons.prems
      by (simp add: spfs_iterate_cb_def Let_def Suc_diff_le)
  qed
qed

section \<open>Writing an inode back\<close>

lemma btree_visit_mod:
  "btree_visit_entry env d o' c1 spfs_mod_inode_cb =
    bnd (btree_visit_entry env d o' c2 spfs_mod_inode_cb) (\<lambda>(res, _, d). Done (res, c1, d))"
proof (cases "o' = 0 \<or> d_blocks d o' = None")
  case True
  then show ?thesis by (auto simp: btree_visit_entry_def sb_bread_unreadable)
next
  case False
  then obtain b where "o' \<noteq> 0" "d_blocks d o' = Some b" by auto
  then show ?thesis
    by (simp add: btree_visit_entry_def sb_bread_readable bnd_assoc)
      (auto intro!: bnd_cong simp: spfs_mod_inode_cb_def bnd_assoc Let_def split: sum.split)
qed

lemma spfs_btree_modify_mod:
  "spfs_btree_modify fuel env s ino c1 spfs_mod_inode_cb =
    bnd (spfs_btree_modify fuel env s ino c2 spfs_mod_inode_cb) (\<lambda>(res, _, s). Done (res, c1, s))"
  unfolding spfs_btree_modify_def btree_modify_loop_locate bnd_assoc
  by (rule bnd_cong)
    (auto simp: btree_visit_mod [of env _ _ c1 c2] bnd_assoc intro!: bnd_cong split: sum.split)

section \<open>Properties\<close>

text \<open>
  C9: A directory is an ordered list of children: when each is in the inode cache or missing from
  the tree, \<open>spfs_lookup\<close> goes through them in the order of the chain and returns the first with
  the name looked for, or the null pointer when there is none, and leaves the state as it was;
  but it dereferences a null pointer when it meets a missing child before.
\<close>

theorem lookup_scans_children:
  assumes "icache s parent = Some dir" and "S_ISDIR (i_mode dir)" and "\<not> i_lock dir"
    and "in_start dir = dir_head chain" and "dir_chain (d_blocks (s_dev s)) chain" and "length chain \<le> fuel"
    and "\<forall>n\<in>set (dir_children chain). resolved k tf s n" and "parent \<notin> set (dir_children chain)"
  shows "spfs_lookup k tf fuel env s parent name =
    (case find (ends_search s name) (dir_children chain) of
       None \<Rightarrow> Done (None, s)
     | Some n \<Rightarrow> if icache s n = None then Crash NullDeref else Done (Some n, s))"
  by (rule spfs_lookup_resolved [OF assms])

definition sample_kernel :: kernel where
  "sample_kernel = \<lparr>k_fresh = \<lambda>n. Some (dir_sample_inode 0), k_now = at_sec 0,
     k_owner = \<lambda>dir i mode. i\<lparr>i_uid := 0, i_gid := i_gid dir, i_mode := mode\<rparr>,
     k_fsuid = 0, k_fsgid = 0\<rparr>"

text \<open>A directory 1 with one child 9, named "A", both in the cache.\<close>

definition child_named :: "byte list \<Rightarrow> spfs_inode" where
  "child_named name = (dir_sample_inode 0)\<lparr>i_ino := 9, i_mode := 0x81A4,
     in_name := name @ replicate (256 - length name) 0\<rparr>"

definition sample_vfs :: vfs where
  "sample_vfs = spfs.extend dir_sample_fs \<lparr>icache = [1 \<mapsto> dir_sample_inode 4, 9 \<mapsto> child_named [65]]\<rparr>"

lemma sample_vfs_simps:
  "icache sample_vfs = [1 \<mapsto> dir_sample_inode 4, 9 \<mapsto> child_named [65]]"
  "s_dev sample_vfs = s_dev dir_sample_fs" "tree_start sample_vfs = 0"
  "sbi_free_list sample_vfs = sbi_free_list dir_sample_fs"
  by (simp_all add: sample_vfs_def spfs.extend_def dir_sample_fs_def)

lemma dir_sample_inode_simps [simp]:
  "S_ISDIR (i_mode (dir_sample_inode n))" "\<not> i_lock (dir_sample_inode n)"
  "in_start (dir_sample_inode n) = n" "in_capacity (dir_sample_inode n) = 1"
  by (simp_all add: dir_sample_inode_def S_ISDIR_def)

lemma child_named_simps [simp]:
  "i_ino (child_named name) = 9" "i_mode (child_named name) = 0x81A4"
  "in_name (child_named name) = name @ replicate (256 - length name) 0"
  by (simp_all add: child_named_def)

lemma c_string_padded: "0 \<notin> set name \<Longrightarrow> c_string (name @ replicate n 0) = name"
  by (induction name) (simp_all add: c_string_def takeWhile_eq_Nil_iff)

lemma c_string_child: "c_string (in_name (child_named [65])) = [65]"
  unfolding child_named_simps by (rule c_string_padded) simp

theorem lookup_scans_children_witness:
  "spfs_lookup sample_kernel 0 1 sample_env sample_vfs 1 [65] = Done (Some 9, sample_vfs) \<and>
   spfs_lookup sample_kernel 0 1 sample_env sample_vfs 1 [66] = Done (None, sample_vfs)"
  using lookup_scans_children [of sample_vfs 1 "dir_sample_inode 4" "[(4, [9])]" 1 sample_kernel 0 sample_env] dir_sample_chain
  by (simp add: sample_vfs_simps dir_children_def has_name_def ends_search_def resolved_def c_string_child
      del: child_named_simps)

text \<open>When all the children are cached, the first with the name.\<close>

theorem lookup_finds_first:
  assumes "icache s parent = Some dir" and "S_ISDIR (i_mode dir)" and "\<not> i_lock dir"
    and "in_start dir = dir_head chain" and "dir_chain (d_blocks (s_dev s)) chain" and "length chain \<le> fuel"
    and "\<forall>n\<in>set (dir_children chain). icache s n \<noteq> None" and "parent \<notin> set (dir_children chain)"
  shows "spfs_lookup k tf fuel env s parent name =
    Done (find (has_name s name) (dir_children chain), s)"
  by (rule spfs_lookup_cached [OF assms])

theorem lookup_finds_first_witness:
  "spfs_lookup sample_kernel 0 1 sample_env sample_vfs 1 [66] = Done (None, sample_vfs)"
  using lookup_finds_first [of sample_vfs 1 "dir_sample_inode 4" "[(4, [9])]" 1 sample_kernel 0 sample_env] dir_sample_chain
  by (simp add: sample_vfs_simps dir_children_def has_name_def c_string_child del: child_named_simps)

text \<open>
  C20: Listing a directory from position \<open>pos\<close> (2 for the entry after the dots) hands every
  cached child from there on to the caller, in the order of the chain, each once, with its name
  up to the terminator, its number and the type bits of its mode, and moves the position behind
  the last one.
\<close>

theorem iterate_lists_rest:
  assumes "icache s parent = Some dir" and "S_ISDIR (i_mode dir)" and "\<not> i_lock dir"
    and "in_start dir = dir_head chain" and "dir_chain (d_blocks (s_dev s)) chain" and "length chain \<le> fuel"
    and "\<forall>n\<in>set (dir_children chain). \<exists>i. icache s n = Some i \<and> 0 \<in> set (in_name i)"
    and "parent \<notin> set (dir_children chain)"
    and "emit_dots pos buf = (True, pos, buf)" and "2 \<le> pos"
    and "unat (in_capacity dir) = length (dir_children chain)" and "length (dir_children chain) < 2 ^ 31"
  shows "spfs_iterate emit_all emit_dots k tf fuel env s parent pos buf =
    Done (0, max pos (2 + length (dir_children chain)),
      buf @ map (\<lambda>n. listed (the (icache s n))) (drop (pos - 2) (dir_children chain)), s)"
proof -
  let ?ns = "dir_children chain"
  have cap: "unat (in_capacity dir + 2) = length ?ns + 2"
    using assms(11,12) by (simp add: unat_word_ariths)
  have kids: "\<forall>n\<in>set ?ns. icache s n \<noteq> None" using assms(7) by auto
  show ?thesis
  proof (cases "length ?ns + 2 \<le> pos")
    case True
    then have "max pos (2 + length ?ns) = pos" "drop (pos - 2) ?ns = []" by simp_all
    then show ?thesis
      using True cap assms(1,9) by (simp add: spfs_iterate_def get_inode_def)
  next
    case False
    then show ?thesis
      using cap assms(1,9)
      by (simp add: spfs_iterate_def get_inode_def
          spfs_for_all_children_cached [OF assms(1-6) kids assms(8)]
          scan_iterate [where buf = buf, OF assms(7,10)])
  qed
qed

theorem iterate_lists_rest_witness:
  "spfs_iterate emit_all (\<lambda>p b. (True, p, b)) sample_kernel 0 1 sample_env sample_vfs 1 2 [] =
    Done (0, 3, [([65], 9, 8)], sample_vfs)"
  using iterate_lists_rest [of sample_vfs 1 "dir_sample_inode 4" "[(4, [9])]" 1 "\<lambda>p b. (True, p, b)" 2 "[]"
      sample_kernel 0 sample_env] dir_sample_chain
  by (simp add: sample_vfs_simps dir_children_def listed_def c_string_child del: child_named_simps(3))
    (simp add: child_named_simps(3))

text \<open>
  Walking over the children of a directory, whatever the callback does with them, never
  changes a block, marks none dirty, and leaves the free list, the root of the tree and the
  counter of inode numbers alone; only the inode cache and the references may change.
\<close>

theorem reading_leaves_disk:
  assumes "spfs_for_all_children k tf fuel env s parent c f = Done (res, c', s')"
  shows "same_disk s s'"
  using assms by (rule spfs_for_all_children_disk)

theorem reading_leaves_disk_witness:
  "same_disk sample_vfs sample_vfs \<and>
   spfs_for_all_children sample_kernel 0 1 sample_env sample_vfs 1 () (\<lambda>c i. Done (True, c)) = Done (0, (), sample_vfs)"
proof -
  have "spfs_for_all_children sample_kernel 0 1 sample_env sample_vfs 1 () (\<lambda>c i. Done (True, c)) = Done (0, (), sample_vfs)"
    using dir_sample_chain
    by (subst spfs_for_all_children_cached [where dir = "dir_sample_inode 4" and chain = "[(4, [9])]"])
      (simp_all add: sample_vfs_simps dir_children_def)
  with reading_leaves_disk [OF this] show ?thesis by simp
qed

text \<open>
  Writing an inode back does not write it: what \<open>spfs_write_inode\<close> does to the disk, and
  the code it returns, is the same whatever the cached inode holds besides its number.
\<close>

theorem write_inode_ignores_inode:
  assumes "icache s n = Some i" and "i_ino j = i_ino i"
    and "spfs_write_inode fuel env s n = Done (res, s1)"
    and "spfs_write_inode fuel env (put_inode s n j) n = Done (res', s2)"
  shows "res' = res \<and> s_dev s2 = s_dev s1"
proof -
  let ?t = "put_inode s n j"
  obtain d c where l: "btree_modify_loop fuel env (s_dev s) (tree_start s) (i_ino i) i spfs_mod_inode_cb =
      Done (res, c, d)" and d: "s_dev s1 = d"
    using assms(1,3) by (auto simp: spfs_write_inode_def get_inode_def spfs_btree_modify_def bnd_Done_iff)
  have "spfs_btree_modify fuel env ?t (i_ino i) i spfs_mod_inode_cb = Done (res, c, ?t\<lparr>s_dev := d\<rparr>)"
    using l by (simp add: spfs_btree_modify_def put_inode_def)
  then have "spfs_btree_modify fuel env ?t (i_ino i) j spfs_mod_inode_cb = Done (res, j, ?t\<lparr>s_dev := d\<rparr>)"
    using spfs_btree_modify_mod [of fuel env ?t "i_ino i" j i] by simp
  then show ?thesis
    using assms(2,4) d by (auto simp: spfs_write_inode_def get_inode_def put_inode_def)
qed

theorem write_inode_ignores_inode_witness:
  "\<exists>s1 s2. spfs_write_inode 0 sample_env sample_vfs 9 = Done (1, s1) \<and>
    spfs_write_inode 0 sample_env (put_inode sample_vfs 9 (child_named [66])) 9 = Done (1, s2) \<and>
    s_dev s2 = s_dev s1"
proof -
  have w: "spfs_write_inode 0 sample_env sample_vfs 9 = Done (1, sample_vfs)"
    "spfs_write_inode 0 sample_env (put_inode sample_vfs 9 (child_named [66])) 9 =
      Done (1, put_inode sample_vfs 9 (child_named [66]))"
    by (simp_all add: spfs_write_inode_def get_inode_def put_inode_def spfs_btree_modify_def sample_vfs_simps)
  from write_inode_ignores_inode [OF _ _ w, of "child_named [65]"] w show ?thesis
    by (auto simp: sample_vfs_simps)
qed

end
