(* ===== verification/File_Laws.thy ===== *)
theory File_Laws
  imports File_Extent Dir_Laws
begin

text \<open>
  What reading and writing of extents does: the header on the wire, the number of blocks for
  a number of bytes, the bytes a read of an extent delivers and when it can only fail, and the
  return code and the lock that \<open>spfs_write\<close> leaves.
\<close>

section \<open>The header\<close>

definition extent_header_bytes :: "spfs_file_extent \<Rightarrow> byte list" where
  "extent_header_bytes h =
     be_bytes 4 (unat SPOOKY_FS_FILE_BLOCK_MAGIC) @ be_bytes 4 (unat (ucast (fe_next h) :: u32)) @
     be_bytes 4 (unat (fe_capacity h)) @ be_bytes 4 (unat (fe_length h))"

lemma length_extent_header_bytes [simp]: "length (extent_header_bytes h) = 16"
  by (simp add: extent_header_bytes_def)

lemma spfs_make_file_extent_eq:
  "16 \<le> length b \<Longrightarrow> spfs_make_file_extent b 0 h = Done (0, store b 0 (extent_header_bytes h), 16)"
  by (simp add: spfs_make_file_extent_def extent_header_bytes_def field_writes store_append)

lemma spfs_parse_file_extent_bytes:
  assumes "16 \<le> length b" and "load b 0 16 = extent_header_bytes h"
  shows "spfs_parse_file_extent b 0 = Done (Inr (h\<lparr>fe_next := low32 (fe_next h)\<rparr>, 16))"
proof -
  have part: "load b p m = take m (drop p (extent_header_bytes h))" if "p + m \<le> 16" for p m
    using that by (simp add: load_def drop_take min_def flip: assms(2))
  show ?thesis
    using assms(1) by (simp add: spfs_parse_file_extent_def field_reads part)
      (simp add: extent_header_bytes_def low32_def)
qed

lemma spfs_parse_file_extent_pos:
  "spfs_parse_file_extent b 0 = Done (Inr (h, p)) \<Longrightarrow> p = 16 \<and> 16 \<le> length b"
  by (auto simp: spfs_parse_file_extent_def read_or_def bnd_Done_iff fu32.rd_Some_iff
      fsec.rd_Some_iff split: option.splits if_splits)

section \<open>Blocks for a number of bytes\<close>

lemma blocks_for_loop_eq:
  "0 < bs \<Longrightarrow> blocks_for_loop bs bytes r = Done (r + (bytes + bs - 1) div bs)"
proof (induction bs bytes r rule: blocks_for_loop.induct)
  case (1 bs bytes r)
  show ?case
  proof (cases "bytes \<le> bs")
    case True
    show ?thesis
    proof (cases "bytes = 0")
      case True
      then show ?thesis using 1 by (subst blocks_for_loop.simps) simp
    next
      case False
      then have "(bytes + bs - 1) div bs = 1"
        using True 1 by (intro div_nat_eqI) simp_all
      moreover have "blocks_for_loop bs 0 (r + 1) = Done (r + 1)"
        by (subst blocks_for_loop.simps) simp
      ultimately show ?thesis using 1 False True by (subst blocks_for_loop.simps) simp
    qed
  next
    case False
    then have "(bytes + bs - 1) div bs = 1 + (bytes - bs + bs - 1) div bs"
      using 1(2) div_add_self2 [of bs "bytes - bs + bs - 1"] by simp
    then show ?thesis using 1 False by (subst blocks_for_loop.simps) simp
  qed
qed

section \<open>Reading an extent\<close>

lemma unat_minus_small: "c \<le> unat l \<Longrightarrow> unat (l - of_nat c :: u32) = unat l - c"
proof -
  assume c: "c \<le> unat l"
  then have "unat (of_nat c :: u32) = c" using u32_bound [of l] by (simp add: unat_of_nat)
  then show ?thesis using c by (simp add: unat_sub word_le_nat_alt)
qed

text \<open>One round, given the number of bytes skipped (\<open>c1\<close>) and copied (\<open>c2\<close>).\<close>

lemma read_extent_round_eq:
  fixes pos in_len :: nat and len :: u32
  assumes "bh_pos \<le> length b"
  defines "c1 \<equiv> min pos (min (length b - bh_pos) (unat len))"
  defines "c2 \<equiv> (if pos - c1 = 0 then min in_len (min (length b - (bh_pos + c1)) (unat len - c1)) else 0)"
  shows "read_extent_round b bh_pos len out in_len pos read =
    Done (len - of_nat c1 - of_nat c2, out @ load b (bh_pos + c1) c2, in_len - c2, pos - c1, read + c2)"
proof -
  have le: "bh_pos + c1 \<le> length b" and u: "unat (len - of_nat c1) = unat len - c1"
    using assms(1) by (simp_all add: c1_def unat_minus_small)
  have rem: "spfs_sb_remaining b p = Done (length b - p)" if "p \<le> length b" for p
    using that by (simp add: spfs_sb_remaining_def)
  have round: "read_extent_round b bh_pos len out in_len pos read =
    (if pos - c1 = 0 then
       bnd (spfs_sb_remaining b (bh_pos + c1)) (\<lambda>remaining.
       Done (len - of_nat c1 - of_nat (min in_len (min remaining (unat len - c1))),
         out @ load b (bh_pos + c1) (min in_len (min remaining (unat len - c1))),
         in_len - min in_len (min remaining (unat len - c1)), pos - c1,
         read + min in_len (min remaining (unat len - c1))))
     else Done (len - of_nat c1, out, in_len, pos - c1, read))"
    unfolding read_extent_round_def rem [OF assms(1)] bnd_simps Let_def
    unfolding c1_def [symmetric] u ..
  show ?thesis
    unfolding round c2_def rem [OF le] bnd_simps by (simp add: load_def)
qed

lemma min3_le:
  "min a (min b c) \<le> (a :: nat)" "min a (min b c) \<le> c"
  "(if P then min a (min b c) else 0) \<le> a" "(if P then min a (min b c) else 0) \<le> c"
  by auto

text \<open>Every round accounts for what it takes off the length.\<close>

lemma read_extent_round_account:
  assumes "read_extent_round bh bh_pos len out in_len pos read = Done (len', out', in_len', pos', read')"
  shows "pos' \<le> pos \<and> read \<le> read' \<and> in_len' + read' = in_len + read
    \<and> unat len + pos' + read = unat len' + pos + read'"
proof -
  have bound: "bh_pos \<le> length bh"
    using assms by (auto simp: read_extent_round_def spfs_sb_remaining_def bnd_Done_iff bug_on_Done_iff)
  define c1 where "c1 = min pos (min (length bh - bh_pos) (unat len))"
  define c2 where "c2 = (if pos - c1 = 0 then min in_len (min (length bh - (bh_pos + c1)) (unat len - c1)) else 0)"
  have c: "c1 \<le> pos" "c1 \<le> unat len" "c2 \<le> in_len" "c2 \<le> unat len - c1"
    unfolding c1_def c2_def by (rule min3_le)+
  have eqs: "len' = len - of_nat c1 - of_nat c2" "in_len' = in_len - c2" "pos' = pos - c1" "read' = read + c2"
    using assms read_extent_round_eq [OF bound, of len out in_len pos read, folded c1_def, folded c2_def]
    by (simp_all only: outcome.inject prod.inject)
  have "unat len' = unat len - c1 - c2"
    unfolding eqs using c by (simp add: unat_minus_small)
  then show ?thesis using c unfolding eqs by linarith
qed

lemma read_extent_loop_account:
  assumes "read_extent_loop fuel s start bh bh_pos len out in_len pos read =
      Done (res, out', in_len', pos', s')" and "0 \<le> res"
  shows "pos' \<le> pos \<and> int (unat len + pos' + read) = int pos + res
    \<and> int in_len' + res = int (in_len + read)"
  using assms
proof (induction fuel arbitrary: s start bh bh_pos len out in_len pos read)
  case 0
  then show ?case by simp
next
  case (Suc fuel)
  obtain l1 o1 i1 p1 r1 where r: "read_extent_round bh bh_pos len out in_len pos read = Done (l1, o1, i1, p1, r1)"
    using Suc.prems(1) by (auto simp: bnd_Done_iff)
  note acc = read_extent_round_account [OF r]
  show ?case
  proof (cases "l1 = 0")
    case True
    then show ?thesis using Suc.prems r acc by auto
  next
    case False
    obtain b2 s2 where "fs_bread (fs_brelse s start) (start + 1) = Some (b2, s2)"
      and loop: "read_extent_loop fuel s2 (start + 1) b2 0 l1 o1 i1 p1 r1 = Done (res, out', in_len', pos', s')"
      using Suc.prems r False by (auto simp: EIO_def split: option.splits)
    show ?thesis using Suc.IH [OF loop Suc.prems(2)] acc by linarith
  qed
qed

text \<open>The blocks of an extent, and that a read long enough delivers all its bytes.\<close>

fun run_of_blocks :: "(u64 \<Rightarrow> buf option) \<Rightarrow> u64 \<Rightarrow> buf list \<Rightarrow> bool" where
  "run_of_blocks blk start [] = True"
| "run_of_blocks blk start (b # bs) = (blk start = Some b \<and> run_of_blocks blk (start + 1) bs)"

definition held :: "'a spfs_scheme \<Rightarrow> u64 \<Rightarrow> 'a spfs_scheme" where
  "held s n = s\<lparr>s_dev := s_dev s\<lparr>d_refs := (d_refs (s_dev s))(n := Suc (d_refs (s_dev s) n))\<rparr>\<rparr>"

lemma held_simps [simp]:
  "fs_brelse (held s n) n = s"
  "d_blocks (s_dev (held s n)) = d_blocks (s_dev s)"
  "sbi_block_size (held s n) = sbi_block_size s"
  by (simp_all add: held_def fs_brelse_bread)

lemma fs_bread_held: "d_blocks (s_dev s) n = Some b \<Longrightarrow> fs_bread s n = Some (b, held s n)"
  by (simp add: fs_bread_Some held_def)

text \<open>One round, in the two cases: the extent ends in this block, or it goes on.\<close>

lemma read_extent_round_last:
  assumes "bh_pos \<le> length b" and "unat len \<le> length b - bh_pos" and "pos \<le> unat len"
    and "unat len - pos \<le> in_len"
  shows "read_extent_round b bh_pos len out in_len pos read =
    Done (0, out @ drop pos (take (unat len) (drop bh_pos b)), in_len - (unat len - pos), 0,
      read + (unat len - pos))"
proof -
  have m1: "min pos (min (length b - bh_pos) (unat len)) = pos" using assms by linarith
  have m2: "min in_len (min (length b - (bh_pos + pos)) (unat len - pos)) = unat len - pos"
    using assms by linarith
  have "len - of_nat pos - of_nat (unat len - pos) = 0"
    using assms(3) by (simp add: of_nat_diff)
  moreover have "load b (bh_pos + pos) (unat len - pos) = drop pos (take (unat len) (drop bh_pos b))"
    by (simp add: load_def drop_take add.commute)
  ultimately show ?thesis
    using read_extent_round_eq [OF assms(1), of len out in_len pos read] by (simp only: m1 m2 diff_self_eq_0 simp_thms if_True)
qed

lemma read_extent_round_more:
  assumes "bh_pos \<le> length b" and "length b - bh_pos < unat len" and "pos \<le> unat len"
    and "unat len - pos \<le> in_len"
  defines "r \<equiv> length b - bh_pos"
  shows "read_extent_round b bh_pos len out in_len pos read =
    Done (len - of_nat r, out @ drop pos (drop bh_pos b), in_len - (r - pos), pos - r, read + (r - pos))"
proof (cases "pos \<le> r")
  case True
  have m1: "min pos (min (length b - bh_pos) (unat len)) = pos" using assms(2) True by (simp add: r_def)
  have m2: "min in_len (min (length b - (bh_pos + pos)) (unat len - pos)) = r - pos"
    using assms(2,4) unfolding r_def by linarith
  have z: "len - of_nat pos - of_nat (r - pos) = len - of_nat r"
    using True by (simp add: of_nat_diff)
  have "load b (bh_pos + pos) (r - pos) = drop pos (drop bh_pos b)"
    by (simp add: load_def r_def add.commute)
  moreover have "pos - r = 0" using True by simp
  ultimately show ?thesis
    using read_extent_round_eq [OF assms(1), of len out in_len pos read]
    by (simp only: m1 m2 z diff_self_eq_0 simp_thms if_True)
next
  case False
  then have m1: "min pos (min (length b - bh_pos) (unat len)) = r"
    using assms(2) by (simp add: r_def)
  have nz: "(pos - r = 0) = False" using False by simp
  have "drop pos (drop bh_pos b) = []" and "load b (bh_pos + r) 0 = []" and "r - pos = 0"
    using False by (simp_all add: r_def load_def)
  then show ?thesis
    using read_extent_round_eq [OF assms(1), of len out in_len pos read]
    by (simp only: m1 nz if_False append_Nil2) simp
qed

lemma read_extent_loop_all:
  assumes "run_of_blocks (d_blocks (s_dev s)) (start + 1) bs" and "bh_pos \<le> length b"
    and "unat len \<le> length (drop bh_pos b @ concat bs)" and "pos \<le> unat len"
    and "unat len - pos \<le> in_len" and "length bs < fuel"
  shows "read_extent_loop fuel (held s start) start b bh_pos len out in_len pos read =
    Done (int (read + (unat len - pos)), out @ drop pos (take (unat len) (drop bh_pos b @ concat bs)),
      in_len - (unat len - pos), 0, s)"
  using assms
proof (induction bs arbitrary: fuel start b bh_pos len out in_len pos read)
  case Nil
  then obtain f where f: "fuel = Suc f" by (cases fuel) auto
  have r: "read_extent_round b bh_pos len out in_len pos read =
    Done (0, out @ drop pos (take (unat len) (drop bh_pos b)), in_len - (unat len - pos), 0,
      read + (unat len - pos))"
    using Nil by (intro read_extent_round_last) simp_all
  show ?case by (simp add: f r)
next
  case (Cons b2 bs)
  obtain f where f: "fuel = Suc f" using Cons.prems(6) by (cases fuel) auto
  show ?case
  proof (cases "unat len \<le> length b - bh_pos")
    case True
    have r: "read_extent_round b bh_pos len out in_len pos read =
      Done (0, out @ drop pos (take (unat len) (drop bh_pos b)), in_len - (unat len - pos), 0,
        read + (unat len - pos))"
      using Cons.prems True by (intro read_extent_round_last) simp_all
    show ?thesis using True by (simp add: f r)
  next
    case False
    define r where "r = length b - bh_pos"
    have less: "r < unat len" using False by (simp add: r_def)
    have rnd: "read_extent_round b bh_pos len out in_len pos read =
      Done (len - of_nat r, out @ drop pos (drop bh_pos b), in_len - (r - pos), pos - r, read + (r - pos))"
      unfolding r_def using Cons.prems False by (intro read_extent_round_more) simp_all
    have u: "unat (len - of_nat r) = unat len - r" using less by (simp add: unat_minus_small)
    then have nz: "len - of_nat r \<noteq> 0" using less by (metis unat_0 zero_less_diff less_irrefl)
    have b2: "d_blocks (s_dev s) (start + 1) = Some b2"
      and run: "run_of_blocks (d_blocks (s_dev s)) (start + 1 + 1) bs" using Cons.prems(1) by simp_all
    have "read_extent_loop f (held s (start + 1)) (start + 1) b2 0 (len - of_nat r)
        (out @ drop pos (drop bh_pos b)) (in_len - (r - pos)) (pos - r) (read + (r - pos)) =
      Done (int (read + (r - pos) + (unat (len - of_nat r) - (pos - r))),
        (out @ drop pos (drop bh_pos b)) @ drop (pos - r) (take (unat (len - of_nat r)) (drop 0 b2 @ concat bs)),
        in_len - (r - pos) - (unat (len - of_nat r) - (pos - r)), 0, s)"
    proof (rule Cons.IH [OF run])
      show "unat (len - of_nat r) \<le> length (drop 0 b2 @ concat bs)"
        using Cons.prems(3) unfolding u by (simp add: r_def)
      show "pos - r \<le> unat (len - of_nat r)" unfolding u using Cons.prems(4) by simp
      show "unat (len - of_nat r) - (pos - r) \<le> in_len - (r - pos)"
        unfolding u using Cons.prems(4,5) less by (cases "pos \<le> r") simp_all
      show "length bs < f" using Cons.prems(6) by (simp add: f)
    qed simp
    moreover have "read + (r - pos) + (unat (len - of_nat r) - (pos - r)) = read + (unat len - pos)"
      "in_len - (r - pos) - (unat (len - of_nat r) - (pos - r)) = in_len - (unat len - pos)"
      unfolding u using Cons.prems(4) less by (cases "pos \<le> r"; simp)+
    moreover have "drop pos (drop bh_pos b) @ drop (pos - r) (take (unat (len - of_nat r)) (drop 0 b2 @ concat bs)) =
        drop pos (take (unat len) (drop bh_pos b @ concat (b2 # bs)))"
      using less by (simp add: u flip: r_def)
    ultimately show ?thesis
      by (simp only: f read_extent_loop.simps rnd bnd_simps prod.case held_simps(1) nz if_False
          fs_bread_held [OF b2] option.case append_assoc)
  qed
qed

lemma spfs_read_file_extent_all:
  assumes b: "d_blocks (s_dev s) start = Some b" "16 \<le> length b" "load b 0 16 = extent_header_bytes h"
    and run: "run_of_blocks (d_blocks (s_dev s)) (start + 1) bs"
    and len: "unat (fe_length h) \<le> length (drop 16 b @ concat bs)" "pos \<le> unat (fe_length h)"
      "unat (fe_length h) - pos \<le> in_len" and fuel: "length bs < fuel"
  shows "spfs_read_file_extent fuel s next start out in_len pos =
    Done (int (unat (fe_length h) - pos), low32 (fe_next h),
      out @ drop pos (take (unat (fe_length h)) (drop 16 b @ concat bs)),
      in_len - (unat (fe_length h) - pos), 0, s)"
proof -
  have "read_extent_loop fuel (held s start) start b 16 (fe_length h) out in_len pos 0 =
    Done (int (0 + (unat (fe_length h) - pos)),
      out @ drop pos (take (unat (fe_length h)) (drop 16 b @ concat bs)),
      in_len - (unat (fe_length h) - pos), 0, s)"
    using assms by (intro read_extent_loop_all) simp_all
  then show ?thesis
    using b by (simp add: spfs_read_file_extent_def fs_bread_held spfs_parse_file_extent_bytes)
qed

section \<open>Properties\<close>

text \<open>
  The loop of \<open>spfs_blocks_for\<close> ends exactly when the block size is not 0 (or there is
  nothing to store), and then gives the number of blocks rounded up.
\<close>

theorem blocks_for_rounds_up:
  "if block_size = 0 \<and> bytes \<noteq> 0 then spfs_blocks_for block_size bytes = Crash NoFuel
   else \<exists>n. spfs_blocks_for block_size bytes = Done n \<and>
     unat n = (unat bytes + unat block_size - 1) div unat block_size"
proof (cases "block_size = 0")
  case True
  then show ?thesis
    by (auto simp: spfs_blocks_for_def blocks_for_loop.simps unat_eq_0)
next
  case False
  let ?n = "(unat bytes + unat block_size - 1) div unat block_size"
  have pos: "0 < unat block_size" using False by (simp add: unat_gt_0)
  have "?n \<le> unat bytes"
  proof (cases "unat bytes")
    case 0
    then show ?thesis using pos by simp
  next
    case (Suc m)
    have "m div unat block_size \<le> m" by (rule div_le_dividend)
    then show ?thesis using pos div_add_self2 [of "unat block_size" m] by (simp add: Suc)
  qed
  then have "unat (of_nat ?n :: u64) = ?n" using u64_bound [of bytes] by (simp add: unat_of_nat)
  then show ?thesis
    using False pos by (simp add: spfs_blocks_for_def blocks_for_loop_eq)
qed

text \<open>
  Reading an extent with a buffer that is large enough delivers exactly the bytes of the
  extent from the position on, across its blocks, and releases every block.
\<close>

theorem read_extent_delivers:
  assumes "d_blocks (s_dev s) start = Some b" and "16 \<le> length b"
    and "load b 0 16 = extent_header_bytes h"
    and "run_of_blocks (d_blocks (s_dev s)) (start + 1) bs"
    and "unat (fe_length h) \<le> length (drop 16 b @ concat bs)" and "pos \<le> unat (fe_length h)"
    and "unat (fe_length h) - pos \<le> in_len" and "length bs < fuel"
  shows "spfs_read_file_extent fuel s next start out in_len pos =
    Done (int (unat (fe_length h) - pos), low32 (fe_next h),
      out @ drop pos (take (unat (fe_length h)) (drop 16 b @ concat bs)),
      in_len - (unat (fe_length h) - pos), 0, s)"
  using spfs_read_file_extent_all [OF assms] .

definition extent_sample :: spfs where
  "extent_sample = dir_sample_fs\<lparr>s_dev := \<lparr>d_blocks =
     [3 \<mapsto> extent_header_bytes \<lparr>fe_next = 0, fe_capacity = 2, fe_length = 6\<rparr> @ [65, 66, 67, 68],
      4 \<mapsto> [69, 70, 71, 72]], d_dirty = {}, d_refs = \<lambda>_. 0\<rparr>\<rparr>"

lemma extent_sample:
  "d_blocks (s_dev extent_sample) 3 =
    Some (extent_header_bytes \<lparr>fe_next = 0, fe_capacity = 2, fe_length = 6\<rparr> @ [65, 66, 67, 68])"
  "run_of_blocks (d_blocks (s_dev extent_sample)) (3 + 1) [[69, 70, 71, 72]]"
  "load (extent_header_bytes h @ xs) 0 16 = extent_header_bytes h"
  by (simp_all add: extent_sample_def load_def)

theorem read_extent_delivers_witness:
  "spfs_read_file_extent 2 extent_sample 0 3 [] 10 1 = Done (5, 0, [66, 67, 68, 69, 70], 5, 0, extent_sample)"
  using read_extent_delivers [OF extent_sample(1) _ extent_sample(3) extent_sample(2), of 1 10 2 0 "[]"]
  by (simp add: low32_def)

text \<open>
  A read of an extent that reports success has gone through the whole rest of the extent:
  what it returns plus what it skipped is the length in the header. A buffer shorter than the
  rest of the extent is therefore never filled: the read fails.
\<close>

theorem read_extent_all_or_error:
  assumes "spfs_parse_file_extent b 0 = Done (Inr (h, p))" and "d_blocks (s_dev s) start = Some b"
    and "spfs_read_file_extent fuel s next start out in_len pos = Done (res, next', out', in_len', pos', s')"
    and "0 \<le> res"
  shows "int (unat (fe_length h)) = res + int (pos - pos') \<and> res \<le> int in_len"
proof -
  obtain o' where "read_extent_loop fuel (held s start) start b p (fe_length h) out in_len pos 0 =
      Done (res, o', in_len', pos', s')"
    using assms by (auto simp: spfs_read_file_extent_def fs_bread_held bnd_Done_iff)
  from read_extent_loop_account [OF this assms(4)] show ?thesis by auto
qed

theorem read_extent_all_or_error_witness:
  "int (unat (6 :: u32)) = 5 + int (1 - 0) \<and> (5 :: int) \<le> int 10"
proof -
  have p: "spfs_parse_file_extent (extent_header_bytes \<lparr>fe_next = 0, fe_capacity = 2, fe_length = 6\<rparr> @
      [65, 66, 67, 68]) 0 = Done (Inr (\<lparr>fe_next = 0, fe_capacity = 2, fe_length = 6\<rparr>, 16))"
    by (subst spfs_parse_file_extent_bytes [OF _ extent_sample(3)]) (simp_all add: low32_def)
  have r: "spfs_read_file_extent 2 extent_sample 0 3 [] 10 1 =
      Done (5, 0, [66, 67, 68, 69, 70], 5, 0, extent_sample)"
    using spfs_read_file_extent_all [OF extent_sample(1) _ extent_sample(3) extent_sample(2), of 1 10 2 0 "[]"]
    by (simp add: low32_def)
  show ?thesis using read_extent_all_or_error [OF p extent_sample(1) r] by simp
qed

end
