(* ===== verification/File_Write.thy ===== *)
theory File_Write
  imports File_Laws
begin

text \<open>
  What \<open>spfs_write\<close> does: the bytes it puts into an extent, the code it returns, the lock it
  leaves, and that its loops stop.
\<close>

section \<open>Writing into one block\<close>

lemma spfs_do_write_at:
  assumes "p + pos + length src \<le> length b"
  shows "spfs_do_write b p src pos = Done (length src, store b (p + pos) src, p + pos, [], 0)"
proof -
  have m: "min pos (length b - p) = pos" "min (length src) (length b - (p + pos)) = length src"
    using assms by linarith+
  show ?thesis
    using assms m by (simp add: spfs_do_write_def spfs_sb_remaining_def Let_def)
qed

lemma spfs_do_write_Done:
  assumes "spfs_do_write b p src pos = Done (res, b', p', src', pos')"
  shows "length b' = length b" and "res \<le> length src" and "src' = drop res src"
    and "pos = 0 \<Longrightarrow> res = min (length src) (length b - p)"
proof -
  have le: "p \<le> length b"
    using assms by (auto simp: spfs_do_write_def spfs_sb_remaining_def bnd_Done_iff bug_on_Done_iff)
  define c where "c = min pos (length b - p)"
  have c: "p + c \<le> length b" using le by (simp add: c_def)
  have rem: "spfs_sb_remaining b q = Done (length b - q)" if "q \<le> length b" for q
    using that by (simp add: spfs_sb_remaining_def)
  define w where "w = min (length src) (length b - (p + c))"
  have w: "p + c + w \<le> length b" "w \<le> length src" using c by (simp_all add: w_def)
  have eq: "spfs_do_write b p src pos = (if pos - c = 0
      then Done (w, store b (p + c) (take w src), p + c, drop w src, pos - c)
      else Done (0, b, p + c, src, pos - c))"
    unfolding spfs_do_write_def rem [OF le] bnd_simps Let_def
    unfolding c_def [symmetric] rem [OF c] bnd_simps w_def ..
  show "length b' = length b" and "res \<le> length src" and "src' = drop res src"
    using assms w unfolding eq by (auto split: if_splits)
  assume "pos = 0"
  then show "res = min (length src) (length b - p)"
    using assms unfolding eq by (auto simp: c_def w_def)
qed

lemma fs_bread_None: "d_blocks (s_dev s) n = None \<Longrightarrow> fs_bread s n = None"
  by (simp add: fs_bread_def sb_bread_unreadable)

lemma fs_put_put [simp]: "fs_put (fs_put s n a) n b = fs_put s n b"
  by (simp add: fs_put_def put_buf_def)

lemma fs_get_put [simp]: "fs_get (fs_put s n b) n = Done b"
  by (simp add: fs_get_def fs_put_def)

lemma fs_release_held [simp]:
  "fs_brelse (fs_dirty (fs_put (held s n) n b) n) n = fs_dirty (fs_put s n b) n"
  by (simp add: held_def fs_release_put)

text \<open>The header after writing \<open>n\<close> bytes: linked to a new extent if it was the last one.\<close>

definition written_header :: "spfs_file_extent \<Rightarrow> u64 \<Rightarrow> nat \<Rightarrow> spfs_file_extent" where
  "written_header h extra n =
     (if fe_next h = 0 \<and> extra \<noteq> 0 then h\<lparr>fe_next := extra\<rparr> else h)
       \<lparr>fe_length := fe_length h + of_nat n\<rparr>"

lemma write_blocks_done:
  "write_blocks fuel s end it header [] pos dirty = Done (Inr dirty, header, [], pos, s)"
  by (cases fuel) simp_all

lemma spfs_write_file_extent_head:
  assumes b: "d_blocks (s_dev s) start = Some b" "load b 0 16 = extent_header_bytes h"
      "low32 (fe_next h) = fe_next h"
    and fits: "16 + pos + length src \<le> length b" and src: "src \<noteq> []"
  shows "spfs_write_file_extent s start src pos extra =
    Done (int (length src), written_header h extra (length src), [], 0,
      (if fe_next h = 0 then 0 else extra),
      fs_dirty (fs_put s start (store (store b (16 + pos) src) 0
        (extent_header_bytes (written_header h extra (length src))))) start)"
proof -
  have parse: "spfs_parse_file_extent b 0 = Done (Inr (h, 16))"
    using b fits by (simp add: spfs_parse_file_extent_bytes)
  have put: "fs_put (held s start) start x = held (fs_put s start x) start" for x
    by (simp add: fs_put_def put_buf_def held_def)
  have len: "16 \<le> length (store b (16 + pos) src)" using fits by simp
  note eqs = fs_bread_held [OF b(1)] parse spfs_do_write_at [OF fits] write_blocks_done
    spfs_make_file_extent_eq [OF len]
  show ?thesis
    unfolding spfs_write_file_extent_def Let_def eqs bnd_simps option.case sum.case prod.case
    by (cases "fe_next h = 0"; cases "extra = 0")
      (use src in \<open>simp_all add: eqs written_header_def\<close>)
qed

section \<open>The loop stops\<close>

lemma write_block_stops: "write_block s it header src pos \<noteq> Crash NoFuel"
proof (cases "d_blocks (s_dev s) it")
  case None
  then show ?thesis by (simp add: write_block_def fs_bread_None)
next
  case (Some b)
  have "spfs_do_write b 0 src pos \<noteq> Crash NoFuel"
    by (auto simp: spfs_do_write_def spfs_sb_remaining_def Let_def bug_on_def)
  then show ?thesis
    using Some by (cases "spfs_do_write b 0 src pos")
      (auto simp: write_block_def fs_bread_held Let_def split: prod.splits)
qed

lemma write_blocks_stops:
  "unat end - unat it \<le> fuel \<Longrightarrow> write_blocks fuel s end it header src pos dirty \<noteq> Crash NoFuel"
proof (induction fuel arbitrary: s it header src pos dirty)
  case 0
  then show ?case by (simp add: word_less_nat_alt)
next
  case (Suc fuel)
  show ?case
  proof (cases "src \<noteq> [] \<and> it < end")
    case False
    then show ?thesis by auto
  next
    case True
    then have less: "unat it < unat end" by (simp add: word_less_nat_alt)
    then have "unat (it + 1) = unat it + 1"
      using u64_bound [of "end"] by (subst unat_add_small) simp_all
    then have "unat end - unat (it + 1) \<le> fuel" using Suc.prems less by simp
    note IH = Suc.IH [OF this]
    show ?thesis
      using True IH write_block_stops [of s it header src pos]
      by (cases "write_block s it header src pos") (auto split: option.splits)
  qed
qed

lemma write_file_extent_fuel:
  fixes start :: u64
  assumes "start + 1 \<noteq> 0"
  shows "unat (start + ucast (c :: u32)) - unat (start + 1) \<le> unat c"
proof -
  have "unat start + 1 < 2 ^ 64"
  proof (rule ccontr)
    assume "\<not> unat start + 1 < 2 ^ 64"
    then have "unat start + 1 = 2 ^ 64" using u64_bound [of start] by simp
    then have "unat (start + 1) = 0" by (simp add: unat_word_ariths)
    then show False using assms by (simp add: unat_eq_0)
  qed
  then have "unat (start + 1) = unat start + 1" by (subst unat_add_small) simp_all
  moreover have "unat (start + ucast c) \<le> unat start + unat c"
    by (simp only: unat_word_ariths unat_ucast_u32_u64) (rule mod_less_eq_dividend)
  ultimately show ?thesis by simp
qed

section \<open>The result of a write\<close>

lemma spfs_parse_file_extent_Inl:
  "spfs_parse_file_extent b 0 = Done (Inl e) \<Longrightarrow> e = - EINVAL"
  by (auto simp: spfs_parse_file_extent_def read_or_Inl split: if_splits)

text \<open>The loop over the blocks fails in one way, and a dirty header stays dirty.\<close>

lemma write_blocks_result:
  assumes "write_blocks fuel s end it header src pos dirty = Done (r, h, src', pos', s')"
  shows "r = Inl (- EIO) \<or> (\<exists>d. r = Inr d \<and> (dirty \<longrightarrow> d))"
  using assms
proof (induction fuel arbitrary: s it header src pos dirty)
  case 0
  then show ?case by (auto split: if_splits)
next
  case (Suc fuel)
  show ?case
  proof (cases "src \<noteq> [] \<and> it < end \<and> spfs_in_sector (sbi_block_size s) pos")
    case False
    then show ?thesis using Suc by (auto split: if_splits)
  next
    case True
    then obtain w where "write_block s it header src pos = Done w"
      using Suc.prems by (auto simp: bnd_Done_iff)
    then show ?thesis using True Suc.prems by (cases w) (auto dest!: Suc.IH)
  qed
qed

text \<open>Every count but 0 ends the loop with an error, so the sum stays where it starts.\<close>

lemma write_extents_written:
  assumes "write_extents fuel s start src pos extra written = Done (Inr w, src', extra', s')"
  shows "w = written"
  using assms
proof (induction fuel arbitrary: s start src pos extra written)
  case 0
  then show ?case by (simp split: if_splits)
next
  case (Suc fuel)
  show ?case
  proof (cases "start = 0")
    case True
    then show ?thesis using Suc.prems by simp
  next
    case False
    then obtain ires h src1 pos1 e1 s1 where
      "spfs_write_file_extent s start src pos extra = Done (ires, h, src1, pos1, e1, s1)"
      using Suc.prems by (auto simp: bnd_Done_iff)
    then show ?thesis
      using Suc.prems Suc.IH [of s1 "fe_next h" src1 pos1 e1 "written + ires"] False
      by (auto split: if_splits)
  qed
qed

section \<open>The parts of a write\<close>

text \<open>The first block, the loop over the others, and what is left of the state.\<close>

lemma write_file_extent_parts:
  assumes run: "spfs_write_file_extent s start src pos extra = Done (res, h', src', pos', extra', s')"
    and b: "d_blocks (s_dev s) start = Some b" and parse: "spfs_parse_file_extent b 0 = Done (Inr (h, p))"
  obtains n b1 p1 src1 pos1 linked h0 x s3 where
    "spfs_do_write b p src pos = Done (n, b1, p1, src1, pos1)"
    and "h0 = (if linked then h\<lparr>fe_next := extra\<rparr> else h)"
    and "write_blocks (unat (fe_capacity h)) (fs_put (held s start) start b1) (start + ucast (fe_capacity h))
      (start + 1) (h0\<lparr>fe_length := fe_length h + of_nat n\<rparr>) src1 pos1 (linked \<or> 0 < n) = Done (x, h', src', pos', s3)"
    and "res = int n \<or> x = Inl res"
    and "s' = s3 \<or> s' = fs_brelse s3 start \<or> (\<exists>c c' q. d_blocks (s_dev s3) start = Some c \<and>
      spfs_make_file_extent c 0 h' = Done (0, c', q) \<and> s' = fs_brelse (fs_dirty (fs_put s3 start c') start) start)"
proof -
  define linked where "linked = (fe_next h = 0 \<and> extra \<noteq> 0)"
  define h0 where "h0 = (if linked then h\<lparr>fe_next := extra\<rparr> else h)"
  note unf = spfs_write_file_extent_def Let_def fs_bread_held [OF b] parse bnd_simps option.case sum.case
    prod.case linked_def [symmetric] h0_def [symmetric]
  obtain n b1 p1 src1 pos1 where w: "spfs_do_write b p src pos = Done (n, b1, p1, src1, pos1)"
    using run unfolding unf by (auto simp: bnd_Done_iff)
  have h0: "fe_capacity h0 = fe_capacity h" "fe_length h0 = fe_length h" by (simp_all add: h0_def)
  obtain x h2 src2 pos2 s3 where l: "write_blocks (unat (fe_capacity h)) (fs_put (held s start) start b1)
      (start + ucast (fe_capacity h)) (start + 1) (h0\<lparr>fe_length := fe_length h + of_nat n\<rparr>) src1 pos1
      (linked \<or> 0 < n) = Done (x, h2, src2, pos2, s3)"
    using run unfolding unf w by (auto simp: bnd_Done_iff h0)
  have fin: "(case x of
          Inl e \<Rightarrow> Done (e, h2, src2, pos2, if linked then 0 else extra, s3)
        | Inr head_dirty \<Rightarrow>
            if head_dirty then
              bnd (fs_get s3 start) (\<lambda>head_bh.
              bnd (spfs_make_file_extent head_bh 0 h2) (\<lambda>(res', head_bh, _).
              bug_on (res' \<noteq> 0)
                (Done (int n, h2, src2, pos2, if linked then 0 else extra,
                  fs_brelse (fs_dirty (fs_put s3 start head_bh) start) start))))
            else Done (int n, h2, src2, pos2, if linked then 0 else extra, fs_brelse s3 start)) =
        Done (res, h', src', pos', extra', s')"
    using run l unfolding unf w by (simp add: h0)
  have "h2 = h' \<and> src2 = src' \<and> pos2 = pos' \<and> (res = int n \<or> x = Inl res) \<and>
    (s' = s3 \<or> s' = fs_brelse s3 start \<or> (\<exists>c c' q. d_blocks (s_dev s3) start = Some c \<and>
      spfs_make_file_extent c 0 h' = Done (0, c', q) \<and> s' = fs_brelse (fs_dirty (fs_put s3 start c') start) start))"
    using fin by (cases x) (auto simp: bnd_Done_iff bug_on_Done_iff fs_get_def split: if_splits)
  then show ?thesis using that [OF w h0_def] l by blast
qed

text \<open>A write that reaches the first block of an extent counts its bytes, or fails.\<close>

lemma spfs_write_file_extent_nonzero:
  assumes run: "spfs_write_file_extent s start src 0 extra = Done (ires, h, src', pos', extra', s')"
    and "src \<noteq> []" and big: "\<And>b. d_blocks (s_dev s) start = Some b \<Longrightarrow> 16 < length b"
  shows "ires \<noteq> 0"
proof (cases "d_blocks (s_dev s) start")
  case None
  then show ?thesis
    using run by (auto simp: spfs_write_file_extent_def fs_bread_None EIO_def)
next
  case (Some b)
  obtain r where r: "spfs_parse_file_extent b 0 = Done r"
    using run Some by (auto simp: spfs_write_file_extent_def fs_bread_held bnd_Done_iff)
  show ?thesis
  proof (cases r)
    case (Inl e)
    then have "ires = - EINVAL"
      using run Some r
      by (auto simp: spfs_write_file_extent_def fs_bread_held dest: spfs_parse_file_extent_Inl)
    then show ?thesis by (simp add: EINVAL_def)
  next
    case (Inr q)
    obtain hd p where q: "q = (hd, p)" by (cases q)
    have p: "p = 16" using spfs_parse_file_extent_pos r Inr q by blast
    obtain n b1 p1 src1 pos1 linked h0 x s3 where w: "spfs_do_write b p src 0 = Done (n, b1, p1, src1, pos1)"
      and l: "write_blocks (unat (fe_capacity hd)) (fs_put (held s start) start b1) (start + ucast (fe_capacity hd))
        (start + 1) (h0\<lparr>fe_length := fe_length hd + of_nat n\<rparr>) src1 pos1 (linked \<or> 0 < n) = Done (x, h, src', pos', s3)"
      and res: "ires = int n \<or> x = Inl ires"
      using write_file_extent_parts [OF run Some r [unfolded Inr q]] by metis
    have "0 < n"
      using spfs_do_write_Done(4) [OF w] assms(2) big [OF Some] by (simp add: p)
    then show ?thesis using res write_blocks_result [OF l] by (auto simp: EIO_def)
  qed
qed

section \<open>Making room\<close>

lemma spfs_file_extent_alloc_shape:
  assumes "spfs_file_extent_alloc s blocks = Done (r, s')"
  shows "same_shape (s_dev s) (s_dev s')"
proof -
  obtain r1 s1 where a: "fs_alloc s blocks = (r1, s1)" by fastforce
  have dev: "s_dev s1 = s_dev s" using a by (auto simp: fs_alloc_eq)
  show ?thesis
  proof (cases "r1 = 0 \<or> d_blocks (s_dev s1) r1 = None")
    case True
    then show ?thesis using assms a dev
      by (auto simp: spfs_file_extent_alloc_def fs_bread_None split: if_splits)
  next
    case False
    then obtain b where b: "r1 \<noteq> 0" "d_blocks (s_dev s1) r1 = Some b" by auto
    define ext where "ext = \<lparr>fe_next = 0, fe_capacity = ucast blocks, fe_length = 0\<rparr>"
    obtain res b' p where m: "spfs_make_file_extent b 0 ext = Done (res, b', p)"
      using assms a b
      by (auto simp: spfs_file_extent_alloc_def fs_bread_held bnd_Done_iff ext_def)
    have "keeps (length b) (spfs_make_file_extent b 0 ext)"
      unfolding spfs_make_file_extent_def
      by (intro keeps_write_or keeps_Done, (assumption | rule refl | erule field_lengths | simp)+)
    then have "length b' = length b" using m by (simp add: keeps_def)
    moreover have "s' = fs_put (held s1 r1) r1 b' \<or> s' = fs_dirty (fs_put s1 r1 b') r1"
      using assms a b m by (auto simp: spfs_file_extent_alloc_def fs_bread_held Let_def ext_def
          split: if_splits)
    ultimately show ?thesis
      using b dev by (auto simp: fs_put_def fs_dirty_def held_def
          intro!: same_shape_put same_shape_dirty)
  qed
qed

lemma spfs_ensure_capacity_shape:
  assumes "spfs_ensure_capacity fuel env s inode in_pos in_len = Done (res, extra, inode', s')"
  shows "same_shape (s_dev s) (s_dev s')" and "i_lock inode' = i_lock inode"
    and "i_size inode' = i_size inode" and "in_name inode' = in_name inode" and "i_mode inode' = i_mode inode"
proof -
  obtain n where n: "spfs_calc_extra_blocks (sbi_block_size s) inode in_pos in_len = Done n"
    using assms by (auto simp: spfs_ensure_capacity_def bnd_Done_iff)
  have "same_shape (s_dev s) (s_dev s') \<and> i_lock inode' = i_lock inode \<and> i_size inode' = i_size inode \<and>
      in_name inode' = in_name inode \<and> i_mode inode' = i_mode inode"
  proof (cases "n = 0")
    case True
    then show ?thesis using assms n by (simp add: spfs_ensure_capacity_def)
  next
    case False
    obtain e s1 where e: "spfs_file_extent_alloc s n = Done (e, s1)"
      using assms n False by (auto simp: spfs_ensure_capacity_def bnd_Done_iff)
    note shape = spfs_file_extent_alloc_shape [OF e]
    show ?thesis
    proof (cases "e = 0")
      case True
      then show ?thesis using assms n False e shape by (simp add: spfs_ensure_capacity_def)
    next
      case e0: False
      then show ?thesis
        using assms n False e shape
        by (auto simp: spfs_ensure_capacity_def Let_def bnd_Done_iff split: if_splits
            dest!: spfs_btree_modify_shape intro: same_shape_trans)
    qed
  qed
  then show "same_shape (s_dev s) (s_dev s')" "i_lock inode' = i_lock inode" "i_size inode' = i_size inode"
    "in_name inode' = in_name inode" "i_mode inode' = i_mode inode" by blast+
qed

section \<open>What \<open>spfs_write\<close> returns\<close>

text \<open>The steps of a write that gets past the checks.\<close>

lemma spfs_write_unfold:
  assumes "src \<noteq> []" and "S_ISREG (i_mode inode)" and "\<not> i_lock inode"
  shows "spfs_write fuel tfuel env False s inode src (Some p) =
    (let p' = min p (unat (i_size inode)) in
     bnd (spfs_ensure_capacity tfuel env s (inode\<lparr>i_lock := True\<rparr>) (of_nat p') (of_nat (length src)))
       (\<lambda>(res, extra, inode', s).
     if res \<noteq> 0 then Done (res, inode', Some p', s)
     else
       bnd (write_extents fuel s (in_start inode') src p' extra 0) (\<lambda>(r, src, extra, s).
       case r of
         Inl e \<Rightarrow> Done (e, inode', Some p', s)
       | Inr written \<Rightarrow>
           bug_on (extra \<noteq> 0) (bug_on (src \<noteq> []) (
           Done (written, mutex_unlock (inode'\<lparr>i_size := i_size inode + of_int written\<rparr>),
             Some (nat (int p' + written)), s))))))"
proof -
  have lock: "mutex_lock inode = Done (inode\<lparr>i_lock := True\<rparr>)"
    using assms(3) by (simp add: mutex_lock_def)
  have size: "i_size (inode\<lparr>i_lock := True\<rparr>) = i_size inode" by simp
  show ?thesis
    unfolding spfs_write_def Let_def option.case lock bnd_simps size using assms(1,2) by simp
qed

lemma spfs_write_result:
  assumes "spfs_write fuel tfuel env False s inode src (Some p) = Done (res, inode', p', s')"
    and "src \<noteq> []" and "S_ISREG (i_mode inode)" and "\<not> i_lock inode"
  shows "i_size inode' = i_size inode" and "i_lock inode' \<or> res = 0"
proof -
  let ?p = "min p (unat (i_size inode))"
  obtain r0 extra i1 s1 where cap: "spfs_ensure_capacity tfuel env s (inode\<lparr>i_lock := True\<rparr>)
      (of_nat ?p) (of_nat (length src)) = Done (r0, extra, i1, s1)"
    using assms by (auto simp: spfs_write_unfold bnd_Done_iff Let_def)
  have i1: "i_lock i1" "i_size i1 = i_size inode"
    using spfs_ensure_capacity_shape(2,3) [OF cap] by simp_all
  have "i_size inode' = i_size inode \<and> (i_lock inode' \<or> res = 0)"
  proof (cases "r0 = 0")
    case False
    then show ?thesis using assms cap i1 by (auto simp: spfs_write_unfold Let_def)
  next
    case True
    obtain r src2 e2 s2 where w: "write_extents fuel s1 (in_start i1) src ?p extra 0 = Done (r, src2, e2, s2)"
      using assms cap True by (auto simp: spfs_write_unfold Let_def bnd_Done_iff)
    show ?thesis
    proof (cases r)
      case (Inl e)
      then show ?thesis using assms cap True w i1 by (auto simp: spfs_write_unfold Let_def)
    next
      case (Inr n)
      then have "n = 0" using write_extents_written w by blast
      then show ?thesis
        using assms cap True w Inr
        by (auto simp: spfs_write_unfold Let_def bug_on_Done_iff mutex_unlock_def)
    qed
  qed
  then show "i_size inode' = i_size inode" and "i_lock inode' \<or> res = 0" by blast+
qed

lemma spfs_write_empty_file:
  assumes "spfs_write fuel tfuel env False s inode src (Some p) = Done (res, inode', p', s')"
    and "src \<noteq> []" and "S_ISREG (i_mode inode)" and "\<not> i_lock inode" and "i_size inode = 0"
    and dev: "dev_ok bsz (s_dev s)" "16 < bsz"
  shows "i_lock inode'"
proof -
  obtain r0 extra i1 s1 where cap: "spfs_ensure_capacity tfuel env s (inode\<lparr>i_lock := True\<rparr>)
      0 (of_nat (length src)) = Done (r0, extra, i1, s1)"
    using assms(1-5) by (auto simp: spfs_write_unfold bnd_Done_iff Let_def)
  have i1: "i_lock i1" using spfs_ensure_capacity_shape(2) [OF cap] by simp
  have big: "16 < length b" if "d_blocks (s_dev s1) n = Some b" for n b
    using same_shape_ok [OF spfs_ensure_capacity_shape(1) [OF cap] dev(1)] dev(2) that
    by (simp add: dev_ok_def)
  show ?thesis
  proof (cases "r0 = 0")
    case False
    then show ?thesis using assms(1-5) cap i1 by (auto simp: spfs_write_unfold Let_def)
  next
    case True
    obtain r src2 e2 s2 where w: "write_extents fuel s1 (in_start i1) src 0 extra 0 = Done (r, src2, e2, s2)"
      using assms(1-5) cap True by (auto simp: spfs_write_unfold Let_def bnd_Done_iff)
    have "\<not> (\<exists>n. r = Inr n \<and> src2 = [])"
    proof (cases "in_start i1 = 0")
      case True
      then show ?thesis using w assms(2) by (cases fuel) auto
    next
      case False
      then show ?thesis
        using w assms(2) spfs_write_file_extent_nonzero [of s1 "in_start i1" src extra] big
        by (cases fuel) (auto simp: bnd_Done_iff split: if_splits)
    qed
    then show ?thesis
      using assms(1-5) cap True w i1
      by (auto simp: spfs_write_unfold Let_def bug_on_Done_iff split: sum.splits)
  qed
qed

section \<open>A read that fails\<close>

lemma read_extents_nonneg:
  assumes "read_extents fuel bfuel s start out in_len pos read = Done (Inr n, out', s')" and "0 \<le> read"
  shows "0 \<le> n"
  using assms
proof (induction fuel arbitrary: s start out in_len pos read)
  case 0
  then show ?case by (simp split: if_splits)
next
  case (Suc fuel)
  show ?case
  proof (cases "start = 0")
    case True
    then show ?thesis using Suc.prems by simp
  next
    case False
    then obtain res nx out1 in1 pos1 s1 where
      "spfs_read_file_extent bfuel s 0 start out in_len pos = Done (res, nx, out1, in1, pos1, s1)"
      using Suc.prems(1) by (auto simp: bnd_Done_iff)
    then show ?thesis
      using Suc.prems False Suc.IH [of s1 nx out1 in1 pos1 "read + res"]
      by (auto split: if_splits)
  qed
qed

lemma mutex_lock_held: "i_lock i \<Longrightarrow> mutex_lock i = Crash SelfDeadlock"
  by (simp add: mutex_lock_def)

section \<open>Properties\<close>

text \<open>
  Bytes written into the first block of an extent whose length is 0 are what the next read
  of the extent returns.
\<close>

theorem write_then_read_extent:
  assumes "d_blocks (s_dev s) start = Some b" and "load b 0 16 = extent_header_bytes h"
    and "low32 (fe_next h) = fe_next h" and "fe_length h = 0" and "src \<noteq> []"
    and "16 + length src \<le> length b" and "length b < 2 ^ 32"
    and "spfs_write_file_extent s start src 0 extra = Done (res, h', src', pos', extra', s')"
    and "length src \<le> in_len" and "0 < fuel"
  shows "res = int (length src) \<and> (\<exists>next' in_len'. spfs_read_file_extent fuel s' next start [] in_len 0 =
    Done (int (length src), next', src, in_len', 0, s'))"
proof -
  define h2 where "h2 = written_header h extra (length src)"
  define b2 where "b2 = store (store b 16 src) 0 (extent_header_bytes h2)"
  have fits: "16 + 0 + length src \<le> length b" using assms(6) by simp
  have s': "res = int (length src)" "s' = fs_dirty (fs_put s start b2) start"
    using spfs_write_file_extent_head [OF assms(1-3) fits assms(5), of extra] assms(8)
    by (simp_all add: b2_def h2_def)
  have len: "unat (fe_length h2) = length src"
    using assms(4,6,7) by (simp add: h2_def written_header_def unat_of_nat)
  have b2: "length b2 = length b" "load b2 0 16 = extent_header_bytes h2" "load b2 16 (length src) = src"
    using assms(6) by (simp_all add: b2_def load_store_after)
  have data: "take (length src) (drop 16 b2) = src" using b2(3) by (simp add: load_def)
  have "spfs_read_file_extent fuel s' next start [] in_len 0 =
    Done (int (unat (fe_length h2) - 0), low32 (fe_next h2),
      [] @ drop 0 (take (unat (fe_length h2)) (drop 16 b2 @ concat [])),
      in_len - (unat (fe_length h2) - 0), 0, s')"
    using assms(6,9,10) b2 len
    by (intro spfs_read_file_extent_all) (simp_all add: s' fs_dirty_def fs_put_def)
  then show ?thesis using s'(1) len data by simp
qed

definition empty_extent :: spfs where
  "empty_extent = dir_sample_fs\<lparr>s_dev := \<lparr>d_blocks =
     [3 \<mapsto> extent_header_bytes \<lparr>fe_next = 0, fe_capacity = 1, fe_length = 0\<rparr> @ replicate 8 0],
     d_dirty = {}, d_refs = \<lambda>_. 0\<rparr>\<rparr>"

theorem write_then_read_extent_witness:
  "\<exists>h s' n i. spfs_write_file_extent empty_extent 3 [72, 105] 0 0 = Done (2, h, [], 0, 0, s') \<and>
    spfs_read_file_extent 1 s' 0 3 [] 10 0 = Done (2, n, [72, 105], i, 0, s')"
proof -
  let ?h = "\<lparr>fe_next = 0, fe_capacity = 1, fe_length = 0\<rparr>"
  have b: "d_blocks (s_dev empty_extent) 3 = Some (extent_header_bytes ?h @ replicate 8 0)"
    by (simp add: empty_extent_def)
  have hb: "load (extent_header_bytes ?h @ replicate 8 0) 0 16 = extent_header_bytes ?h"
    by (simp add: load_def)
  have low: "low32 (fe_next ?h) = fe_next ?h" by (simp add: low32_def)
  obtain h s' where w: "spfs_write_file_extent empty_extent 3 [72, 105] 0 0 = Done (2, h, [], 0, 0, s')"
    using spfs_write_file_extent_head [OF b hb low, of 0 "[72, 105]" 0] by simp
  show ?thesis
    using write_then_read_extent [OF b hb low _ _ _ _ w, of 10 1 0] w by auto
qed

text \<open>
  A write that returns with the mutex of the inode released reports 0 bytes, and no write
  ever changes the size of the file: every count that is not 0 is taken for an error.
\<close>

theorem write_reports_nothing:
  assumes "spfs_write fuel tfuel env False s inode src (Some p) = Done (res, inode', p', s')"
    and "src \<noteq> []" and "S_ISREG (i_mode inode)" and "\<not> i_lock inode"
  shows "i_size inode' = i_size inode \<and> (i_lock inode' \<or> res = 0)"
  using spfs_write_result [OF assms] by blast

text \<open>
  A write to a file of size 0 never gives the mutex back: whatever it returns, the inode
  stays locked, and the next read or write of the file by the same task waits for itself.
\<close>

theorem write_to_empty_file_keeps_lock:
  assumes "spfs_write fuel tfuel env False s inode src (Some p) = Done (res, inode', p', s')"
    and "src \<noteq> []" and "S_ISREG (i_mode inode)" and "\<not> i_lock inode" and "i_size inode = 0"
    and "dev_ok bsz (s_dev s)" and "16 < bsz" and "S_ISREG (i_mode inode')" and "in_len \<noteq> 0"
  shows "i_lock inode' \<and>
    spfs_write fuel tfuel env False s' inode' src (Some q) = Crash SelfDeadlock \<and>
    spfs_read fuel fuel s' inode' in_len (Some q) = Crash SelfDeadlock"
  using spfs_write_empty_file [OF assms(1-7)] assms(2,8,9)
  by (simp add: spfs_write_def spfs_read_def mutex_lock_held)

text \<open>A file whose first extent has room, with nothing in it.\<close>

definition file_sample :: spfs_inode where
  "file_sample = \<lparr>i_ino = 7, i_mode = 0x81A4, i_gid = 0, i_uid = 0, i_atime = at_sec 0,
     i_mtime = at_sec 0, i_ctime = at_sec 0, i_nlink = 1, i_size = 0, i_lock = False, i_kernel = True,
     in_capacity = 8, in_start = 3, in_name = replicate 256 0\<rparr>"

lemma file_sample_write:
  "\<exists>s'. spfs_write 1 0 env False empty_extent file_sample [72, 105] (Some 0) =
    Done (- EIO, file_sample\<lparr>i_lock := True\<rparr>, Some 0, s')"
proof -
  let ?h = "\<lparr>fe_next = 0, fe_capacity = 1, fe_length = 0\<rparr>"
  have b: "d_blocks (s_dev empty_extent) 3 = Some (extent_header_bytes ?h @ replicate 8 0)"
    by (simp add: empty_extent_def)
  have hb: "load (extent_header_bytes ?h @ replicate 8 0) 0 16 = extent_header_bytes ?h"
    by (simp add: load_def)
  have low: "low32 (fe_next ?h) = fe_next ?h" by (simp add: low32_def)
  obtain h s' where w: "spfs_write_file_extent empty_extent 3 [72, 105] 0 0 = Done (2, h, [], 0, 0, s')"
    using spfs_write_file_extent_head [OF b hb low, of 0 "[72, 105]" 0] by simp
  have reg: "S_ISREG (i_mode file_sample)" by (simp add: S_ISREG_def file_sample_def)
  have cap: "spfs_ensure_capacity 0 env empty_extent (file_sample\<lparr>i_lock := True\<rparr>) 0 2 =
      Done (0, 0, file_sample\<lparr>i_lock := True\<rparr>, empty_extent)"
    by (simp add: spfs_ensure_capacity_def spfs_calc_extra_blocks_def file_sample_def)
  show ?thesis
    using reg cap w
    by (subst spfs_write_unfold) (simp_all add: file_sample_def numeral_2_eq_2 [symmetric] Let_def)
qed

theorem write_reports_nothing_witness:
  "\<exists>s'. spfs_write 1 0 sample_env False empty_extent file_sample [72, 105] (Some 0) =
      Done (- EIO, file_sample\<lparr>i_lock := True\<rparr>, Some 0, s') \<and>
    i_size (file_sample\<lparr>i_lock := True\<rparr>) = i_size file_sample"
proof -
  obtain s' where w: "spfs_write 1 0 sample_env False empty_extent file_sample [72, 105] (Some 0) =
      Done (- EIO, file_sample\<lparr>i_lock := True\<rparr>, Some 0, s')"
    using file_sample_write by blast
  from write_reports_nothing [OF w] w show ?thesis
    by (auto simp: S_ISREG_def file_sample_def)
qed

theorem write_to_empty_file_keeps_lock_witness:
  "\<exists>s' :: spfs. spfs_write 1 0 sample_env False s' (file_sample\<lparr>i_lock := True\<rparr>) [72, 105] (Some 0) =
    Crash SelfDeadlock"
proof -
  obtain s' where w: "spfs_write 1 0 sample_env False empty_extent file_sample [72, 105] (Some 0) =
      Done (- EIO, file_sample\<lparr>i_lock := True\<rparr>, Some 0, s')"
    using file_sample_write by blast
  have dev: "dev_ok 24 (s_dev empty_extent)" by (simp add: dev_ok_def empty_extent_def)
  show ?thesis
    using write_to_empty_file_keeps_lock [OF w _ _ _ _ dev, of 1 0]
    by (auto simp: S_ISREG_def file_sample_def)
qed

lemma spfs_read_failed:
  assumes "spfs_read fuel bfuel s inode in_len (Some p) = Done (res, out, inode', p', s')"
    and "res < 0" and "S_ISREG (i_mode inode)" and "\<not> i_lock inode" and "in_len \<noteq> 0"
  shows "inode' = inode\<lparr>i_lock := True\<rparr>" and "p' = Some p"
proof -
  have lock: "mutex_lock inode = Done (inode\<lparr>i_lock := True\<rparr>)"
    using assms(4) by (simp add: mutex_lock_def)
  obtain r out2 s2 where loop: "read_extents fuel bfuel s (in_start inode) [] in_len p 0 = Done (r, out2, s2)"
    using assms(1,3,5) lock by (auto simp: spfs_read_def bnd_Done_iff)
  have "inode' = inode\<lparr>i_lock := True\<rparr> \<and> p' = Some p"
  proof (cases r)
    case (Inl e)
    then show ?thesis using assms(1,3,5) lock loop by (simp add: spfs_read_def)
  next
    case (Inr n)
    then have "0 \<le> n" using read_extents_nonneg loop by blast
    then show ?thesis using assms(1,2,3,5) lock loop Inr by (simp add: spfs_read_def)
  qed
  then show "inode' = inode\<lparr>i_lock := True\<rparr>" and "p' = Some p" by simp_all
qed

text \<open>
  A read that fails leaves the mutex of the inode locked and the position where it was: the
  next read of the file waits for itself.
\<close>

theorem failed_read_keeps_lock:
  assumes "spfs_read fuel bfuel s inode in_len (Some p) = Done (res, out, inode', p', s')"
    and "res < 0" and "S_ISREG (i_mode inode)" and "\<not> i_lock inode" and "in_len \<noteq> 0"
  shows "i_lock inode' \<and> p' = Some p \<and>
    spfs_read fuel bfuel s' inode' in_len (Some q) = Crash SelfDeadlock"
  using spfs_read_failed [OF assms] assms(3,5) by (simp add: spfs_read_def mutex_lock_held)

theorem failed_read_keeps_lock_witness:
  "spfs_read 1 1 empty_extent (file_sample\<lparr>in_start := 5, i_lock := True\<rparr>) 4 (Some 0) = Crash SelfDeadlock"
proof -
  have none: "d_blocks (s_dev empty_extent) 5 = None" by (simp add: empty_extent_def)
  have r: "spfs_read 1 1 empty_extent (file_sample\<lparr>in_start := 5\<rparr>) 4 (Some 0) =
      Done (- EIO, [], file_sample\<lparr>in_start := 5, i_lock := True\<rparr>, Some 0, empty_extent)"
    by (simp add: spfs_read_def S_ISREG_def file_sample_def mutex_lock_def spfs_read_file_extent_def
        fs_bread_None [OF none] EIO_def)
  show ?thesis
    using failed_read_keeps_lock [OF r] by (simp add: S_ISREG_def file_sample_def EIO_def)
qed

end
