(* ===== verification/Evolve.thy ===== *)
theory Evolve
  imports Vfs_Laws File_Write
begin

text \<open>
  What no operation on the disk undoes: buffers keep their sizes, the free list stays
  well-formed and only shrinks, and a tree that has a root keeps having one.
  \<open>evolves s s'\<close> says this of two states, and that the parts of the state no such operation
  touches (the inode numbers, the block size, the cache) are the same; one lemma per operation
  shows that it holds between the states before and after, whatever the operation returns.
\<close>

definition evolves :: "'a spfs_scheme \<Rightarrow> 'a spfs_scheme \<Rightarrow> bool" where
  "evolves s s' \<longleftrightarrow>
     (\<forall>n. map_option length (d_blocks (s_dev s') n) = map_option length (d_blocks (s_dev s) n)) \<and>
     (free_ok (sbi_free_list s) \<longrightarrow> free_ok (sbi_free_list s') \<and>
        free_sectors (sbi_free_list s') \<subseteq> free_sectors (sbi_free_list s)) \<and>
     (tree_start s \<noteq> 0 \<longrightarrow> tree_start s' \<noteq> 0) \<and>
     sbi_id s' = sbi_id s \<and> sbi_block_size s' = sbi_block_size s \<and> spfs.more s' = spfs.more s"

lemma evolves_refl [simp, intro]: "evolves s s"
  by (simp add: evolves_def)

lemma evolves_trans [trans]: "evolves s t \<Longrightarrow> evolves t u \<Longrightarrow> evolves s u"
  by (auto simp: evolves_def)

lemma evolves_buffers [simp]:
  "evolves s (fs_dirty t n) = evolves s t" "evolves s (fs_brelse t n) = evolves s t"
  "evolves (fs_dirty s n) t = evolves s t" "evolves (fs_brelse s n) t = evolves s t"
  by (simp_all add: evolves_def fs_dirty_def fs_brelse_def)

lemma evolves_put:
  assumes "d_blocks (s_dev t) n = Some b" and "length b' = length b" and "evolves s t"
  shows "evolves s (fs_put t n b')"
proof -
  have "map_option length (d_blocks (s_dev t) n) = map_option length (d_blocks (s_dev s) n)"
    using assms(3) unfolding evolves_def by blast
  then have "map_option length (d_blocks (s_dev s) n) = Some (length b')" using assms(1,2) by simp
  then show ?thesis using assms(3) unfolding evolves_def by (simp add: fs_put_def del: map_option_eq_Some)
qed

lemma evolves_alloc: "fs_alloc s n = (r, s') \<Longrightarrow> evolves s s'"
proof (cases "r = 0")
  case True
  assume a: "fs_alloc s n = (r, s')"
  then have "free_ok (sbi_free_list s) \<Longrightarrow> s' = s" using True by (auto dest: fs_alloc_zero)
  then show ?thesis using a by (auto simp: evolves_def fs_alloc_eq)
next
  case False
  assume a: "fs_alloc s n = (r, s')"
  have "free_ok (sbi_free_list s) \<Longrightarrow> free_ok (sbi_free_list s') \<and>
      free_sectors (sbi_free_list s') \<subseteq> free_sectors (sbi_free_list s)"
    using fs_allocator.alloc_avail [OF _ a False] fs_allocator.alloc_inv [OF _ a False] by blast
  then show ?thesis using a by (auto simp: evolves_def fs_alloc_eq)
qed

lemma evolves_bread: "fs_bread s n = Some (b, s') \<Longrightarrow> evolves s s' \<and> d_blocks (s_dev s') n = Some b"
  by (auto simp: fs_bread_def sb_bread_Some evolves_def)

lemma fs_get_Done [simp]: "fs_get s n = Done b \<longleftrightarrow> d_blocks (s_dev s) n = Some b"
  by (simp add: fs_get_def)

lemma same_shape_evolves: "same_shape (s_dev s) d \<Longrightarrow> evolves s (s\<lparr>s_dev := d\<rparr>)"
  by (simp add: evolves_def same_shape_def)

section \<open>Buffers of nodes keep their size\<close>

lemma mem_write_length: "mem_write b off xs = Done b' \<Longrightarrow> length b' = length b"
  by (auto simp: mem_write_def split: if_splits)

lemma node_write_length:
  "bnode_set_child b i c = Done b' \<Longrightarrow> length b' = length b"
  "bnode_set_entry b i e = Done b' \<Longrightarrow> length b' = length b"
  "bnode_set_length b n = Done (m, b') \<Longrightarrow> length b' = length b"
  "bnode_child_add_back b c = Done (r, b') \<Longrightarrow> length b' = length b"
  by (auto simp: bnode_set_child_def bnode_set_entry_def bnode_set_length_def bnode_child_add_back_def
      bnd_Done_iff bug_on_Done_iff dest: mem_write_length)

lemma bnode_bin_insert_length:
  assumes "bnode_bin_insert b e gt = Done (r, b')"
  shows "length b' = length b"
proof -
  obtain full where "bnode_is_full b = Done full" using assms by (auto simp: bnode_bin_insert_def bnd_Done_iff)
  then show ?thesis
    using assms by (cases full)
      (auto simp: bnode_bin_insert_def bnd_Done_iff bug_on_Done_iff Let_def split: if_splits
        dest!: mem_write_length node_write_length)
qed

lemma bnode_bin_insert_b_length: "bnode_bin_insert_b b e = Done (r, b') \<Longrightarrow> length b' = length b"
  unfolding bnode_bin_insert_b_def by (rule bnode_bin_insert_length)

lemmas node_lengths = node_write_length bnode_bin_insert_length bnode_bin_insert_b_length

section \<open>The tree\<close>

lemma partition_after_evolves:
  "partition_after fuel s from to i m = Done (m', s') \<Longrightarrow> evolves s s'"
proof (induction fuel arbitrary: s i m)
  case (Suc fuel)
  then show ?case
    by (auto simp: bnd_Done_iff bug_on_Done_iff split: if_splits
        dest!: bnode_bin_insert_length intro: evolves_trans [OF evolves_put])
qed simp

lemma partition_greater_evolves:
  "partition_greater fuel s bubble from pivot to i move m = Done (r, m', s') \<Longrightarrow> evolves s s'"
proof (induction fuel arbitrary: s i move m)
  case (Suc fuel)
  then show ?case
    by (auto simp: bnd_Done_iff bug_on_Done_iff split: if_splits
        dest!: bnode_bin_insert_length intro: evolves_trans [OF evolves_put])
qed simp

lemma bnode_partition_evolves: "bnode_partition s bubble from pivot to = Done s' \<Longrightarrow> evolves s s'"
  by (auto simp: bnode_partition_def Let_def bnd_Done_iff bug_on_Done_iff split: if_splits
      dest!: partition_after_evolves partition_greater_evolves node_write_length intro: evolves_put)

lemma bnode_extract_evolves: "bnode_extract s tree needle dest right = Done (r, s') \<Longrightarrow> evolves s s'"
  by (auto simp: bnode_extract_def Let_def bnd_Done_iff bug_on_Done_iff
      dest!: node_write_length intro!: evolves_put)

lemma btree_fixup_evolves:
  assumes "btree_fixup s tree bubble = Done (r, bubble', s')"
  shows "evolves s s'"
proof -
  obtain b full where b: "d_blocks (s_dev s) tree = Some b" "bnode_is_full b = Done full"
    using assms by (auto simp: btree_fixup_def bnd_Done_iff bug_on_Done_iff)
  show ?thesis
  proof (cases full)
    case False
    then show ?thesis
      using assms b by (auto simp: btree_fixup_def fs_get_def bnd_Done_iff bug_on_Done_iff get_buf_def
          dest!: bnode_bin_insert_b_length intro!: evolves_put)
  next
    case True
    obtain med where med: "bnode_median b (bb_entry bubble) = Done med"
      using assms b True by (auto simp: btree_fixup_def fs_get_def bnd_Done_iff bug_on_Done_iff get_buf_def)
    obtain right s1 where a: "fs_alloc s (tree_blocks s) = (right, s1)" by fastforce
    note e1 = evolves_alloc [OF a]
    have get: "fs_get s tree = Done b" and full: "bnode_is_full b = Done True" using b True by simp_all
    show ?thesis
    proof (cases "fs_bread s1 right")
      case None
      then show ?thesis
        using assms b True med a e1
        by (auto simp: btree_fixup_def fs_get_def bnd_Done_iff bug_on_Done_iff get_buf_def)
    next
      case (Some q)
      obtain bh s2 where q: "q = (bh, s2)" by (cases q)
      define s3 where "s3 = fs_put s2 right (bnode_make bh)"
      have e3: "evolves s s3"
        using evolves_bread [OF Some [unfolded q]] e1
        by (auto simp: s3_def intro!: evolves_put intro: evolves_trans)
      obtain s4 where p: "bnode_partition s3 bubble tree med right = Done s4"
        using assms b True med a Some q
        by (auto simp: btree_fixup_def fs_get_def bnd_Done_iff bug_on_Done_iff get_buf_def s3_def)
      have e4: "evolves s s4" using e3 bnode_partition_evolves [OF p] by (rule evolves_trans)
      have "evolves s4 s'"
        using assms
        by (simp add: btree_fixup_def get full med a Some q p s3_def [symmetric] bug_on_Done_iff del: fs_get_Done)
          (auto simp: bnd_Done_iff bug_on_Done_iff split: if_splits
            dest!: bnode_extract_evolves bnode_bin_insert_b_length node_write_length
            intro: evolves_trans [OF evolves_put] evolves_put)
      with e4 show ?thesis by (rule evolves_trans)
    qed
  qed
qed

text \<open>One step down: what the recursive call and the fix-up afterwards do.\<close>

lemma descend_evolves:
  fixes s s' :: "'a spfs_scheme"
  assumes rec: "\<And>(s1 :: 'a spfs_scheme) r b o1 s2. btree_insert fuel env s1 (Some child) inode out = Done (r, b, o1, s2) \<Longrightarrow>
      evolves s1 s2"
    and run: "(case fs_bread s child of
         None \<Rightarrow> Done (- EIO, bubble_zero, out, s)
       | Some (bh, s) \<Rightarrow>
           bnd (btree_insert fuel env s (Some child) inode out) (\<lambda>(res, bubble, out, s).
           let s = fs_brelse (fs_dirty s child) child in
           if bubble_is_active bubble then
             bnd (btree_fixup s tree bubble) (\<lambda>(res, bubble, s). Done (res, bubble, out, s))
           else Done (res, bubble, out, s))) = Done (res, bubble, out', s')"
  shows "evolves s s'"
proof (cases "fs_bread s child")
  case None
  then show ?thesis using run by simp
next
  case (Some q)
  obtain bh s1 where q: "q = (bh, s1)" by (cases q)
  have e1: "evolves s s1" using evolves_bread [OF Some [unfolded q]] by blast
  obtain r2 b2 o2 s2 where i: "btree_insert fuel env s1 (Some child) inode out = Done (r2, b2, o2, s2)"
    using run Some q by (auto simp: bnd_Done_iff simp del: btree_insert.simps)
  have e2: "evolves s s2" using e1 rec [OF i] by (rule evolves_trans)
  show ?thesis
  proof (cases "bubble_is_active b2")
    case True
    then have "evolves (fs_brelse (fs_dirty s2 child) child) s'"
      using run Some q i by (auto simp: bnd_Done_iff Let_def dest: btree_fixup_evolves simp del: btree_insert.simps)
    then show ?thesis using e2 by (auto intro: evolves_trans)
  next
    case False
    then show ?thesis using run Some q i e2 by (auto simp: Let_def simp del: btree_insert.simps)
  qed
qed

lemma btree_insert_new_evolves:
  assumes "btree_insert fuel env s None inode out = Done (res, bubble, out', s')"
  shows "evolves s s'"
proof -
  obtain page s1 where a: "fs_alloc s (tree_blocks s) = (page, s1)" by fastforce
  note e1 = evolves_alloc [OF a]
  show ?thesis
  proof (cases "page = 0 \<or> fs_bread s1 page = None")
    case True
    then show ?thesis using assms a e1 by (auto split: if_splits)
  next
    case False
    then obtain b s2 where b: "page \<noteq> 0" "fs_bread s1 page = Some (b, s2)" by auto
    have e2: "evolves s s2" "d_blocks (s_dev s2) page = Some b"
      using evolves_bread [OF b(2)] e1 by (auto intro: evolves_trans)
    show ?thesis
      using assms a b e2 by (auto simp: bnd_Done_iff Let_def dest!: spfs_inode_make_length
          intro!: evolves_put split: if_splits)
  qed
qed

lemma btree_insert_evolves:
  "btree_insert fuel env s tree inode out = Done (res, bubble, out', s') \<Longrightarrow> evolves s s'"
proof (induction fuel arbitrary: s tree out res bubble out' s')
  case 0
  show ?case
  proof (cases tree)
    case None
    show ?thesis by (rule btree_insert_new_evolves [OF 0 [unfolded None]])
  next
    case (Some t)
    then show ?thesis using 0 by simp
  qed
next
  case (Suc fuel)
  show ?case
  proof (cases tree)
    case None
    show ?thesis by (rule btree_insert_new_evolves [OF Suc.prems [unfolded None]])
  next
    case (Some t)
    note down = descend_evolves [where fuel = fuel and env = env and inode = inode and out = out,
        OF Suc.IH, rotated]
    obtain b found where b: "fs_get s t = Done b" "bnode_bin_find_gte b (i_ino inode) = Done found"
      using Suc.prems by (auto simp: Some bnd_Done_iff)
    show ?thesis
    proof (cases found)
      case None
      then show ?thesis
        using Suc.prems b unfolding \<open>tree = Some t\<close>
        by (simp add: Let_def bnd_Done_iff [of "bnode_child_length b"] bnd_Done_iff [of "bnode_length b"]
            bnd_Done_iff [of "bnode_is_empty b"] bnd_Done_iff [of "bnode_get_child b c" for c]
            bug_on_Done_iff del: fs_get_Done split del: if_split)
          (elim exE conjE, erule down)
    next
      case f: (Some gte)
      then obtain id where id: "bentry_id b gte = Done id"
        using Suc.prems b by (auto simp: Some bnd_Done_iff)
      show ?thesis
      proof (cases "bentry_is_eq id (i_ino inode)")
        case True
        then show ?thesis
          using Suc.prems b f id by (auto simp: Some bnd_Done_iff simp del: fs_get_Done)
      next
        case False
        then show ?thesis
          using Suc.prems b f id unfolding \<open>tree = Some t\<close>
          by (simp add: Let_def bnd_Done_iff [of "bnode_get_child b c" for c] bug_on_Done_iff
              del: fs_get_Done split del: if_split)
            (elim exE conjE, erule down)
      qed
    qed
  qed
qed

lemma bnode_alloc_root_evolves:
  assumes "bnode_alloc_root s bubble = Done (res, s')"
  shows "evolves s s'"
proof -
  obtain root s1 where a: "fs_alloc s (tree_blocks s) = (root, s1)" by fastforce
  note e1 = evolves_alloc [OF a]
  have start: "tree_start s1 = tree_start s" using a by (auto simp: fs_alloc_eq)
  show ?thesis
  proof (cases "root = 0 \<or> fs_bread s1 (tree_start s) = None")
    case True
    then show ?thesis
      using assms a e1 start by (elim disjE) (auto simp: bnode_alloc_root_def Let_def split: if_splits)
  next
    case False
    then obtain b s2 where b: "root \<noteq> 0" "fs_bread s1 (tree_start s) = Some (b, s2)" by auto
    have e2: "evolves s s2" "d_blocks (s_dev s2) (tree_start s) = Some b"
      using evolves_bread [OF b(2)] e1 by (auto intro: evolves_trans)
    have e3: "evolves s (s2\<lparr>tree_start := root\<rparr>)" using e2(1) b(1) by (simp add: evolves_def)
    show ?thesis
      using assms a b e2(2) start
      by (auto simp: bnode_alloc_root_def bnd_Done_iff bug_on_Done_iff Let_def
          dest!: node_lengths intro!: evolves_put e3)
  qed
qed

lemma root_fixup_evolves:
  assumes "evolves s u" and "(if bubble_is_active bubble then
      bnd (bnode_alloc_root u bubble) (\<lambda>(nres, s). bug_on (nres \<noteq> 0) (Done (r, s)))
    else Done (r, u)) = Done (res, s')"
  shows "evolves s s'"
  using assms by (auto simp: bnd_Done_iff bug_on_Done_iff split: if_splits
      dest!: bnode_alloc_root_evolves intro: evolves_trans)

lemma spfs_btree_insert_evolves:
  assumes "spfs_btree_insert fuel env s inode = Done (res, s')"
  shows "evolves s s'"
proof (cases "tree_start s = 0")
  case True
  then obtain r bubble out u where i: "btree_insert fuel env s None inode 0 = Done (r, bubble, out, u)"
    using assms by (auto simp: spfs_btree_insert_def Let_def bnd_Done_iff simp del: btree_insert.simps)
  show ?thesis
    by (rule root_fixup_evolves [OF btree_insert_evolves [OF i], of bubble r res])
      (use assms True i in
        \<open>simp add: spfs_btree_insert_def Let_def del: btree_insert.simps cong: if_cong\<close>)
next
  case False
  show ?thesis
  proof (cases "fs_bread s (tree_start s)")
    case None
    then show ?thesis using assms False by (simp add: spfs_btree_insert_def Let_def)
  next
    case (Some q)
    obtain b t where q: "q = (b, t)" by (cases q)
    obtain r bubble out u
      where i: "btree_insert fuel env t (Some (tree_start s)) inode 0 = Done (r, bubble, out, u)"
      using assms False Some q
      by (auto simp: spfs_btree_insert_def Let_def bnd_Done_iff simp del: btree_insert.simps)
    have "evolves s u"
      using evolves_bread [OF Some [unfolded q]] btree_insert_evolves [OF i] by (auto intro: evolves_trans)
    then have "evolves s (fs_brelse (fs_dirty u (tree_start s)) (tree_start s))" by simp
    then show ?thesis
      by (rule root_fixup_evolves [where u = "fs_brelse (fs_dirty u (tree_start s)) (tree_start s)"
            and bubble = bubble and r = r])
        (use assms False Some q i in
          \<open>simp_all add: spfs_btree_insert_def Let_def del: btree_insert.simps cong: if_cong\<close>)
  qed
qed

lemma spfs_btree_modify_evolves:
  "spfs_btree_modify fuel env s ino c cb = Done (res, c', s') \<Longrightarrow> evolves s s'"
  by (auto dest!: spfs_btree_modify_shape intro: same_shape_evolves)

end
