(* ===== verification/Evolve_Ops.thy ===== *)
theory Evolve_Ops
  imports Evolve
begin

text \<open>
  The relation \<open>evolves\<close> for the operations above the tree: directories, files, inodes and
  the calls of the VFS. Each lemma covers every return of its operation.
\<close>

section \<open>Headers keep the size of their block\<close>

lemma write_or_Done:
  "write_or m e bh pos k = Done r \<longleftrightarrow>
    (m = Done None \<and> r = (e, bh, pos)) \<or> (\<exists>b p. m = Done (Some (b, p)) \<and> k b p = Done r)"
  by (cases m) (auto simp: write_or_def split: option.splits)

lemma sb_write_u32_length: "spfs_sb_write_u32 bh pos v = Done (Some (b, p)) \<Longrightarrow> length b = length bh"
  by (auto simp: spfs_sb_write_u32_def spfs_sb_remaining_def bnd_Done_iff bug_on_Done_iff split: if_splits)

lemma header_lengths:
  "spfs_make_dir_block bh pos block = Done (r, b, p) \<Longrightarrow> length b = length bh"
  "spfs_make_file_extent bh pos header = Done (r, b, p) \<Longrightarrow> length b = length bh"
  by (auto simp: spfs_make_dir_block_def spfs_make_file_extent_def write_or_Done dest!: sb_write_u32_length)

lemma dir_write_child_length: "spfs_dir_write_child bh start idx child = Done (r, b) \<Longrightarrow> length b = length bh"
  by (auto simp: spfs_dir_write_child_def bnd_Done_iff Let_def split: if_splits option.splits
      dest!: sb_write_u32_length)

lemma do_write_length: "spfs_do_write bh bh_pos src pos = Done (n, b, p, src', pos') \<Longrightarrow> length b = length bh"
  by (auto simp: spfs_do_write_def spfs_sb_remaining_def bnd_Done_iff bug_on_Done_iff Let_def split: if_splits)

lemmas block_lengths = header_lengths dir_write_child_length do_write_length

section \<open>Directories\<close>

lemma dir_block_alloc_evolves:
  assumes "spfs_dir_block_alloc s p = Done (r, p', s')"
  shows "evolves s s'"
proof -
  obtain n s1 where a: "fs_alloc s 1 = (n, s1)" by fastforce
  note e1 = evolves_alloc [OF a]
  show ?thesis
  proof (cases "n = 0 \<or> fs_bread s1 n = None")
    case True
    then show ?thesis using assms a e1 by (auto simp: spfs_dir_block_alloc_def split: if_splits)
  next
    case False
    then obtain b s2 where b: "n \<noteq> 0" "fs_bread s1 n = Some (b, s2)" by auto
    have e2: "evolves s s2" "d_blocks (s_dev s2) n = Some b"
      using evolves_bread [OF b(2)] e1 by (auto intro: evolves_trans)
    then show ?thesis
      using assms a b by (auto simp: spfs_dir_block_alloc_def bnd_Done_iff dest!: block_lengths intro!: evolves_put)
  qed
qed

lemma dir_append_child_evolves: "dir_append_child s n p block child = Done s' \<Longrightarrow> evolves s s'"
  by (auto simp: dir_append_child_def bnd_Done_iff dest!: block_lengths intro!: evolves_put)

lemma add_child_loop_evolves:
  "add_child_loop fuel s parent start child = Done (res, parent', s') \<Longrightarrow> evolves s s'"
proof (induction fuel arbitrary: s start)
  case (0 s start)
  show ?case
  proof (cases "start = 0 \<or> fs_bread s start = None")
    case True
    then show ?thesis
      using 0 by (subst (asm) add_child_loop.simps)
        (auto simp: bnd_Done_iff Let_def split: if_splits
          dest!: dir_append_child_evolves dir_block_alloc_evolves intro: evolves_trans)
  next
    case False
    then obtain b t where b: "start \<noteq> 0" "fs_bread s start = Some (b, t)" by auto
    then obtain r where r: "spfs_parse_dir_block b 0 = Done r"
      using 0 by (subst (asm) add_child_loop.simps) (auto simp: bnd_Done_iff)
    have "evolves t s'"
      using 0 b r by (subst (asm) add_child_loop.simps, cases r)
        (auto simp: bnd_Done_iff split: if_splits dest!: dir_append_child_evolves)
    then show ?thesis using evolves_bread [OF b(2)] by (auto intro: evolves_trans)
  qed
next
  case (Suc fuel s start)
  show ?case
  proof (cases "start = 0 \<or> fs_bread s start = None")
    case True
    then show ?thesis
      using Suc.prems by (subst (asm) add_child_loop.simps)
        (auto simp: bnd_Done_iff Let_def split: if_splits
          dest!: dir_append_child_evolves dir_block_alloc_evolves intro: evolves_trans)
  next
    case False
    then obtain b t where b: "start \<noteq> 0" "fs_bread s start = Some (b, t)" by auto
    then obtain r where r: "spfs_parse_dir_block b 0 = Done r"
      using Suc.prems by (subst (asm) add_child_loop.simps) (auto simp: bnd_Done_iff)
    have "evolves t s'"
      using Suc.prems b r by (subst (asm) add_child_loop.simps, cases r)
        (auto simp: bnd_Done_iff split: if_splits dest!: dir_append_child_evolves Suc.IH)
    then show ?thesis using evolves_bread [OF b(2)] by (auto intro: evolves_trans)
  qed
qed

lemma add_child_evolves: "spfs_add_child fuel s parent child = Done (res, parent', s') \<Longrightarrow> evolves s s'"
  by (auto simp: spfs_add_child_def bnd_Done_iff Let_def dest!: add_child_loop_evolves)

text \<open>Neither the name nor the mode of the directory changes.\<close>

lemma add_child_loop_new_block:
  assumes "add_child_loop fuel s parent start child = Done (res, parent', s')"
    and "start = 0 \<or> fs_bread s start = None"
  shows "in_name parent' = in_name parent \<and> i_mode parent' = i_mode parent"
proof (cases "start = 0")
  case True
  then have run: "bnd (spfs_dir_block_alloc s 0) (\<lambda>(result, bh_pos, s).
      let parent = parent\<lparr>in_start := result\<rparr> in
      if result = 0 then Done (- EINVAL, parent, s)
      else bnd (dir_append_child s result bh_pos \<lparr>db_next = 0, db_children = 0\<rparr> child) (\<lambda>s. Done (0, parent, s))) =
      Done (res, parent', s')"
    using assms(1) by (subst (asm) add_child_loop.simps) simp
  then obtain r p t where a: "spfs_dir_block_alloc s 0 = Done (r, p, t)" by (auto simp: bnd_Done_iff)
  show ?thesis
  proof (cases "r = 0")
    case True
    then show ?thesis using run a by auto
  next
    case False
    then show ?thesis using run a by (auto simp: bnd_Done_iff)
  qed
next
  case False
  then show ?thesis using assms by (subst (asm) add_child_loop.simps) simp
qed

lemma add_child_loop_private:
  "add_child_loop fuel s parent start child = Done (res, parent', s') \<Longrightarrow>
    in_name parent' = in_name parent \<and> i_mode parent' = i_mode parent"
proof (induction fuel arbitrary: s start)
  case (0 s start)
  show ?case
  proof (cases "start = 0 \<or> fs_bread s start = None")
    case True
    then show ?thesis using add_child_loop_new_block [OF 0] by blast
  next
    case False
    then obtain b t where b: "start \<noteq> 0" "fs_bread s start = Some (b, t)" by auto
    then obtain r where r: "spfs_parse_dir_block b 0 = Done r"
      using 0 by (subst (asm) add_child_loop.simps) (auto simp: bnd_Done_iff)
    then show ?thesis
      using 0 b by (subst (asm) add_child_loop.simps, cases r) (auto simp: bnd_Done_iff split: if_splits)
  qed
next
  case (Suc fuel s start)
  show ?case
  proof (cases "start = 0 \<or> fs_bread s start = None")
    case True
    then show ?thesis using add_child_loop_new_block [OF Suc.prems] by blast
  next
    case False
    then obtain b t where b: "start \<noteq> 0" "fs_bread s start = Some (b, t)" by auto
    then obtain r where r: "spfs_parse_dir_block b 0 = Done r"
      using Suc.prems by (subst (asm) add_child_loop.simps) (auto simp: bnd_Done_iff)
    then show ?thesis
      using Suc.prems b by (subst (asm) add_child_loop.simps, cases r)
        (auto simp: bnd_Done_iff split: if_splits dest!: Suc.IH)
  qed
qed

lemma add_child_private:
  "spfs_add_child fuel s parent child = Done (res, parent', s') \<Longrightarrow>
    in_name parent' = in_name parent \<and> i_mode parent' = i_mode parent"
  by (auto simp: spfs_add_child_def mutex_lock_def mutex_unlock_def bnd_Done_iff Let_def
      dest!: add_child_loop_private split: if_splits)

section \<open>Files\<close>

lemma file_extent_alloc_evolves:
  assumes "spfs_file_extent_alloc s blocks = Done (r, s')"
  shows "evolves s s'"
proof -
  obtain n s1 where a: "fs_alloc s blocks = (n, s1)" by fastforce
  note e1 = evolves_alloc [OF a]
  show ?thesis
  proof (cases "n = 0 \<or> fs_bread s1 n = None")
    case True
    then show ?thesis using assms a e1 by (auto simp: spfs_file_extent_alloc_def split: if_splits)
  next
    case False
    then obtain b s2 where b: "n \<noteq> 0" "fs_bread s1 n = Some (b, s2)" by auto
    have e2: "evolves s s2" "d_blocks (s_dev s2) n = Some b"
      using evolves_bread [OF b(2)] e1 by (auto intro: evolves_trans)
    then show ?thesis
      using assms a b by (auto simp: spfs_file_extent_alloc_def bnd_Done_iff Let_def split: if_splits
          dest!: block_lengths intro!: evolves_put)
  qed
qed

lemma read_extent_loop_evolves:
  "read_extent_loop fuel s start bh p len out in_len pos read = Done (r, out', in_len', pos', s') \<Longrightarrow> evolves s s'"
proof (induction fuel arbitrary: s start bh p len out in_len pos read)
  case (Suc fuel)
  from Suc.prems show ?case
    by (auto simp: bnd_Done_iff split: if_splits option.splits
        dest!: Suc.IH evolves_bread intro: evolves_trans)
qed simp

lemma read_file_extent_evolves:
  assumes "spfs_read_file_extent fuel s next start out in_len pos = Done (r, n, out', in_len', pos', s')"
  shows "evolves s s'"
proof (cases "fs_bread s start")
  case None
  then show ?thesis using assms by (simp add: spfs_read_file_extent_def)
next
  case (Some q)
  obtain b s1 where q: "q = (b, s1)" by (cases q)
  obtain v where v: "spfs_parse_file_extent b 0 = Done v"
    using assms Some q by (auto simp: spfs_read_file_extent_def bnd_Done_iff)
  have "evolves s1 s'"
    using assms Some q v by (cases v) (auto simp: spfs_read_file_extent_def bnd_Done_iff
        dest!: read_extent_loop_evolves)
  then show ?thesis using evolves_bread [OF Some [unfolded q]] by (auto intro: evolves_trans)
qed

lemma read_extents_evolves:
  "read_extents fuel bfuel s start out in_len pos read = Done (r, out', s') \<Longrightarrow> evolves s s'"
proof (induction fuel arbitrary: s start out in_len pos read)
  case (Suc fuel)
  from Suc.prems show ?case
    by (auto simp: bnd_Done_iff split: if_splits
        dest!: Suc.IH read_file_extent_evolves intro: evolves_trans)
qed (simp split: if_splits)

lemma read_evolves:
  assumes "spfs_read fuel bfuel s inode in_len ppos = Done (res, out, inode', ppos', s')"
  shows "evolves s s'"
proof (cases "\<exists>p. ppos = Some p \<and> in_len \<noteq> 0 \<and> S_ISREG (i_mode inode) \<and> \<not> i_lock inode")
  case False
  then show ?thesis
    using assms by (auto simp: spfs_read_def mutex_lock_def split: if_splits option.splits)
next
  case True
  then obtain p where p: "ppos = Some p" "in_len \<noteq> 0" "S_ISREG (i_mode inode)" "\<not> i_lock inode" by blast
  obtain r out1 u where l: "read_extents fuel bfuel s (in_start inode) [] in_len p 0 = Done (r, out1, u)"
    using assms p by (auto simp: spfs_read_def mutex_lock_def bnd_Done_iff)
  have "u = s'" using assms p l by (cases r) (auto simp: spfs_read_def mutex_lock_def)
  then show ?thesis using read_extents_evolves [OF l] by simp
qed

lemma read_private:
  assumes "spfs_read fuel bfuel s inode in_len ppos = Done (res, out, inode', ppos', s')"
  shows "in_name inode' = in_name inode \<and> i_mode inode' = i_mode inode"
proof (cases "\<exists>p. ppos = Some p \<and> in_len \<noteq> 0 \<and> S_ISREG (i_mode inode) \<and> \<not> i_lock inode")
  case False
  then show ?thesis
    using assms by (auto simp: spfs_read_def mutex_lock_def split: if_splits option.splits)
next
  case True
  then obtain p where p: "ppos = Some p" "in_len \<noteq> 0" "S_ISREG (i_mode inode)" "\<not> i_lock inode" by blast
  obtain r out1 u where l: "read_extents fuel bfuel s (in_start inode) [] in_len p 0 = Done (r, out1, u)"
    using assms p by (auto simp: spfs_read_def mutex_lock_def bnd_Done_iff)
  then show ?thesis using assms p by (cases r) (auto simp: spfs_read_def mutex_lock_def mutex_unlock_def)
qed

lemma ensure_capacity_evolves:
  assumes "spfs_ensure_capacity fuel env s inode p n = Done (res, extra, inode', s')"
  shows "evolves s s'"
  using assms
  by (auto simp: spfs_ensure_capacity_def bnd_Done_iff Let_def split: if_splits
      dest!: file_extent_alloc_evolves spfs_btree_modify_evolves intro: evolves_trans)

lemma write_block_evolves:
  "write_block s it header src pos = Done (Some (n, header', src', pos', s')) \<Longrightarrow> evolves s s'"
  by (auto simp: write_block_def bnd_Done_iff Let_def split: option.splits
      dest!: evolves_bread block_lengths intro!: evolves_put)

lemma write_blocks_evolves:
  "write_blocks fuel s stop it header src pos dirty = Done (r, header', src', pos', s') \<Longrightarrow> evolves s s'"
proof (induction fuel arbitrary: s it header src pos dirty)
  case (Suc fuel)
  from Suc.prems show ?case
    by (auto simp: bnd_Done_iff split: if_splits option.splits
        dest!: Suc.IH write_block_evolves intro: evolves_trans)
qed (simp split: if_splits)

lemma write_file_extent_evolves:
  assumes "spfs_write_file_extent s start src pos extra = Done (r, header, src', pos', extra', s')"
  shows "evolves s s'"
proof (cases "d_blocks (s_dev s) start")
  case None
  then show ?thesis using assms by (simp add: spfs_write_file_extent_def fs_bread_None Let_def)
next
  case b: (Some b)
  obtain v where v: "spfs_parse_file_extent b 0 = Done v"
    using assms by (auto simp: spfs_write_file_extent_def fs_bread_held [OF b] bnd_Done_iff)
  show ?thesis
  proof (cases v)
    case (Inl e)
    then have "s' = held s start" using assms v by (simp add: spfs_write_file_extent_def fs_bread_held [OF b] Let_def)
    then show ?thesis by (simp add: held_def evolves_def)
  next
    case (Inr hp)
    obtain h p where hp: "hp = (h, p)" by (cases hp)
    obtain n b' p' src1 pos1 linked h0 x s3 where w: "spfs_do_write b p src pos = Done (n, b', p', src1, pos1)"
      and l: "write_blocks (unat (fe_capacity h)) (fs_put (held s start) start b') (start + ucast (fe_capacity h))
        (start + 1) (h0\<lparr>fe_length := fe_length h + of_nat n\<rparr>) src1 pos1 (linked \<or> 0 < n) = Done (x, header, src', pos', s3)"
      and s': "s' = s3 \<or> s' = fs_brelse s3 start \<or> (\<exists>c c' q. d_blocks (s_dev s3) start = Some c \<and>
        spfs_make_file_extent c 0 header = Done (0, c', q) \<and>
        s' = fs_brelse (fs_dirty (fs_put s3 start c') start) start)"
      using write_file_extent_parts [OF assms b v [unfolded Inr hp]] by metis
    have "evolves s (fs_put (held s start) start b')"
      using block_lengths(4) [OF w] b by (intro evolves_put) (simp_all add: held_def evolves_def)
    then have "evolves s s3" using write_blocks_evolves [OF l] by (rule evolves_trans)
    then show ?thesis using s' by (auto intro!: evolves_put dest!: block_lengths)
  qed
qed

lemma write_extents_evolves:
  "write_extents fuel s start src pos extra written = Done (r, src', extra', s') \<Longrightarrow> evolves s s'"
proof (induction fuel arbitrary: s start src pos extra written)
  case (Suc fuel)
  from Suc.prems show ?case
    by (auto simp: bnd_Done_iff split: if_splits
        dest!: Suc.IH write_file_extent_evolves intro: evolves_trans)
qed (simp split: if_splits)

lemma write_evolves:
  assumes "spfs_write fuel tfuel env intr s inode src ppos = Done (res, inode', ppos', s')"
  shows "evolves s s'"
proof (cases "\<exists>p. ppos = Some p \<and> src \<noteq> [] \<and> S_ISREG (i_mode inode) \<and> \<not> intr \<and> \<not> i_lock inode")
  case False
  then show ?thesis
    using assms by (auto simp: spfs_write_def mutex_lock_def split: if_splits option.splits)
next
  case True
  then obtain p where p: "ppos = Some p" "src \<noteq> []" "S_ISREG (i_mode inode)" "\<not> intr" "\<not> i_lock inode"
    by blast
  define q where "q = min p (unat (i_size inode))"
  obtain r extra i1 s1 where c: "spfs_ensure_capacity tfuel env s (inode\<lparr>i_lock := True\<rparr>)
      (of_nat q) (of_nat (length src)) = Done (r, extra, i1, s1)"
    using assms p by (auto simp: spfs_write_def mutex_lock_def bnd_Done_iff Let_def q_def)
  note e1 = ensure_capacity_evolves [OF c]
  show ?thesis
  proof (cases "r = 0")
    case False
    then show ?thesis using assms p c e1 by (simp add: spfs_write_def mutex_lock_def Let_def q_def)
  next
    case True
    then obtain x y z u where w: "write_extents fuel s1 (in_start i1) src q extra 0 = Done (x, y, z, u)"
      using assms p c by (auto simp: spfs_write_def mutex_lock_def bnd_Done_iff Let_def q_def)
    have "u = s'"
      using assms p c w True
      by (cases x) (auto simp: spfs_write_def mutex_lock_def bug_on_Done_iff Let_def q_def)
    then show ?thesis using e1 write_extents_evolves [OF w] by (auto intro: evolves_trans)
  qed
qed

lemma write_private:
  assumes "spfs_write fuel tfuel env intr s inode src ppos = Done (res, inode', ppos', s')"
  shows "in_name inode' = in_name inode \<and> i_mode inode' = i_mode inode"
proof (cases "\<exists>p. ppos = Some p \<and> src \<noteq> [] \<and> S_ISREG (i_mode inode) \<and> \<not> intr \<and> \<not> i_lock inode")
  case False
  then show ?thesis
    using assms by (auto simp: spfs_write_def mutex_lock_def split: if_splits option.splits)
next
  case True
  then obtain p where p: "ppos = Some p" "src \<noteq> []" "S_ISREG (i_mode inode)" "\<not> intr" "\<not> i_lock inode"
    by blast
  define q where "q = min p (unat (i_size inode))"
  note w = assms [unfolded p(1)]
  have run: "spfs_write fuel tfuel env False s inode src (Some p) = Done (res, inode', ppos', s')"
    using w p(4) by simp
  obtain r extra i1 s1 where c: "spfs_ensure_capacity tfuel env s (inode\<lparr>i_lock := True\<rparr>)
      (of_nat q) (of_nat (length src)) = Done (r, extra, i1, s1)"
    using run p by (auto simp: spfs_write_unfold bnd_Done_iff Let_def q_def)
  have "in_name i1 = in_name inode \<and> i_mode i1 = i_mode inode"
    using spfs_ensure_capacity_shape(4,5) [OF c] by simp
  moreover have "in_name inode' = in_name i1 \<and> i_mode inode' = i_mode i1"
  proof (cases "r = 0")
    case False
    then show ?thesis using run p c by (auto simp: spfs_write_unfold Let_def q_def)
  next
    case True
    then obtain x y z u where "write_extents fuel s1 (in_start i1) src q extra 0 = Done (x, y, z, u)"
      using run p c by (auto simp: spfs_write_unfold bnd_Done_iff Let_def q_def)
    then show ?thesis
      using run p c True
      by (cases x) (auto simp: spfs_write_unfold bug_on_Done_iff Let_def q_def mutex_unlock_def)
  qed
  ultimately show ?thesis by simp
qed

end
