(* ===== verification/Mount.thy ===== *)
theory Mount
  imports Image Vfs_Laws
begin

text \<open>
  Across components: mounting what mkfs wrote, checking it with fsck, and what creating the
  first and the second inode does to the file system.
\<close>

section \<open>Checking a fresh image\<close>

lemma fsck_main_fresh:
  assumes "geometry_ok f s" and "unat (st_blksize s) mod 512 = 0" and "0 < fuel"
    and "f_data g = mkfs_image f s"
  shows "fsck_main fuel True True g = Done 0"
proof -
  let ?B = "unat (st_blksize s)"
  have geo: "512 \<le> ?B" "?B < 2 ^ 32" "3 * ?B \<le> f_room f"
    using assms(1) by (auto simp: geometry_ok_def)
  note parts = mkfs_image_parts [OF assms(1), folded assms(4)]
  have B: "unat (ucast (st_blksize s) :: u32) = ?B" using geo(2) by simp
  have super: "read_super_block True g = (Inr (wire_of (image_super s)), g\<lparr>f_off := 28\<rparr>)"
    using parts geo by (intro read_super_block_bytes) simp_all
  have ok: "fsck_super_block (wire_of (image_super s)) = 0"
    using geo B assms(2) by (simp add: fsck_super_block_def wire_of_def image_super_def magic_eq)
  obtain m where m: "fuel = Suc m" using assms(3) gr0_implies_Suc by blast
  have pos: "unat (m_free_list_offset (wire_of (image_super s)) * m_block_size (wire_of (image_super s))) = ?B"
    using B by (simp add: wire_of_def image_super_def)
  define g1 where "g1 = g\<lparr>f_off := ?B\<rparr>"
  have hdr: "read_free_list_header g1 =
      (Inr \<lparr>h_magic = mkfs_magic, h_entries = 1, h_next = ucast (0 :: u64)\<rparr>, g1\<lparr>f_off := f_off g1 + 12\<rparr>)"
    using parts geo by (intro fsck_header_ok) (simp_all add: g1_def)
  have ent: "fsck_entries 1 (g1\<lparr>f_off := ?B + 12\<rparr>) = (True, g1\<lparr>f_off := ?B + 20\<rparr>)"
    using parts geo by (subst fsck_entries_ok) (simp_all add: g1_def)
  have "fsck_free_loop fuel (g\<lparr>f_off := 28\<rparr>) (wire_of (image_super s))
      (m_free_list_offset (wire_of (image_super s))) = Done (0, g1\<lparr>f_off := ?B + 20\<rparr>)"
    using hdr ent by (simp add: m pos g1_def Let_def)
  then show ?thesis
    using super ok by (simp add: fsck_main_def fsck_free_list_def)
qed

section \<open>Mounting a fresh image\<close>

text \<open>
  \<open>sb_set_blocksize\<close> as the kernel documents it, with pages of \<open>page\<close> bytes and a device whose
  logical blocks have \<open>sector\<close> bytes: it accepts a power of two from 512 to the size of a page
  that is not below that of a logical block, and refuses everything else. When it accepts the
  size it drops the buffers, which are clean at mount, and the buffers that are read afterwards
  are the blocks of the device of that size; when it refuses, it returns 0 and changes nothing.
  The device holds \<open>img\<close>.
\<close>

definition blocksize_ok :: "u64 \<Rightarrow> u64 \<Rightarrow> u64 \<Rightarrow> bool" where
  "blocksize_ok page sector n \<longleftrightarrow> 512 \<le> n \<and> n \<le> page \<and> n AND (n - 1) = 0 \<and> sector \<le> n"

definition device_setbs :: "u64 \<Rightarrow> u64 \<Rightarrow> byte list \<Rightarrow> u64 \<Rightarrow> dev \<Rightarrow> u64 \<times> dev" where
  "device_setbs page sector img n d =
     (if blocksize_ok page sector n then (n, d\<lparr>d_blocks := image_blocks (unat n) img\<rparr>) else (0, d))"

definition serves :: "u64 \<Rightarrow> u64 \<Rightarrow> (u64 \<Rightarrow> dev \<Rightarrow> u64 \<times> dev) \<Rightarrow> byte list \<Rightarrow> bool" where
  "serves page sector setbs img \<longleftrightarrow>
     (\<forall>n d. d_dirty d = {} \<longrightarrow> setbs n d = device_setbs page sector img n d)"

lemma serves_device [simp]: "serves page sector (device_setbs page sector img) img"
  by (simp add: serves_def)

text \<open>The kernel accepts the block size the mount starts with, and that of the file system.\<close>

definition mountable :: "u64 \<Rightarrow> u64 \<Rightarrow> stat \<Rightarrow> bool" where
  "mountable page sector st \<longleftrightarrow> blocksize_ok page sector 512 \<and> blocksize_ok page sector (st_blksize st)"

lemma mkfs_super_read:
  assumes geo: "geometry_ok f st" and dev: "s_dev s = d\<lparr>d_blocks := image_blocks 512 (mkfs_image f st)\<rparr>"
  shows "spfs_super_block_init s 0 = Done (0, with_super (image_super st) s)"
proof -
  have g: "512 \<le> unat (st_blksize st)" "unat (st_blksize st) < 2 ^ 32" using geo by (auto simp: geometry_ok_def)
  then have B: "unat (ucast (st_blksize st) :: u32) = unat (st_blksize st)" by simp
  obtain b where b: "image_blocks 512 (mkfs_image f st) 0 = Some b" "length b = 512"
    "load b 0 28 = super_bytes (image_super st)"
    using mkfs_image_super_block [OF geo, of 512] by auto
  have "d_blocks (s_dev s) 0 = Some b" using b(1) by (simp add: dev)
  from spfs_super_block_init_bytes [OF this _ b(3)] b(2) g(1) B show ?thesis by (simp add: image_super_def)
qed

lemma fill_super_fresh:
  assumes geo: "geometry_ok f st" and serves: "serves page sector setbs (mkfs_image f st)"
    and clean: "d_dirty d = {}" and size: "mountable page sector st"
    and kz: "\<And>j. kz j" and fuel: "0 < fuel"
  shows "\<exists>s. fill_super setbs True kz fuel (mounted d) = Done (0, s) \<and>
    s_dev s = d\<lparr>d_blocks := image_blocks (unat (st_blksize st)) (mkfs_image f st)\<rparr> \<and>
    sbi_free_list s = \<lparr>fl_blocks = of_nat (data_blocks f st), fl_root = [image_node f st]\<rparr> \<and>
    sbi_id s = 1 \<and> sbi_root_id s = 1 \<and> tree_start s = 0 \<and> tree_blocks s = 1 \<and>
    sbi_block_size s = ucast (st_blksize st) \<and> icache s = Map.empty"
proof -
  let ?B = "unat (st_blksize st)" and ?img = "mkfs_image f st"
  have g: "512 \<le> ?B" "?B < 2 ^ 32" using geo by (auto simp: geometry_ok_def)
  have B: "unat (ucast (st_blksize st) :: u32) = ?B" using g by simp
  have B64: "unat (ucast (ucast (st_blksize st) :: u32) :: u64) = ?B" using B by simp
  have nz: "(ucast (ucast (st_blksize st) :: u32) :: u64) \<noteq> 0"
    using B64 g(1) by (metis unat_0 not_numeral_le_zero)
  have cut: "ucast (ucast (st_blksize st) :: u32) = st_blksize st"
    using B64 by (simp add: word_unat_eq_iff)
  have set: "setbs n e = (n, e\<lparr>d_blocks := image_blocks (unat n) ?img\<rparr>)"
    if "d_dirty e = {}" and "n = 512 \<or> n = st_blksize st" for n e
    using serves size that by (auto simp: serves_def device_setbs_def mountable_def)
  define d1 where "d1 = d\<lparr>d_blocks := image_blocks 512 ?img\<rparr>"
  define s1 where "s1 = (mounted d)\<lparr>s_dev := d1\<rparr>"
  have u512: "unat (512 :: u64) = 512" by simp
  have set1: "spfs_set_blocksize setbs True (mounted d) (of_nat SPOOKY_FS_INITIAL_BLOCK_SIZE) = (0, s1)"
    using set clean by (simp add: spfs_set_blocksize_def SPOOKY_FS_INITIAL_BLOCK_SIZE_def
        s1_def d1_def mounted_def)
  define s2 where "s2 = with_super (image_super st) s1"
  have init: "spfs_super_block_init s1 0 = Done (0, s2)"
    unfolding s2_def by (rule mkfs_super_read [OF geo, of _ d]) (simp add: s1_def d1_def)
  define s3 where "s3 = s2\<lparr>s_dev := d\<lparr>d_blocks := image_blocks ?B ?img\<rparr>\<rparr>"
  have bs: "sbi_block_size s2 = ucast (st_blksize st)" "sbi_btree_offset s2 = 0"
    "sbi_free_list_offset s2 = 1" "sbi_id s2 = 1" "sbi_root_id s2 = 1"
    by (simp_all add: s2_def with_super_def image_super_def)
  have set2: "spfs_set_blocksize setbs True s2 (ucast (sbi_block_size s2)) = (0, s3)"
    using set nz clean by (simp add: spfs_set_blocksize_def bs s3_def cut)
      (simp add: s2_def with_super_def s1_def d1_def)
  have chain: "fl_chain (s_dev s3) [(1, [image_node f st])]"
    using geo by (intro mkfs_image_chain) (simp_all add: s3_def)
  have free: "spfs_free_init kz fuel (s_dev s3) 1 =
      Done (0, \<lparr>fl_blocks = of_nat (data_blocks f st), fl_root = [image_node f st]\<rparr>, s_dev s3)"
    using free_init_loop_spec [OF chain, of fuel kz "\<lparr>fl_blocks = 0, fl_root = []\<rparr>"] kz fuel
    by (simp add: spfs_free_init_def Suc_le_eq image_node_def)
  show ?thesis
    using set1 init set2 free
    by (simp add: fill_super_def spfs_btree_init_def Let_def bs s3_def)
      (simp add: s2_def with_super_def s1_def mounted_def)
qed

text \<open>A block size that the kernel refuses, at the start or when the super block has been read.\<close>

lemma fill_super_refused:
  assumes geo: "geometry_ok f st" and serves: "serves page sector setbs (mkfs_image f st)"
    and clean: "d_dirty d = {}" and size: "\<not> mountable page sector st"
  shows "\<exists>s. fill_super setbs True kz fuel (mounted d) = Done (- EINVAL, s)"
proof -
  have B64: "unat (ucast (ucast (st_blksize st) :: u32) :: u64) = unat (st_blksize st)"
    using geo by (simp add: geometry_ok_def)
  then have cut: "ucast (ucast (st_blksize st) :: u32) = st_blksize st" by (simp add: word_unat_eq_iff)
  define d1 where "d1 = d\<lparr>d_blocks := image_blocks 512 (mkfs_image f st)\<rparr>"
  define s1 where "s1 = (mounted d)\<lparr>s_dev := d1\<rparr>"
  define s2 where "s2 = with_super (image_super st) s1"
  have set: "setbs n e = device_setbs page sector (mkfs_image f st) n e" if "d_dirty e = {}" for n e
    using serves that by (simp add: serves_def)
  have EINVAL: "(- EINVAL :: int) \<noteq> 0" by (simp add: EINVAL_def)
  show ?thesis
  proof (cases "blocksize_ok page sector 512")
    case False
    then show ?thesis
      using clean EINVAL by (simp add: fill_super_def spfs_set_blocksize_def SPOOKY_FS_INITIAL_BLOCK_SIZE_def
          mounted_def set device_setbs_def)
  next
    case True
    then have set1: "spfs_set_blocksize setbs True (mounted d) (of_nat SPOOKY_FS_INITIAL_BLOCK_SIZE) = (0, s1)"
      using clean by (simp add: spfs_set_blocksize_def SPOOKY_FS_INITIAL_BLOCK_SIZE_def set device_setbs_def
          s1_def d1_def mounted_def)
    have init: "spfs_super_block_init s1 0 = Done (0, s2)"
      unfolding s2_def by (rule mkfs_super_read [OF geo, of _ d]) (simp add: s1_def d1_def)
    have "\<not> blocksize_ok page sector (st_blksize st)" using True size by (simp add: mountable_def)
    moreover have "sbi_block_size s2 = ucast (st_blksize st)" "s_dev s2 = d1"
      by (simp_all add: s2_def with_super_def image_super_def s1_def)
    ultimately have "fst (spfs_set_blocksize setbs True s2 (ucast (sbi_block_size s2))) = - EINVAL"
      using clean by (simp add: spfs_set_blocksize_def cut set device_setbs_def d1_def)
    then show ?thesis
      using set1 init EINVAL by (auto simp: fill_super_def split: prod.split)
  qed
qed

lemma S_mode_root [simp]: "S_ISDIR root_mode" "\<not> S_ISREG root_mode"
  by (simp_all add: S_ISDIR_def S_ISREG_def root_mode_def)

text \<open>The root inode of a fresh file system.\<close>

definition fresh_root :: "kernel \<Rightarrow> spfs_inode \<Rightarrow> spfs_inode" where
  "fresh_root k i = i\<lparr>i_ino := 1, i_kernel := True, i_mode := root_mode, i_ctime := k_now k, i_atime := k_now k,
     i_mtime := k_now k, i_nlink := i_nlink i + 1, i_uid := k_fsuid k, i_gid := k_fsgid k\<rparr>"

lemma btree_lookup_no_tree:
  "tree_start s = 0 \<Longrightarrow> spfs_btree_lookup fuel env s ino out = Done (1, out, s)"
  by (cases fuel) (simp_all add: spfs_btree_lookup_def spfs_btree_modify_def)

lemma spfs_fill_super_block_fresh:
  assumes geo: "geometry_ok f st" and serves: "serves page sector setbs (mkfs_image f st)"
    and clean: "d_dirty d = {}" and size: "mountable page sector st"
    and kz: "\<And>j. kz j" and fuel: "0 < fuel" and slab: "k_fresh k 1 = Some i"
  shows "\<exists>s. spfs_fill_super_block setbs True True kz k fuel env d = Done (0, Some s) \<and>
    d_blocks (s_dev s) = image_blocks (unat (st_blksize st)) (mkfs_image f st) \<and>
    sbi_free_list s = \<lparr>fl_blocks = of_nat (data_blocks f st), fl_root = [image_node f st]\<rparr> \<and>
    sbi_id s = 2 \<and> sbi_root_id s = 1 \<and> tree_start s = 0 \<and> tree_blocks s = 1 \<and>
    icache s = [1 \<mapsto> fresh_root k i] \<and> sbi_block_size s = ucast (st_blksize st)"
proof -
  obtain s where fill: "fill_super setbs True kz fuel (mounted d) = Done (0, s)"
    and dev: "s_dev s = d\<lparr>d_blocks := image_blocks (unat (st_blksize st)) (mkfs_image f st)\<rparr>"
    and fl: "sbi_free_list s = \<lparr>fl_blocks = of_nat (data_blocks f st), fl_root = [image_node f st]\<rparr>"
    and ids: "sbi_id s = 1" "sbi_root_id s = 1" "tree_start s = 0" "tree_blocks s = 1" "icache s = Map.empty"
      "sbi_block_size s = ucast (st_blksize st)"
    using fill_super_fresh [where kz = kz, OF geo serves clean size kz fuel] by blast
  have by_id: "spfs_inode_by_id k fuel env s 1 = Done (NullPtr, s)"
    using ids slab by (simp add: spfs_inode_by_id_def iget_locked_def get_inode_def
        btree_lookup_no_tree iget_failed_def)
  have new: "spfs_new_inode k s None root_mode = Done (Inode 1,
      s\<lparr>sbi_id := 2, icache := [1 \<mapsto> i\<lparr>i_ino := 1, i_kernel := True, i_mode := root_mode, i_ctime := k_now k,
        i_atime := k_now k, i_mtime := k_now k, i_nlink := i_nlink i + 1\<rparr>]\<rparr>)"
    using ids slab by (simp add: spfs_new_inode_def iget_locked_def get_inode_def Let_def
        spfs_setup_inode_fp_def put_inode_def)
  show ?thesis
    using fill by_id new ids dev fl
    by (simp add: spfs_fill_super_block_def get_inode_def put_inode_def fresh_root_def)
qed

section \<open>The first insertion overwrites the super block\<close>

lemma root_node_head:
  "1620 \<le> length b \<Longrightarrow> load (root_node b bubble) 0 4 = be_bytes 4 1"
  by (simp add: root_node_def one_entry_node_def load_store_before)

lemma spfs_btree_insert_first:
  assumes start: "tree_start s = 0" and dev: "dev_ok bsz (s_dev s)" "1620 \<le> bsz"
    and ino: "low32 (i_ino inode) \<noteq> 0"
    and fin: "spfs_btree_insert fuel env s inode = Done (0, s')"
  obtains page root fl1 fl2 b b0 where
    "spfs_free_alloc (sbi_free_list s) (tree_blocks s) = (page, fl1)" "page \<noteq> 0"
    "spfs_free_alloc fl1 (tree_blocks s) = (root, fl2)" "root \<noteq> 0"
    "d_blocks (s_dev s) page = Some b" "length b = bsz"
    "d_blocks (s_dev s) 0 = Some b0" "length b0 = bsz"
proof -
  obtain page fl1 where a1: "spfs_free_alloc (sbi_free_list s) (tree_blocks s) = (page, fl1)" by fastforce
  have p: "page \<noteq> 0"
  proof
    assume "page = 0"
    then show False
      using fin start a1 by (simp add: spfs_btree_insert_def fs_alloc_def bubble_is_active_def bubble_zero_def)
  qed
  have "d_blocks (s_dev s) page \<noteq> None"
  proof
    assume "d_blocks (s_dev s) page = None"
    then show False
      using fin start a1 p by (simp add: spfs_btree_insert_def fs_alloc_def fs_bread_def sb_bread_unreadable
          bubble_is_active_def bubble_zero_def EIO_def)
  qed
  then obtain b where b: "d_blocks (s_dev s) page = Some b" by auto
  have lb: "length b = bsz" using dev(1) b by (simp add: dev_ok_def)
  define s1 where "s1 = s\<lparr>sbi_free_list := fl1,
    s_dev := mark_buffer_dirty (put_buf (s_dev s) page (store b 0 (inode_bytes (e_frame env) inode))) page\<rparr>"
  have ins: "btree_insert fuel env s None inode 0 = Done (0, first_entry inode page, page, s1)"
    using a1 b p lb dev(2) by (simp add: fs_alloc_def fs_defs sb_bread_readable spfs_inode_make_eq Let_def
        brelse_after_bread s1_def first_entry_def)
  have act: "bubble_is_active (first_entry inode page)"
    using ino by (simp add: bubble_is_active_def first_entry_def bubble_make_def)
  obtain root fl2 where a2: "spfs_free_alloc fl1 (tree_blocks s) = (root, fl2)" by fastforce
  have nres: "bnode_alloc_root s1 (first_entry inode page) = Done (0, s')"
    using fin start ins act by (auto simp: spfs_btree_insert_def bnd_Done_iff bug_on_Done_iff)
  have r: "root \<noteq> 0"
  proof
    assume "root = 0"
    then show False using nres a2 by (simp add: bnode_alloc_root_def fs_alloc_def s1_def ENOMEM_def)
  qed
  have "d_blocks (s_dev s) 0 \<noteq> None"
  proof
    assume "d_blocks (s_dev s) 0 = None"
    then show False
      using nres a2 r p start by (simp add: bnode_alloc_root_def fs_alloc_def s1_def EIO_def Let_def
          fs_bread_def sb_bread_unreadable)
  qed
  then obtain b0 where b0: "d_blocks (s_dev s) 0 = Some b0" by auto
  have "length b0 = bsz" using dev(1) b0 by (simp add: dev_ok_def)
  then show thesis using that a1 p a2 r b lb b0 by blast
qed

lemma spfs_btree_insert_destroys_super:
  assumes start: "tree_start s = 0" and dev: "dev_ok bsz (s_dev s)" "1620 \<le> bsz"
    and ino: "low32 (i_ino inode) \<noteq> 0"
    and fin: "spfs_btree_insert fuel env s inode = Done (0, s')"
  shows "tree_start s' \<noteq> 0" and "\<exists>t. spfs_super_block_init s' 0 = Done (- EINVAL, t)"
proof -
  obtain page root fl1 fl2 b b0 where
    a: "spfs_free_alloc (sbi_free_list s) (tree_blocks s) = (page, fl1)" "page \<noteq> 0"
      "spfs_free_alloc fl1 (tree_blocks s) = (root, fl2)" "root \<noteq> 0"
    and b: "d_blocks (s_dev s) page = Some b" "length b = bsz"
      "d_blocks (s_dev s) 0 = Some b0" "length b0 = bsz"
    by (rule spfs_btree_insert_first [OF assms]) (rule that)
  have s': "s' = s\<lparr>
    s_dev := mark_buffer_dirty (put_buf
      (mark_buffer_dirty (put_buf (s_dev s) page (store b 0 (inode_bytes (e_frame env) inode))) page)
      0 (root_node b0 (first_entry inode page))) 0,
    tree_start := root, sbi_free_list := fl2\<rparr>"
    using spfs_btree_insert_empty_tree [OF start a(1,2,3,4) b(1) _ b(3) _ ino, of fuel env] b(2,4) dev(2) fin
    by simp
  show "tree_start s' \<noteq> 0" using a(4) by (simp add: s')
  have blk: "d_blocks (s_dev s') 0 = Some (root_node b0 (first_entry inode page))" by (simp add: s')
  have len: "32 \<le> length (root_node b0 (first_entry inode page))" using b(4) dev(2) by simp
  have magic: "be_num (load (root_node b0 (first_entry inode page)) 0 4) \<noteq> unat SPOOKY_FS_SUPER_MAGIC"
    using b(4) dev(2) by (simp add: root_node_head be_num_be_bytes SPOOKY_FS_SUPER_MAGIC_def)
  show "\<exists>t. spfs_super_block_init s' 0 = Done (- EINVAL, t)"
    by (rule spfs_super_block_init_magic [OF blk len magic])
qed

section \<open>No second insertion\<close>

lemma spfs_new_inode_disk:
  assumes "spfs_new_inode k s parent mode = Done (p, s')"
  shows "s_dev s' = s_dev s" and "tree_start s' = tree_start s"
proof -
  define s0 where "s0 = s\<lparr>sbi_id := sbi_id s + 1\<rparr>"
  obtain r s1 where g: "iget_locked k s0 (sbi_id s) = (r, s1)" by fastforce
  have "s_dev s1 = s_dev s \<and> tree_start s1 = tree_start s"
    using g by (auto simp: iget_locked_def s0_def split: option.splits)
  then have "s_dev s' = s_dev s \<and> tree_start s' = tree_start s"
    using assms g by (auto simp: spfs_new_inode_def Let_def bnd_Done_iff s0_def put_inode_def
        iget_failed_def split: option.splits if_splits)
  then show "s_dev s' = s_dev s" and "tree_start s' = tree_start s" by simp_all
qed

lemma spfs_generic_create_root_fails:
  assumes "tree_start s \<noteq> 0" and "\<And>n b. d_blocks (s_dev s) n = Some b \<Longrightarrow> length b < 2 ^ 32"
    and "spfs_generic_create k fuel env s parent name mode = Done (res, ino, s')"
  shows "res \<noteq> 0 \<and> ino = None"
proof (cases "SPOOKY_FS_NAME_MAX < length name")
  case True
  then show ?thesis using assms(3) by (simp add: spfs_generic_create_def ENAMETOOLONG_def)
next
  case False
  then obtain p s1 where p: "spfs_new_inode k s (Some parent) mode = Done (p, s1)"
    using assms(3) by (auto simp: spfs_generic_create_def bnd_Done_iff)
  note disk = spfs_new_inode_disk [OF p]
  show ?thesis
  proof (cases p)
    case (Inode n)
    then obtain i where i: "get_inode s1 n = Done i"
      using assms(3) False p by (auto simp: spfs_generic_create_def bnd_Done_iff)
    define i2 where "i2 = i\<lparr>in_name := name @ replicate (SPOOKY_FS_NAME_MAX - length name) 0\<rparr>"
    obtain r s2 where r: "spfs_btree_insert fuel env (put_inode s1 n i2) i2 = Done (r, s2)"
      using assms(3) False p Inode i by (auto simp: spfs_generic_create_def bnd_Done_iff Let_def i2_def)
    have "r \<noteq> 0"
    proof (rule spfs_btree_insert_root_fails [OF _ _ r])
      show "tree_start (put_inode s1 n i2) \<noteq> 0" using assms(1) disk by (simp add: put_inode_def)
      show "length b < 2 ^ 32" if "d_blocks (s_dev (put_inode s1 n i2)) m = Some b" for m b
        using that assms(2) disk by (auto simp: put_inode_def)
    qed
    then show ?thesis
      using assms(3) False p Inode i r by (auto simp: spfs_generic_create_def Let_def i2_def)
  qed (use assms(3) False p in \<open>simp_all add: spfs_generic_create_def ENOENT_def\<close>)
qed

section \<open>Properties\<close>

text \<open>A device of eight blocks of 2048 bytes.\<close>

definition sample_disk :: fdesc where
  "sample_disk = \<lparr>f_data = replicate 16384 0, f_off = 0, f_room = 16384\<rparr>"

definition sample_stat :: stat where
  "sample_stat = \<lparr>st_blksize = 2048, st_size = 16384\<rparr>"

definition sample_mkfs :: fdesc where
  "sample_mkfs = sample_disk\<lparr>f_data := mkfs_image sample_disk sample_stat, f_off := 2068\<rparr>"

lemma sample_geometry:
  "geometry_ok sample_disk sample_stat" "data_blocks sample_disk sample_stat = 6"
  "unat (st_blksize sample_stat) = 2048"
  by (simp_all add: geometry_ok_def data_blocks_def sample_disk_def sample_stat_def)

lemma mkfs_main_image:
  assumes "geometry_ok f st" and "mkfs_main True f (Some st) = Done (res, g)"
  shows "res = 0" and "f_data g = mkfs_image f st"
  using mkfs_main_ok [OF assms(1)] assms(2) by (auto simp: mkfs_image_def)

lemma sample_mkfs: "mkfs_main True sample_disk (Some sample_stat) = Done (0, sample_mkfs)"
  using mkfs_main_ok [OF sample_geometry(1)] by (simp add: sample_mkfs_def mkfs_image_def sample_geometry)

lemma sample_mountable: "mountable 4096 512 sample_stat" "\<not> mountable 1024 512 sample_stat"
  by (simp_all add: mountable_def blocksize_ok_def sample_stat_def)

lemma clean_device: "d_dirty (s_dev empty_fs) = {}"
  by (simp add: empty_fs_def)

lemma free_ok_image_node:
  assumes "geometry_ok f st" and "data_blocks f st < 2 ^ 32"
  shows "free_ok \<lparr>fl_blocks = of_nat (data_blocks f st), fl_root = [image_node f st]\<rparr>"
    and "free_sectors \<lparr>fl_blocks = of_nat (data_blocks f st), fl_root = [image_node f st]\<rparr> =
      {2..<2 + data_blocks f st}"
  using assms(2) by (simp_all add: free_ok_def image_node_def unat_of_nat free_sectors_def node_sectors_def)

text \<open>
  C21: What mkfs writes can be mounted exactly when the kernel takes the block sizes: on a device
  that has room for three blocks of at least 512 bytes and fewer than \<open>2 ^ 32\<close> data blocks mkfs
  succeeds, whatever its block size. When \<open>sb_set_blocksize\<close> accepts 512 and the block size of the
  file system (powers of two from 512 to the size of a page, not below the logical block size of the
  device) and there is memory, mounting the result succeeds with an empty tree, the root directory in
  the cache and a well-formed free list that holds exactly the blocks behind the two header blocks,
  all of them inside the device. When it refuses one of them, mounting returns \<open>- EINVAL\<close>.
\<close>

theorem mkfs_then_mount:
  assumes "geometry_ok f st" and "data_blocks f st < 2 ^ 32"
    and "mkfs_main True f (Some st) = Done (res, g)"
    and "serves page sector setbs (f_data g)" and "d_dirty d = {}"
    and "\<forall>j. kz j" and "0 < fuel" and "k_fresh k 1 = Some i"
  shows "res = 0 \<and> (if mountable page sector st then \<exists>s. spfs_fill_super_block setbs True True kz k fuel env d = Done (0, Some s) \<and>
    icache s = [1 \<mapsto> fresh_root k i] \<and> sbi_root_id s = 1 \<and> tree_start s = 0 \<and>
    free_ok (sbi_free_list s) \<and> free_sectors (sbi_free_list s) = {2..<2 + data_blocks f st} \<and>
    (\<forall>n\<in>free_sectors (sbi_free_list s). d_blocks (s_dev s) (of_nat n) \<noteq> None)
    else spfs_fill_super_block setbs True True kz k fuel env d = Done (- EINVAL, None))"
proof -
  let ?B = "unat (st_blksize st)"
  note img = mkfs_main_image [OF assms(1,3)]
  show ?thesis
  proof (cases "mountable page sector st")
    case False
    then obtain s where "fill_super setbs True kz fuel (mounted d) = Done (- EINVAL, s)"
      using fill_super_refused [OF assms(1) assms(4) [unfolded img(2)] assms(5)] by blast
    then show ?thesis using False img(1) by (simp add: spfs_fill_super_block_def EINVAL_def)
  next
    case True
    obtain s where s: "spfs_fill_super_block setbs True True kz k fuel env d = Done (0, Some s)"
      "d_blocks (s_dev s) = image_blocks ?B (mkfs_image f st)"
      "sbi_free_list s = \<lparr>fl_blocks = of_nat (data_blocks f st), fl_root = [image_node f st]\<rparr>"
      "sbi_root_id s = 1" "tree_start s = 0" "icache s = [1 \<mapsto> fresh_root k i]"
      using spfs_fill_super_block_fresh [where kz = kz and env = env and d = d, OF assms(1)
          assms(4) [unfolded img(2)] assms(5) True _ assms(7,8)] assms(6) by blast
    note free = free_ok_image_node [OF assms(1,2), folded s(3)]
    have "image_blocks ?B (mkfs_image f st) (of_nat n) \<noteq> None" if "n < 2 + data_blocks f st" for n
    proof -
      have g: "512 \<le> ?B" "3 * ?B \<le> f_room f" using assms(1) by (auto simp: geometry_ok_def)
      have "data_blocks f st * ?B \<le> f_room f - 2 * ?B" unfolding data_blocks_def by (rule div_times_less_eq_dividend)
      then have "(2 + data_blocks f st) * ?B \<le> f_room f" using g(2) by (simp add: distrib_right)
      moreover have "(n + 1) * ?B \<le> (2 + data_blocks f st) * ?B" using that by (intro mult_right_mono) simp_all
      moreover have "unat (of_nat n :: u64) = n" using that assms(2) by (simp add: unat_of_nat)
      ultimately show ?thesis using mkfs_image_parts(1) [OF assms(1)] by (simp add: image_blocks_def)
  qed
    then show ?thesis using True img s free by auto
  qed
qed

theorem mkfs_then_mount_witness:
  "mkfs_main True sample_disk (Some sample_stat) = Done (0, sample_mkfs) \<and>
   (\<exists>s. spfs_fill_super_block (device_setbs 4096 512 (f_data sample_mkfs)) True True (\<lambda>_. True) sample_kernel 1
       sample_env (s_dev empty_fs) = Done (0, Some s) \<and> free_sectors (sbi_free_list s) = {2..<8}) \<and>
   spfs_fill_super_block (device_setbs 1024 512 (f_data sample_mkfs)) True True (\<lambda>_. True) sample_kernel 1
       sample_env (s_dev empty_fs) = Done (- EINVAL, None)"
  using mkfs_then_mount [OF sample_geometry(1) _ sample_mkfs serves_device, where kz = "\<lambda>_. True" and
      k = sample_kernel and i = "dir_sample_inode 0" and fuel = 1 and env = sample_env and d = "s_dev empty_fs" and
      page = 4096 and sector = 512]
    mkfs_then_mount [OF sample_geometry(1) _ sample_mkfs serves_device, where kz = "\<lambda>_. True" and
      k = sample_kernel and i = "dir_sample_inode 0" and fuel = 1 and env = sample_env and d = "s_dev empty_fs" and
      page = 1024 and sector = 512] sample_mkfs sample_mountable
  by (auto simp: sample_kernel_def sample_geometry clean_device)

text \<open>
  C27: fsck accepts what mkfs wrote exactly when the block size of the device is a multiple of
  512; mkfs does not check that, and reports success either way.
\<close>

theorem mkfs_then_fsck:
  assumes "geometry_ok f st" and "mkfs_main True f (Some st) = Done (res, g)" and "0 < fuel"
  shows "res = 0 \<and>
    fsck_main fuel True True g = Done (if unat (st_blksize st) mod 512 = 0 then 0 else 1)"
proof (cases "unat (st_blksize st) mod 512 = 0")
  case True
  then show ?thesis
    using mkfs_main_image [OF assms(1,2)] fsck_main_fresh [OF assms(1) _ assms(3)] by simp
next
  case False
  let ?B = "unat (st_blksize st)"
  note img = mkfs_main_image [OF assms(1,2)]
  note parts = mkfs_image_parts [OF assms(1), folded img(2)]
  have geo: "512 \<le> ?B" "?B < 2 ^ 32" "3 * ?B \<le> f_room f"
    using assms(1) by (auto simp: geometry_ok_def)
  have "read_super_block True g = (Inr (wire_of (image_super st)), g\<lparr>f_off := 28\<rparr>)"
    using parts geo by (intro read_super_block_bytes) simp_all
  moreover have "unat (ucast (st_blksize st) :: u32) = ?B" using geo(2) by simp
  then have "fsck_super_block (wire_of (image_super st)) = 1"
    using False by (simp add: fsck_super_block_def wire_of_def image_super_def)
  ultimately show ?thesis using False img by (simp add: fsck_main_def)
qed

theorem mkfs_then_fsck_witness:
  "mkfs_main True sample_disk (Some sample_stat) = Done (0, sample_mkfs) \<and>
   fsck_main 1 True True sample_mkfs = Done 0"
  using mkfs_then_fsck [OF sample_geometry(1) sample_mkfs, of 1] sample_mkfs
  by (simp add: sample_geometry)

text \<open>
  C25: The two readers of the super block agree: when fsck accepts a device, the kernel accepts
  the super block in block 0 of the same device, whatever its block size, and takes all seven
  fields from it.
\<close>

theorem fsck_ok_super_accepted:
  assumes "fsck_main fuel True True f = Done 0"
    and "d_blocks (s_dev s) 0 = Some b" and "32 \<le> length b" and "load b 0 28 = load (f_data f) 0 28"
  shows "spfs_super_block_init s 0 = Done (0, with_super (super_of_bytes (load (f_data f) 0 28)) s)"
proof -
  let ?w = "super_of_bytes (load (f_data f) 0 28)"
  note ok = fsck_main_accepts_super [OF assms(1)]
  have "load b 0 28 = super_bytes ?w"
    using ok(1) by (simp add: assms(4) super_bytes_of_bytes)
  from spfs_super_block_init_bytes [OF assms(2,3) this] ok(2) show ?thesis
    by (simp add: fsck_super_block_def wire_of_def magic_eq split: if_splits)
qed

theorem fsck_ok_super_accepted_witness:
  "spfs_super_block_init (empty_fs\<lparr>s_dev := \<lparr>d_blocks = [0 \<mapsto> load (f_data sample_mkfs) 0 512],
      d_dirty = {}, d_refs = \<lambda>_. 0\<rparr>\<rparr>) 0 =
    Done (0, with_super (super_of_bytes (load (f_data sample_mkfs) 0 28))
      (empty_fs\<lparr>s_dev := \<lparr>d_blocks = [0 \<mapsto> load (f_data sample_mkfs) 0 512], d_dirty = {},
        d_refs = \<lambda>_. 0\<rparr>\<rparr>))"
proof (rule fsck_ok_super_accepted)
  have len: "length (f_data sample_mkfs) = 16384"
    using mkfs_image_parts(1) [OF sample_geometry(1)] by (simp add: sample_mkfs_def sample_disk_def)
  show "fsck_main 1 True True sample_mkfs = Done 0"
    using fsck_main_fresh [OF sample_geometry(1), of 1 sample_mkfs] by (simp add: sample_geometry sample_mkfs_def)
  show "32 \<le> length (load (f_data sample_mkfs) 0 512)" using len by simp
  show "load (load (f_data sample_mkfs) 0 512) 0 28 = load (f_data sample_mkfs) 0 28"
    by (simp add: load_load)
qed simp

text \<open>
  The first inode that is inserted costs the file system: after the insertion the super
  block of the device is not accepted any more, so that the device cannot be mounted again.
\<close>

theorem first_insertion_destroys_super:
  assumes "tree_start s = 0" and "dev_ok bsz (s_dev s)" and "1620 \<le> bsz"
    and "low32 (i_ino inode) \<noteq> 0" and "spfs_btree_insert fuel env s inode = Done (0, s')"
  shows "tree_start s' \<noteq> 0 \<and> (\<exists>t. spfs_super_block_init s' 0 = Done (- EINVAL, t))"
  using spfs_btree_insert_destroys_super [OF assms] by blast

theorem first_insertion_destroys_super_witness:
  "\<exists>s' t. spfs_btree_insert 0 sample_env empty_fs sample_inode = Done (0, s') \<and>
    spfs_super_block_init s' 0 = Done (- EINVAL, t)"
proof -
  obtain s' where ins: "spfs_btree_insert 0 sample_env empty_fs sample_inode = Done (0, s')"
    using spfs_btree_insert_empty_tree [OF empty_fs_simps(1) empty_fs_allocs(1) _ empty_fs_allocs(2) _
        empty_fs_simps(2) _ empty_fs_simps(4) _ empty_fs_simps(5)] by auto
  have "dev_ok 2048 (s_dev empty_fs)" by (simp add: dev_ok_def empty_fs_def)
  from first_insertion_destroys_super [OF empty_fs_simps(1) this _ empty_fs_simps(5) ins] ins
  show ?thesis by auto
qed

text \<open>
  Once the tree has a root no file or directory can be created: \<open>spfs_create\<close> and
  \<open>spfs_mkdir\<close> return an error, or do not return, and instantiate no dentry.
\<close>

theorem create_fails_with_root:
  assumes "tree_start s \<noteq> 0" and "\<forall>n b. d_blocks (s_dev s) n = Some b \<longrightarrow> length b < 2 ^ 32"
    and "spfs_create k (Suc fuel) env s parent name mode = Done (res, ino, s') \<or>
      spfs_mkdir k (Suc fuel) env s parent name mode = Done (res, ino, s')"
  shows "res \<noteq> 0 \<and> ino = None"
proof -
  obtain r n t where g: "spfs_generic_create k (Suc fuel) env s parent name mode = Done (r, n, t)"
    using assms(3) by (auto simp: spfs_create_def spfs_mkdir_def bnd_Done_iff bug_on_Done_iff)
  have "r \<noteq> 0 \<and> n = None"
    using spfs_generic_create_root_fails [OF assms(1) _ g] assms(2) by blast
  then show ?thesis
    using assms(3) g by (auto simp: spfs_create_def spfs_mkdir_def bug_on_Done_iff)
qed

theorem create_fails_with_root_witness:
  "\<exists>res s'. spfs_create sample_kernel 1 sample_env (sample_vfs\<lparr>tree_start := 33\<rparr>) 1 [65] 0x81A4 =
      Done (res, None, s') \<and> res \<noteq> 0"
proof -
  let ?s = "sample_vfs\<lparr>tree_start := 33\<rparr>"
  have dev: "d_blocks (s_dev ?s) = [4 \<mapsto> dir_sample, 11 \<mapsto> replicate 1024 0]" "sbi_id ?s = 8" "tree_start ?s = 33"
    "icache ?s = [1 \<mapsto> dir_sample_inode 4, 9 \<mapsto> child_named [65]]"
    by (simp_all add: sample_vfs_def spfs.extend_def dir_sample_fs_def)
  have small: "\<forall>n b. d_blocks (s_dev ?s) n = Some b \<longrightarrow> length b < 2 ^ 32"
    unfolding dev(1) using dir_sample(2) by (auto split: if_splits)
  have reg: "S_ISREG 0x81A4" by (simp add: S_ISREG_def)
  obtain s' where c: "spfs_create sample_kernel (Suc 0) sample_env ?s 1 [65] 0x81A4 = Done (- EIO, None, s')"
    using reg dev by (simp add: spfs_create_def spfs_generic_create_def SPOOKY_FS_NAME_MAX_def
        spfs_new_inode_def iget_locked_def get_inode_def sample_kernel_def put_inode_def Let_def
        spfs_setup_inode_fp_def spfs_btree_insert_def fs_bread_def sb_bread_unreadable EIO_def)
  have "- EIO \<noteq> 0 \<and> (None :: u64 option) = None"
    by (rule create_fails_with_root [OF _ small disjI1 [OF c]]) (simp add: dev)
  then show ?thesis using c by auto
qed

end
