(* ===== verification/First_File.thy ===== *)
theory First_File
  imports Mount
begin

text \<open>
  Across components: creating the first file of an empty file system, from the allocation of
  its blocks over the tree and the directory to finding it by name again, and the same from
  the bytes mkfs wrote.
\<close>

section \<open>Free blocks that hold zeros\<close>

text \<open>More than \<open>m\<close> blocks are free, and every free block is readable and zero.\<close>

definition zeroed_space :: "nat \<Rightarrow> nat \<Rightarrow> 'a spfs_scheme \<Rightarrow> bool" where
  "zeroed_space bsz m s \<longleftrightarrow> free_ok (sbi_free_list s) \<and> m < nodes_total (fl_root (sbi_free_list s)) \<and>
     (\<forall>n\<in>free_sectors (sbi_free_list s). d_blocks (s_dev s) (of_nat n) = Some (replicate bsz 0))"

text \<open>Block 0 is never free.\<close>

lemma nodes_sectors_range:
  assumes "nodes_ok ns" and "x \<in> nodes_sectors ns"
  shows "0 < x" and "x < 2 ^ 64"
proof -
  have "0 < x \<and> x < 2 ^ 64"
    using assms
  proof (induction ns)
    case (Cons n ns)
    then have "0 < unat (fn_start n)" by (simp add: unat_gt_0)
    with Cons show ?case by (auto simp: node_sectors_def)
  qed simp
  then show "0 < x" and "x < 2 ^ 64" by simp_all
qed

lemma alloc_total:
  assumes "free_ok fl" and "spfs_free_alloc fl n = (r, fl')" and "r \<noteq> 0"
  shows "nodes_total (fl_root fl) = nodes_total (fl_root fl') + unat n"
  using assms by (auto simp: spfs_free_alloc_def free_ok_def dest: free_scan_Some
      split: if_splits option.splits)

lemma alloc_one:
  assumes "free_ok fl" and "1 < nodes_total (fl_root fl)"
  obtains r fl' where "spfs_free_alloc fl 1 = (r, fl')" and "r \<noteq> 0" and "unat r \<in> free_sectors fl"
    and "free_sectors fl' = free_sectors fl - {unat r}" and "free_ok fl'"
    and "nodes_total (fl_root fl') = nodes_total (fl_root fl) - 1"
proof -
  obtain r fl' where a: "spfs_free_alloc fl 1 = (r, fl')" by fastforce
  have "\<exists>n\<in>set (fl_root fl). \<not> unat (fn_blocks n) < 1"
  proof (rule ccontr)
    assume "\<not> ?thesis"
    then have "\<forall>n\<in>set (fl_root fl). unat (fn_blocks n) = 0" by auto
    then have "nodes_total (fl_root fl) = 0" by (simp add: nodes_total_def)
    then show False using assms(2) by simp
  qed
  then have r: "r \<noteq> 0"
    using spfs_free_alloc_result_0 [OF assms(1), of 1] a assms(2) by auto
  have reg: "region r 1 = {unat r}" by (auto simp: region_def)
  note taken = spfs_free_alloc_taken [OF assms(1) a r, unfolded reg]
  show thesis using that [OF a r] taken alloc_total [OF assms(1) a r] by simp
qed

lemma zeroed_space_alloc:
  assumes "zeroed_space bsz (Suc m) s"
  obtains r fl' where "spfs_free_alloc (sbi_free_list s) 1 = (r, fl')" and "r \<noteq> 0"
    and "d_blocks (s_dev s) r = Some (replicate bsz 0)"
    and "zeroed_space bsz m (s\<lparr>sbi_free_list := fl'\<rparr>)" and "unat r \<notin> free_sectors fl'"
    and "unat r \<in> free_sectors (sbi_free_list s)" and "free_sectors fl' \<subseteq> free_sectors (sbi_free_list s)"
proof -
  have ok: "free_ok (sbi_free_list s)" "1 < nodes_total (fl_root (sbi_free_list s))"
    using assms by (auto simp: zeroed_space_def)
  from alloc_one [OF ok] obtain r fl' where a: "spfs_free_alloc (sbi_free_list s) 1 = (r, fl')" "r \<noteq> 0"
    and free: "unat r \<in> free_sectors (sbi_free_list s)"
      "free_sectors fl' = free_sectors (sbi_free_list s) - {unat r}" "free_ok fl'"
      "nodes_total (fl_root fl') = nodes_total (fl_root (sbi_free_list s)) - 1" .
  have "d_blocks (s_dev s) (of_nat (unat r)) = Some (replicate bsz 0)"
    using assms free(1) by (auto simp: zeroed_space_def)
  then have "d_blocks (s_dev s) r = Some (replicate bsz 0)" by simp
  moreover have "zeroed_space bsz m (s\<lparr>sbi_free_list := fl'\<rparr>)"
    using assms free by (auto simp: zeroed_space_def)
  ultimately show thesis using that a free(1,2) by simp
qed

text \<open>Writing to a block that is not free keeps it.\<close>

lemma zeroed_space_write:
  assumes "zeroed_space bsz m s" and "unat p \<notin> free_sectors (sbi_free_list s)"
  shows "zeroed_space bsz m (s\<lparr>s_dev := mark_buffer_dirty (put_buf (s_dev s) p b) p\<rparr>)"
proof -
  have "p \<noteq> of_nat n" if "n \<in> free_sectors (sbi_free_list s)" for n
  proof
    assume "p = of_nat n"
    moreover have "n < 2 ^ 64"
      using that assms(1) nodes_sectors_range(2) [of "fl_root (sbi_free_list s)" n]
      by (auto simp: zeroed_space_def free_ok_def free_sectors_def)
    ultimately have "unat p = n" by (simp add: unat_of_nat)
    then show False using that assms(2) by simp
  qed
  then show ?thesis using assms(1) by (auto simp: zeroed_space_def)
qed


lemma zeroed_space_not_free_0: "zeroed_space bsz m s \<Longrightarrow> unat (0 :: u64) \<notin> free_sectors (sbi_free_list s)"
  using nodes_sectors_range(1) [of "fl_root (sbi_free_list s)" 0]
  by (auto simp: zeroed_space_def free_ok_def free_sectors_def)

lemma zeroed_space_cong:
  "s_dev t = s_dev s \<Longrightarrow> sbi_free_list t = sbi_free_list s \<Longrightarrow> zeroed_space bsz m t = zeroed_space bsz m s"
  by (simp add: zeroed_space_def)

section \<open>The first insertion\<close>

text \<open>Block 0 is readable and does not start with the magic number of a super block.\<close>

definition no_super :: "(u64 \<Rightarrow> buf option) \<Rightarrow> bool" where
  "no_super blk \<longleftrightarrow> (case blk 0 of None \<Rightarrow> False
     | Some b \<Rightarrow> 32 \<le> length b \<and> be_num (load b 0 4) \<noteq> unat SPOOKY_FS_SUPER_MAGIC)"

lemma no_super_refused:
  "no_super (d_blocks (s_dev s)) \<Longrightarrow> \<exists>t. spfs_super_block_init s 0 = Done (- EINVAL, t)"
  by (auto simp: no_super_def intro!: spfs_super_block_init_magic split: option.splits)

text \<open>
  The first insertion leaves one readable zero block fewer than the two it takes, and every
  block that is still free as it was.
\<close>

lemma first_insertion_space:
  assumes start: "tree_start s = 0" "tree_blocks s = 1" and space: "zeroed_space bsz (Suc (Suc m)) s"
    and b0: "d_blocks (s_dev s) 0 = Some b0" "length b0 = bsz" "1620 \<le> bsz"
    and ino: "low32 (i_ino inode) \<noteq> 0"
  obtains d fl root where "spfs_btree_insert fuel env s inode =
      Done (0, s\<lparr>s_dev := d, tree_start := root, sbi_free_list := fl\<rparr>)" and "root \<noteq> 0"
    and "zeroed_space bsz m (s\<lparr>s_dev := d, tree_start := root, sbi_free_list := fl\<rparr>)"
    and "no_super (d_blocks d)" and "d_blocks d root = Some (replicate bsz 0)" and "unat root \<notin> free_sectors fl"
proof -
  obtain page fl1 where a1: "spfs_free_alloc (sbi_free_list s) 1 = (page, fl1)" "page \<noteq> 0"
    "d_blocks (s_dev s) page = Some (replicate bsz 0)"
    and sp1: "zeroed_space bsz (Suc m) (s\<lparr>sbi_free_list := fl1\<rparr>)" "unat page \<notin> free_sectors fl1"
    using zeroed_space_alloc [OF space] by blast
  obtain root fl2 where raw: "spfs_free_alloc (sbi_free_list (s\<lparr>sbi_free_list := fl1\<rparr>)) 1 = (root, fl2)"
      "root \<noteq> 0" "d_blocks (s_dev (s\<lparr>sbi_free_list := fl1\<rparr>)) root = Some (replicate bsz 0)"
      "zeroed_space bsz m (s\<lparr>sbi_free_list := fl1\<rparr>\<lparr>sbi_free_list := fl2\<rparr>)" "unat root \<notin> free_sectors fl2"
      "unat root \<in> free_sectors (sbi_free_list (s\<lparr>sbi_free_list := fl1\<rparr>))"
    using zeroed_space_alloc [OF sp1(1)] by metis
  then have a2: "spfs_free_alloc fl1 1 = (root, fl2)" "root \<noteq> 0"
    and sp2: "zeroed_space bsz m (s\<lparr>sbi_free_list := fl2\<rparr>)"
    and rt: "d_blocks (s_dev s) root = Some (replicate bsz 0)" "unat root \<notin> free_sectors fl2" "root \<noteq> page"
    using sp1(2) by auto
  have sub: "free_sectors fl2 \<subseteq> free_sectors fl1"
    using spfs_free_alloc_taken(2) [OF _ a2] sp1(1) by (auto simp: zeroed_space_def)
  define pb where "pb = store (replicate bsz 0) 0 (inode_bytes (e_frame env) inode)"
  define d where "d = mark_buffer_dirty (put_buf (mark_buffer_dirty (put_buf (s_dev s) page pb) page)
      0 (root_node b0 (first_entry inode page))) 0"
  have ins: "spfs_btree_insert fuel env s inode =
      Done (0, s\<lparr>s_dev := d, tree_start := root, sbi_free_list := fl2\<rparr>)"
    unfolding d_def pb_def
    using start a1 a2 b0 ino by (intro spfs_btree_insert_empty_tree) simp_all
  let ?t = "s\<lparr>sbi_free_list := fl2\<rparr>"
  let ?u = "?t\<lparr>s_dev := mark_buffer_dirty (put_buf (s_dev ?t) page pb) page\<rparr>"
  have "zeroed_space bsz m ?u"
    using sp1(2) sub by (intro zeroed_space_write sp2) auto
  then have "zeroed_space bsz m (?u\<lparr>s_dev := mark_buffer_dirty (put_buf (s_dev ?u) 0
      (root_node b0 (first_entry inode page))) 0\<rparr>)"
    by (rule zeroed_space_write) (rule zeroed_space_not_free_0 [OF \<open>zeroed_space bsz m ?u\<close>])
  then have "zeroed_space bsz m (s\<lparr>s_dev := d, tree_start := root, sbi_free_list := fl2\<rparr>)"
    by (rule zeroed_space_cong [THEN iffD1, rotated 2]) (simp_all add: d_def)
  moreover have "no_super (d_blocks d)"
    using b0(2,3) by (simp add: no_super_def d_def root_node_head be_num_be_bytes SPOOKY_FS_SUPER_MAGIC_def)
  moreover have "d_blocks d root = Some (replicate bsz 0)" using rt a2(2) by (simp add: d_def)
  ultimately show thesis using ins a2(2) rt(2) by (intro that)
qed

section \<open>The first child of a directory\<close>

lemma first_child:
  assumes space: "zeroed_space bsz (Suc m) s" "20 \<le> bsz"
    and dir: "in_start dir = 0" "\<not> i_lock dir" and child: "child \<noteq> 0" "low32 child = child"
  obtains r d fl where "spfs_add_child fuel s dir child =
      Done (0, dir\<lparr>in_capacity := in_capacity dir + 1, in_start := r\<rparr>, s\<lparr>s_dev := d, sbi_free_list := fl\<rparr>)"
    and "dir_chain (d_blocks d) [(r, [child])]" and "d_blocks d 0 = d_blocks (s_dev s) 0"
    and "zeroed_space bsz m (s\<lparr>s_dev := d, sbi_free_list := fl\<rparr>)"
    and "\<forall>n. unat n \<notin> free_sectors (sbi_free_list s) \<longrightarrow>
      unat n \<notin> free_sectors fl \<and> d_blocks d n = d_blocks (s_dev s) n"
proof -
  obtain r fl where a: "spfs_free_alloc (sbi_free_list s) 1 = (r, fl)" "r \<noteq> 0"
    and b: "d_blocks (s_dev s) r = Some (replicate bsz 0)"
    and sp: "zeroed_space bsz m (s\<lparr>sbi_free_list := fl\<rparr>)" "unat r \<notin> free_sectors fl"
    and fr: "unat r \<in> free_sectors (sbi_free_list s)" "free_sectors fl \<subseteq> free_sectors (sbi_free_list s)"
    using zeroed_space_alloc [OF space(1)] by blast
  define db where "db = dir_appended (store (replicate bsz 0) 0 (dir_header_bytes 0 0)) 0 0 child"
  define d where "d = mark_buffer_dirty (put_buf (s_dev s) r db) r"
  have al: "fs_alloc s 1 = (r, s\<lparr>sbi_free_list := fl\<rparr>)" using a by (simp add: fs_alloc_def)
  have loop: "add_child_loop fuel s p 0 child = Done (0, p\<lparr>in_start := r\<rparr>, s\<lparr>s_dev := d, sbi_free_list := fl\<rparr>)" for p
    using add_child_loop_end [OF al a(2) b, of fuel p child] space(2)
    by (simp add: db_def d_def fs_dirty_def fs_put_def)
  have "is_dir_block db 0 [child]"
    using is_dir_block_append [OF is_dir_block_empty [of bsz], of child] space(2) child
    by (simp add: db_def)
  then have "dir_chain (d_blocks d) [(r, [child])]" using a(2) by (simp add: d_def)
  moreover have "d_blocks d 0 = d_blocks (s_dev s) 0" using a(2) by (simp add: d_def)
  moreover have "dir\<lparr>i_lock := False\<rparr> = dir" using dir(2) by simp
  then have "spfs_add_child fuel s dir child =
      Done (0, dir\<lparr>in_capacity := in_capacity dir + 1, in_start := r\<rparr>, s\<lparr>s_dev := d, sbi_free_list := fl\<rparr>)"
    using dir by (simp add: spfs_add_child_def mutex_lock_def mutex_unlock_def Let_def loop)
  moreover have "zeroed_space bsz m (s\<lparr>s_dev := d, sbi_free_list := fl\<rparr>)"
    using zeroed_space_write [OF sp(1), of r db] sp(2) by (simp add: d_def zeroed_space_def)
  moreover have "\<forall>n. unat n \<notin> free_sectors (sbi_free_list s) \<longrightarrow>
      unat n \<notin> free_sectors fl \<and> d_blocks d n = d_blocks (s_dev s) n"
    using fr by (auto simp: d_def)
  ultimately show thesis using that by blast
qed

section \<open>Creating and finding the first file\<close>

text \<open>
  \<open>inode_init_owner\<close> sets the owner, the group and the mode of the new inode; it keeps the
  file type and touches nothing else.
\<close>

definition owner_ok :: "kernel \<Rightarrow> bool" where
  "owner_ok k \<longleftrightarrow> (\<forall>dir i mode. \<exists>uid gid m. k_owner k dir i mode = i\<lparr>i_uid := uid, i_gid := gid, i_mode := m\<rparr> \<and>
     S_ISREG m = S_ISREG mode \<and> S_ISDIR m = S_ISDIR mode)"

lemma not_reg_dir: "S_ISREG m \<Longrightarrow> \<not> S_ISDIR m"
  by (auto simp: S_ISREG_def S_ISDIR_def)

lemma spfs_new_inode_regular:
  assumes "owner_ok k" and "k_fresh k (sbi_id s) = Some i" and "icache s (sbi_id s) = None"
    and "icache s parent = Some dir" and "S_ISREG mode"
  obtains inode where "i_ino inode = sbi_id s" and "S_ISREG (i_mode inode)" and "in_start inode = in_start i"
    and "in_capacity inode = in_capacity i" and "i_size inode = i_size i" and "i_lock inode = i_lock i" and
    "spfs_new_inode k s (Some parent) mode = Done (Inode (sbi_id s),
      s\<lparr>sbi_id := sbi_id s + 1, icache := (icache s)(sbi_id s \<mapsto> inode)\<rparr>)"
proof -
  have ne: "sbi_id s \<noteq> parent" using assms(3,4) by auto
  obtain uid gid m where o: "k_owner k dir (i\<lparr>i_ino := sbi_id s, i_kernel := True\<rparr>) mode =
      i\<lparr>i_ino := sbi_id s, i_kernel := True, i_uid := uid, i_gid := gid, i_mode := m\<rparr>" and m: "S_ISREG m"
    using assms(1,5) unfolding owner_ok_def by metis
  have "spfs_new_inode k s (Some parent) mode = Done (Inode (sbi_id s),
      s\<lparr>sbi_id := sbi_id s + 1, icache := (icache s)(sbi_id s \<mapsto> i\<lparr>i_ino := sbi_id s, i_kernel := True, i_uid := uid,
        i_gid := gid, i_mode := m, i_ctime := k_now k, i_atime := k_now k, i_mtime := k_now k\<rparr>)\<rparr>)"
    using assms(2-4) ne o m by (simp add: spfs_new_inode_def iget_locked_def get_inode_def Let_def
        spfs_setup_inode_fp_def put_inode_def)
  then show thesis using m by (intro that) simp_all
qed

lemma first_create:
  assumes kernel: "owner_ok k" "k_fresh k (sbi_id s) = Some i" "icache s (sbi_id s) = None"
    and ino: "sbi_id s \<noteq> 0" "low32 (sbi_id s) = sbi_id s"
    and dir: "icache s parent = Some dir" "in_start dir = 0" "\<not> i_lock dir"
    and tree: "tree_start s = 0" "tree_blocks s = 1"
    and space: "zeroed_space bsz (Suc (Suc (Suc m))) s"
    and b0: "d_blocks (s_dev s) 0 = Some b0" "length b0 = bsz" "1620 \<le> bsz"
    and name: "length name < 256" and mode: "S_ISREG mode"
  obtains r inode s' where "spfs_create k fuel env s parent name mode = Done (0, Some (sbi_id s), s')"
    and "in_name inode = name @ replicate (256 - length name) 0"
    and "icache s' = (icache s)(sbi_id s \<mapsto> inode,
      parent \<mapsto> dir\<lparr>in_capacity := in_capacity dir + 1, in_start := r\<rparr>)"
    and "dir_chain (d_blocks (s_dev s')) [(r, [sbi_id s])]" and "tree_start s' \<noteq> 0"
    and "no_super (d_blocks (s_dev s'))" and "i_ino inode = sbi_id s" and "S_ISREG (i_mode inode)"
    and "in_start inode = in_start i" and "in_capacity inode = in_capacity i" and "i_size inode = i_size i"
    and "i_lock inode = i_lock i" and "zeroed_space bsz m s'"
    and "d_blocks (s_dev s') (tree_start s') = Some (replicate bsz 0)"
    and "unat (tree_start s') \<notin> free_sectors (sbi_free_list s')" and "sbi_block_size s' = sbi_block_size s"
proof -
  let ?n = "sbi_id s"
  obtain inode where i: "i_ino inode = ?n" and reg: "S_ISREG (i_mode inode)"
    and priv: "in_start inode = in_start i" "in_capacity inode = in_capacity i" "i_size inode = i_size i"
      "i_lock inode = i_lock i" and new: "spfs_new_inode k s (Some parent) mode =
      Done (Inode ?n, s\<lparr>sbi_id := ?n + 1, icache := (icache s)(?n \<mapsto> inode)\<rparr>)"
    using spfs_new_inode_regular [OF kernel dir(1) mode] by blast
  define inode2 where "inode2 = inode\<lparr>in_name := name @ replicate (256 - length name) 0\<rparr>"
  define s2 where "s2 = s\<lparr>sbi_id := ?n + 1, icache := (icache s)(?n \<mapsto> inode2)\<rparr>"
  have s2: "tree_start s2 = 0" "tree_blocks s2 = 1" "s_dev s2 = s_dev s" "sbi_free_list s2 = sbi_free_list s"
    using tree by (simp_all add: s2_def)
  have sp: "zeroed_space bsz (Suc (Suc (Suc m))) s2"
    using space zeroed_space_cong [OF s2(3,4)] by simp
  obtain d fl root where ins: "spfs_btree_insert fuel env s2 inode2 =
      Done (0, s2\<lparr>s_dev := d, tree_start := root, sbi_free_list := fl\<rparr>)" and root: "root \<noteq> 0"
    and sp3: "zeroed_space bsz (Suc m) (s2\<lparr>s_dev := d, tree_start := root, sbi_free_list := fl\<rparr>)"
    and super: "no_super (d_blocks d)"
    and rt: "d_blocks d root = Some (replicate bsz 0)" "unat root \<notin> free_sectors fl"
  proof (rule first_insertion_space [OF s2(1,2) sp, of b0 inode2 fuel env])
    show "d_blocks (s_dev s2) 0 = Some b0" "length b0 = bsz" "1620 \<le> bsz"
      using b0 by (simp_all add: s2(3))
    show "low32 (i_ino inode2) \<noteq> 0" using ino i by (simp add: inode2_def)
  qed
  define s3 where "s3 = s2\<lparr>s_dev := d, tree_start := root, sbi_free_list := fl\<rparr>"
  have gen: "spfs_generic_create k fuel env s parent name mode = Done (0, Some ?n, s3)"
    using new ins name by (simp add: spfs_generic_create_def SPOOKY_FS_NAME_MAX_def get_inode_def Let_def
        put_inode_def inode2_def [symmetric] s2_def [symmetric] s3_def)
  have ne: "?n \<noteq> parent" using kernel(3) dir(1) by auto
  have c3: "get_inode s3 parent = Done dir" "get_inode s3 ?n = Done inode2"
    "icache s3 = (icache s)(?n \<mapsto> inode2)"
    using dir(1) ne by (simp_all add: get_inode_def s3_def s2_def)
  obtain r d' fl' where add: "spfs_add_child fuel s3 dir ?n =
      Done (0, dir\<lparr>in_capacity := in_capacity dir + 1, in_start := r\<rparr>, s3\<lparr>s_dev := d', sbi_free_list := fl'\<rparr>)"
    and chain: "dir_chain (d_blocks d') [(r, [?n])]" and same0: "d_blocks d' 0 = d_blocks (s_dev s3) 0"
    and sp4: "zeroed_space bsz m (s3\<lparr>s_dev := d', sbi_free_list := fl'\<rparr>)"
    and kept: "\<forall>n. unat n \<notin> free_sectors (sbi_free_list s3) \<longrightarrow>
      unat n \<notin> free_sectors fl' \<and> d_blocks d' n = d_blocks (s_dev s3) n"
    by (rule first_child [OF sp3 [folded s3_def] _ dir(2,3) ino]) (use b0(3) in simp)
  let ?s' = "put_inode (s3\<lparr>s_dev := d', sbi_free_list := fl'\<rparr>) parent
    (dir\<lparr>in_capacity := in_capacity dir + 1, in_start := r\<rparr>)"
  show thesis
  proof (rule that [of ?s' inode2 r])
    show "spfs_create k fuel env s parent name mode = Done (0, Some ?n, ?s')"
      using gen mode c3 add i by (simp add: spfs_create_def add_child_to_def inode2_def)
    show "dir_chain (d_blocks (s_dev ?s')) [(r, [?n])]" using chain by (simp add: put_inode_def)
    show "no_super (d_blocks (s_dev ?s'))"
      using super same0 by (simp add: no_super_def put_inode_def s3_def)
    show "zeroed_space bsz m ?s'" using sp4 by (simp add: zeroed_space_def put_inode_def)
    show "d_blocks (s_dev ?s') (tree_start ?s') = Some (replicate bsz 0)"
      and "unat (tree_start ?s') \<notin> free_sectors (sbi_free_list ?s')"
      using kept rt by (simp_all add: put_inode_def s3_def)
  qed (use root c3(3) i reg priv in \<open>simp_all add: inode2_def put_inode_def s3_def s2_def\<close>)
qed

lemma first_create_lookup:
  assumes "owner_ok k" and "k_fresh k (sbi_id s) = Some i" and "icache s (sbi_id s) = None"
    and "sbi_id s \<noteq> 0" and "low32 (sbi_id s) = sbi_id s"
    and "icache s parent = Some dir" and "S_ISDIR (i_mode dir)" and "in_start dir = 0" and "\<not> i_lock dir"
    and "tree_start s = 0" and "tree_blocks s = 1" and "zeroed_space bsz 3 s"
    and "d_blocks (s_dev s) 0 = Some b0" and "length b0 = bsz" and "1620 \<le> bsz"
    and "length name < 256" and "0 \<notin> set name" and "S_ISREG mode"
  shows "\<exists>s'. spfs_create k fuel env s parent name mode = Done (0, Some (sbi_id s), s') \<and>
    (\<forall>other. spfs_lookup k tf 1 env s' parent other =
      Done (if other = name then Some (sbi_id s) else None, s')) \<and> tree_start s' \<noteq> 0 \<and>
    no_super (d_blocks (s_dev s'))"
proof -
  let ?n = "sbi_id s"
  obtain r inode s' where c: "spfs_create k fuel env s parent name mode = Done (0, Some ?n, s')"
    and nm: "in_name inode = name @ replicate (256 - length name) 0"
    and cache: "icache s' = (icache s)(?n \<mapsto> inode,
      parent \<mapsto> dir\<lparr>in_capacity := in_capacity dir + 1, in_start := r\<rparr>)"
    and chain: "dir_chain (d_blocks (s_dev s')) [(r, [?n])]" and root: "tree_start s' \<noteq> 0"
    and super: "no_super (d_blocks (s_dev s'))"
    using first_create [OF assms(1-6,8-11) assms(12) [unfolded numeral_3_eq_3] assms(13-16,18)] by metis
  have ne: "?n \<noteq> parent" using assms(3,6) by auto
  have "spfs_lookup k tf 1 env s' parent other = Done (find (has_name s' other) [?n], s')" for other
    using spfs_lookup_cached [of s' parent _ "[(r, [?n])]" 1 k tf env other] chain cache ne assms(7,9)
    by (simp add: dir_children_def)
  moreover have "has_name s' other ?n \<longleftrightarrow> other = name" for other
    using cache ne nm assms(17) by (auto simp: has_name_def c_string_padded)
  ultimately show ?thesis using c root super by auto
qed


section \<open>A fresh file system\<close>

lemma image_blocks_zero:
  assumes geo: "geometry_ok f st" and zero: "f_data f = replicate (f_room f) 0"
    and n: "2 \<le> n" "n < 2 + data_blocks f st" "data_blocks f st < 2 ^ 32"
  shows "image_blocks (unat (st_blksize st)) (mkfs_image f st) (of_nat n) =
    Some (replicate (unat (st_blksize st)) 0)"
proof -
  let ?B = "unat (st_blksize st)"
  have g: "512 \<le> ?B" "3 * ?B \<le> f_room f" using geo by (auto simp: geometry_ok_def)
  have "data_blocks f st * ?B \<le> f_room f - 2 * ?B" unfolding data_blocks_def by (rule div_times_less_eq_dividend)
  then have "(2 + data_blocks f st) * ?B \<le> f_room f" using g(2) by (simp add: distrib_right)
  moreover have "(n + 1) * ?B \<le> (2 + data_blocks f st) * ?B" using n(2) by (intro mult_right_mono) simp_all
  ultimately have le: "(n + 1) * ?B \<le> f_room f" by (rule order_trans [rotated])
  have u: "unat (of_nat n :: u64) = n" using n by (simp add: unat_of_nat)
  have "2 * ?B \<le> n * ?B" using n(1) by (rule mult_right_mono) simp
  then have after: "?B + 20 \<le> n * ?B" using g(1) by linarith
  have len: "length (image_head f st) = ?B + 20" using g(1) by (simp add: length_image_head)
  have fits: "n * ?B + ?B \<le> f_room f" using le by (simp add: add.commute)
  have "load (mkfs_image f st) (n * ?B) ?B = load (replicate (f_room f) 0) (n * ?B) ?B"
    unfolding mkfs_image_def zero using after len g by (intro load_store_after) simp_all
  also have "\<dots> = replicate ?B 0"
    using fits by (simp add: load_def min_def)
  finally show ?thesis
    using le mkfs_image_parts(1) [OF geo] by (simp add: image_blocks_def u)
qed

text \<open>Mounting what mkfs wrote on a zeroed device gives a state for the first file.\<close>

lemma fresh_mount:
  assumes geo: "geometry_ok f st" "1620 \<le> unat (st_blksize st)"
    and blocks: "m < data_blocks f st" "data_blocks f st < 2 ^ 32"
    and zero: "f_data f = replicate (f_room f) 0"
    and serves: "serves page sector setbs (mkfs_image f st)" and clean: "d_dirty d = {}"
    and size: "mountable page sector st" and kz: "\<forall>j. kz j" and fuel: "0 < fuel"
    and slab: "k_fresh k 1 = Some i"
  obtains s b0 where "spfs_fill_super_block setbs True True kz k fuel env d = Done (0, Some s)"
    and "icache s = [1 \<mapsto> fresh_root k i]" and "sbi_id s = 2" and "sbi_root_id s = 1"
    and "tree_start s = 0" and "tree_blocks s = 1" and "zeroed_space (unat (st_blksize st)) m s"
    and "d_blocks (s_dev s) 0 = Some b0" and "length b0 = unat (st_blksize st)"
    and "\<forall>n b. d_blocks (s_dev s) n = Some b \<longrightarrow> length b = unat (st_blksize st)"
proof -
  let ?B = "unat (st_blksize st)"
  obtain s where s: "spfs_fill_super_block setbs True True kz k fuel env d = Done (0, Some s)"
    "d_blocks (s_dev s) = image_blocks ?B (mkfs_image f st)"
    "sbi_free_list s = \<lparr>fl_blocks = of_nat (data_blocks f st), fl_root = [image_node f st]\<rparr>"
    "sbi_id s = 2" "sbi_root_id s = 1" "tree_start s = 0" "tree_blocks s = 1"
    "icache s = [1 \<mapsto> fresh_root k i]"
    using spfs_fill_super_block_fresh [where kz = kz and env = env and d = d, OF geo(1) serves clean size _ fuel slab] kz
    by blast
  note free = free_ok_image_node [OF geo(1) blocks(2), folded s(3)]
  have "nodes_total (fl_root (sbi_free_list s)) = data_blocks f st"
    using blocks(2) by (simp add: s(3) image_node_def unat_of_nat)
  then have "zeroed_space ?B m s"
    using free blocks image_blocks_zero [OF geo(1) zero]
    by (simp add: zeroed_space_def s(2))
  moreover obtain b0 where "d_blocks (s_dev s) 0 = Some b0" "length b0 = ?B"
    using mkfs_image_super_block [OF geo(1), of ?B] s(2) by auto
  moreover have "\<forall>n b. d_blocks (s_dev s) n = Some b \<longrightarrow> length b = ?B"
    by (auto simp: s(2) image_blocks_def split: if_splits)
  ultimately show thesis using that s(1,4-8) by blast
qed

lemma fresh_root_simps [simp]:
  "i_mode (fresh_root k i) = root_mode" "in_start (fresh_root k i) = in_start i"
  "i_lock (fresh_root k i) = i_lock i"
  by (simp_all add: fresh_root_def)

section \<open>Properties\<close>

text \<open>
  In an empty file system (no tree, an unlocked directory without blocks, four zeroed free
  blocks) creating a file succeeds, and looking the directory up afterwards finds the file under
  its name and nothing under any other name. With the tree this leaves, no other file or
  directory can be created.
\<close>

theorem first_file_is_found:
  assumes "owner_ok k" and "k_fresh k (sbi_id s) = Some i" and "icache s (sbi_id s) = None"
    and "sbi_id s \<noteq> 0" and "low32 (sbi_id s) = sbi_id s"
    and "icache s parent = Some dir" and "S_ISDIR (i_mode dir)" and "in_start dir = 0" and "\<not> i_lock dir"
    and "tree_start s = 0" and "tree_blocks s = 1" and "zeroed_space bsz 3 s"
    and "d_blocks (s_dev s) 0 = Some b0" and "length b0 = bsz" and "1620 \<le> bsz"
    and "length name < 256" and "0 \<notin> set name" and "S_ISREG mode"
  shows "\<exists>s'. spfs_create k fuel env s parent name mode = Done (0, Some (sbi_id s), s') \<and>
    (\<forall>other. spfs_lookup k tf 1 env s' parent other =
      Done (if other = name then Some (sbi_id s) else None, s')) \<and> tree_start s' \<noteq> 0"
  using first_create_lookup [OF assms] by blast

lemma sample_disk_zero: "f_data sample_disk = replicate (f_room sample_disk) 0"
  by (simp add: sample_disk_def)

lemma sample_kernel_simps:
  "owner_ok sample_kernel" "k_fresh sample_kernel n = Some (dir_sample_inode 0)"
  by (auto simp: owner_ok_def sample_kernel_def)

lemma sample_mount:
  obtains setbs s b0 where "setbs = device_setbs 4096 512 (mkfs_image sample_disk sample_stat)"
    and "spfs_fill_super_block setbs True True (\<lambda>_. True) sample_kernel 1 sample_env (s_dev empty_fs) = Done (0, Some s)"
    and "icache s = [1 \<mapsto> fresh_root sample_kernel (dir_sample_inode 0)]" and "sbi_id s = 2"
    and "tree_start s = 0" and "tree_blocks s = 1" and "zeroed_space 2048 3 s"
    and "d_blocks (s_dev s) 0 = Some b0" and "length b0 = 2048"
    and "\<forall>n b. d_blocks (s_dev s) n = Some b \<longrightarrow> length b = 2048"
proof (rule fresh_mount [OF sample_geometry(1) _ _ _ _ serves_device clean_device sample_mountable(1), where m = 3 and
      kz = "\<lambda>_. True" and fuel = 1 and k = sample_kernel and i = "dir_sample_inode 0" and env = sample_env])
  fix s b0
  assume "spfs_fill_super_block (device_setbs 4096 512 (mkfs_image sample_disk sample_stat)) True True
      (\<lambda>_. True) sample_kernel 1 sample_env (s_dev empty_fs) = Done (0, Some s)"
    "icache s = [1 \<mapsto> fresh_root sample_kernel (dir_sample_inode 0)]" "sbi_id s = 2"
    "tree_start s = 0" "tree_blocks s = 1" "zeroed_space (unat (st_blksize sample_stat)) 3 s"
    "d_blocks (s_dev s) 0 = Some b0" "length b0 = unat (st_blksize sample_stat)"
    "\<forall>n b. d_blocks (s_dev s) n = Some b \<longrightarrow> length b = unat (st_blksize sample_stat)"
  with that show thesis by (simp add: sample_geometry)
qed (simp_all add: sample_geometry sample_kernel_simps, simp add: sample_disk_def)

theorem first_file_is_found_witness:
  "\<exists>(s :: vfs) s'. spfs_create sample_kernel 0 sample_env s 1 [65] 0x81A4 = Done (0, Some 2, s') \<and>
    spfs_lookup sample_kernel 0 1 sample_env s' 1 [65] = Done (Some 2, s') \<and>
    spfs_lookup sample_kernel 0 1 sample_env s' 1 [66] = Done (None, s')"
proof -
  obtain s :: vfs and b0 where s: "icache s = [1 \<mapsto> fresh_root sample_kernel (dir_sample_inode 0)]" "sbi_id s = 2"
    "tree_start s = 0" "tree_blocks s = 1" "zeroed_space 2048 3 s"
    "d_blocks (s_dev s) 0 = Some b0" "length b0 = 2048"
    "\<forall>n b. d_blocks (s_dev s) n = Some b \<longrightarrow> length b = 2048"
    by (rule sample_mount)
  have "\<exists>s'. spfs_create sample_kernel 0 sample_env s 1 [65] 0x81A4 = Done (0, Some (sbi_id s), s') \<and>
    (\<forall>other. spfs_lookup sample_kernel 0 1 sample_env s' 1 other =
      Done (if other = [65] then Some (sbi_id s) else None, s')) \<and> tree_start s' \<noteq> 0"
    by (rule first_file_is_found [where ?b0.0 = b0 and bsz = 2048 and i = "dir_sample_inode 0"
        and dir = "fresh_root sample_kernel (dir_sample_inode 0)"])
      (simp_all add: s sample_kernel_simps low32_def S_ISREG_def)
  then obtain s' where "spfs_create sample_kernel 0 sample_env s 1 [65] 0x81A4 = Done (0, Some 2, s')"
    and "spfs_lookup sample_kernel 0 1 sample_env s' 1 other =
      Done (if other = [65] then Some 2 else None, s')" for other unfolding s(2) by blast
  from this(1) this(2) [of "[65]"] this(2) [of "[66]"] show ?thesis by auto
qed

end
