(* ===== verification/Fs_Machine.thy ===== *)
theory Fs_Machine
  imports Evolve_Ops First_File
begin

text \<open>
  The mounted file system as a machine: the VFS calls one operation after the other, each with
  whatever arguments, memory and clock, and the state of one call is what the next one gets. A
  call that crashes or does not come back ends the run. \<open>fs_step\<close> is one call, \<open>fs_run\<close> a
  sequence of them, between which the kernel may take inodes out of the cache; an invariant of the program is a relation between the states before and
  after every call, which the locale below carries over to runs.
\<close>

section \<open>The kernel\<close>

text \<open>
  What the calls rely on: \<open>inode_init_owner\<close> as documented, and objects of the slab that are of
  the type of \<open>struct spfs_inode\<close>, whose name is an array of \<open>SPOOKY_FS_NAME_MAX\<close> bytes.
\<close>

definition slab_ok :: "kernel \<Rightarrow> bool" where
  "slab_ok k \<longleftrightarrow> (\<forall>n i. k_fresh k n = Some i \<longrightarrow> length (in_name i) = SPOOKY_FS_NAME_MAX)"

definition kernel_ok :: "kernel \<Rightarrow> bool" where
  "kernel_ok k \<longleftrightarrow> owner_ok k \<and> slab_ok k"

section \<open>The calls\<close>

text \<open>
  What a call leaves behind for the observer: \<open>Created n ok\<close> is \<open>spfs_create\<close> or
  \<open>spfs_mkdir\<close> with the number \<open>n\<close> for the new inode, \<open>ok\<close> when the dentry was
  instantiated. \<open>Evicted n\<close> is no call but a step of the kernel between calls: it takes an inode
  that is not in use out of the cache, and the next call that needs the number fetches it anew.
  Which inodes are in use is not modelled: any may be evicted at any time.
\<close>

datatype fs_event =
    Created u64 bool
  | ReadFile u64 int
  | WroteFile u64 int
  | LookedUp u64 "u64 option"
  | Listed u64 int
  | WroteBack u64 int
  | Evicted u64

text \<open>\<open>file->f_inode\<close> is an inode of the cache.\<close>

definition read_file ::
  "nat \<Rightarrow> nat \<Rightarrow> vfs \<Rightarrow> u64 \<Rightarrow> nat \<Rightarrow> nat option \<Rightarrow> (int \<times> byte list \<times> nat option \<times> vfs) outcome"
where
  "read_file fuel bfuel s n in_len ppos =
     bnd (get_inode s n) (\<lambda>inode.
     bnd (spfs_read fuel bfuel s inode in_len ppos) (\<lambda>(res, out, inode, ppos, s).
     Done (res, out, ppos, put_inode s n inode)))"

definition write_file ::
  "nat \<Rightarrow> nat \<Rightarrow> env \<Rightarrow> bool \<Rightarrow> vfs \<Rightarrow> u64 \<Rightarrow> byte list \<Rightarrow> nat option \<Rightarrow>
    (int \<times> nat option \<times> vfs) outcome"
where
  "write_file fuel tfuel env interrupted s n src ppos =
     bnd (get_inode s n) (\<lambda>inode.
     bnd (spfs_write fuel tfuel env interrupted s inode src ppos) (\<lambda>(res, inode, ppos, s).
     Done (res, ppos, put_inode s n inode)))"

definition evict :: "vfs \<Rightarrow> u64 \<Rightarrow> vfs" where
  "evict s n = s\<lparr>icache := (icache s)(n := None)\<rparr>"

inductive fs_step :: "vfs \<Rightarrow> fs_event \<Rightarrow> vfs \<Rightarrow> bool" where
  creating: "kernel_ok k \<Longrightarrow> spfs_create k fuel env s parent name mode = Done (res, ino, s') \<Longrightarrow>
    fs_step s (Created (sbi_id s) (ino \<noteq> None)) s'"
| making_dir: "kernel_ok k \<Longrightarrow> spfs_mkdir k fuel env s parent name mode = Done (res, ino, s') \<Longrightarrow>
    fs_step s (Created (sbi_id s) (ino \<noteq> None)) s'"
| reading: "read_file fuel bfuel s n in_len ppos = Done (res, out, ppos', s') \<Longrightarrow>
    fs_step s (ReadFile n res) s'"
| writing: "write_file fuel tfuel env interrupted s n src ppos = Done (res, ppos', s') \<Longrightarrow>
    fs_step s (WroteFile n res) s'"
| looking: "kernel_ok k \<Longrightarrow> spfs_lookup k tfuel fuel env s parent name = Done (result, s') \<Longrightarrow>
    fs_step s (LookedUp parent result) s'"
| listing: "kernel_ok k \<Longrightarrow> spfs_iterate emit emit_dots k tfuel fuel env s parent pos (buf :: byte list) =
      Done (res, pos', buf', s') \<Longrightarrow>
    fs_step s (Listed parent res) s'"
| writing_back: "spfs_write_inode fuel env s n = Done (res, s') \<Longrightarrow> fs_step s (WroteBack n res) s'"
| evicting: "fs_step s (Evicted n) (evict s n)"

inductive fs_run :: "vfs \<Rightarrow> fs_event list \<Rightarrow> vfs \<Rightarrow> bool" where
  done_run: "fs_run s [] s"
| step_run: "fs_step s e t \<Longrightarrow> fs_run t es s' \<Longrightarrow> fs_run s (e # es) s'"

inductive_cases fs_run_NilE: "fs_run s [] s'"
inductive_cases fs_run_ConsE: "fs_run s (e # es) s'"
inductive_simps fs_run_simps: "fs_run s [] s'" "fs_run s (e # es) s'"

lemma fs_run_append: "fs_run s (es @ fs) s' \<longleftrightarrow> (\<exists>t. fs_run s es t \<and> fs_run t fs s')"
  by (induction es arbitrary: s) (auto simp: fs_run_simps)

section \<open>Relations between the states of a run\<close>

text \<open>
  \<open>ok\<close> says which events a relation holds for; a relation that is reflexive, transitive and
  holds between the states before and after such calls holds for runs of them.
\<close>

locale step_relation =
  fixes ok :: "fs_event \<Rightarrow> bool" and rel :: "vfs \<Rightarrow> vfs \<Rightarrow> bool"
  assumes rel_refl: "rel s s"
    and rel_trans: "rel s t \<Longrightarrow> rel t u \<Longrightarrow> rel s u"
    and rel_step: "fs_step s e t \<Longrightarrow> ok e \<Longrightarrow> rel s t"
begin

lemma run: "fs_run s es s' \<Longrightarrow> list_all ok es \<Longrightarrow> rel s s'"
proof (induction rule: fs_run.induct)
  case (done_run s)
  show ?case by (rule rel_refl)
next
  case (step_run s e t es s')
  then have "rel s t" and "rel t s'" by (simp_all add: rel_step)
  then show ?case by (rule rel_trans)
qed

lemma run_prefix: "fs_run s (es @ fs) s' \<Longrightarrow> list_all ok es \<Longrightarrow> \<exists>t. fs_run t fs s' \<and> rel s t"
  using run by (auto simp: fs_run_append)

end

section \<open>What every call retains\<close>

definition retains :: "vfs \<Rightarrow> vfs \<Rightarrow> bool" where
  "retains s s' \<longleftrightarrow>
     (\<forall>n. map_option length (d_blocks (s_dev s') n) = map_option length (d_blocks (s_dev s) n)) \<and>
     (free_ok (sbi_free_list s) \<longrightarrow> free_ok (sbi_free_list s') \<and>
        free_sectors (sbi_free_list s') \<subseteq> free_sectors (sbi_free_list s)) \<and>
     (tree_start s \<noteq> 0 \<longrightarrow> tree_start s' \<noteq> 0)"

lemma retains_refl [simp]: "retains s s"
  by (simp add: retains_def)

lemma retains_trans [trans]: "retains s t \<Longrightarrow> retains t u \<Longrightarrow> retains s u"
  by (auto simp: retains_def)

lemma retains_cache [simp]:
  "retains s (t\<lparr>icache := c\<rparr>) = retains s t" "retains (s\<lparr>icache := c\<rparr>) t = retains s t"
  "retains s (put_inode t n i) = retains s t" "retains (put_inode s n i) t = retains s t"
  "retains s (evict t n) = retains s t" "retains (evict s n) t = retains s t"
  "retains s (iget_failed t n) = retains s t" "retains (iget_failed s n) t = retains s t"
  "retains s (t\<lparr>sbi_id := x\<rparr>) = retains s t" "retains (s\<lparr>sbi_id := x\<rparr>) t = retains s t"
  by (simp_all add: retains_def put_inode_def iget_failed_def evict_def)

lemma retains_root: "retains s s' \<Longrightarrow> tree_start s \<noteq> 0 \<Longrightarrow> tree_start s' \<noteq> 0"
  by (simp add: retains_def)

lemma evolves_retains: "evolves s s' \<Longrightarrow> retains s s'"
  by (simp add: evolves_def retains_def)

lemma same_disk_retains: "same_disk s s' \<Longrightarrow> retains s s'"
  by (simp add: same_disk_def retains_def)

lemma evolves_icache: "evolves (s :: vfs) s' \<Longrightarrow> icache s' = icache s"
  by (cases s; cases s') (simp add: evolves_def)

section \<open>Creating\<close>

lemma owner_ok_ino: "owner_ok k \<Longrightarrow> i_ino (k_owner k dir i mode) = i_ino i"
proof -
  assume "owner_ok k"
  then obtain uid gid m where "k_owner k dir i mode = i\<lparr>i_uid := uid, i_gid := gid, i_mode := m\<rparr>"
    unfolding owner_ok_def by blast
  then show ?thesis by simp
qed

lemma new_inode_retains:
  assumes "spfs_new_inode k s parent mode = Done (p, s')"
  shows "retains s s'" and "sbi_id s' = sbi_id s + 1" and "m \<noteq> sbi_id s \<Longrightarrow> icache s' m = icache s m"
    and "p = Inode n \<Longrightarrow> n = sbi_id s"
    and "p = Inode n \<Longrightarrow> owner_ok k \<Longrightarrow> \<exists>i. icache s' n = Some i \<and> i_ino i = n"
proof -
  define s0 where "s0 = s\<lparr>sbi_id := sbi_id s + 1\<rparr>"
  obtain r s1 where g: "iget_locked k s0 (sbi_id s) = (r, s1)" by fastforce
  have k1: "retains s s1" using same_disk_retains [OF iget_locked_disk [OF g]] by (simp add: s0_def)
  have i1: "sbi_id s1 = sbi_id s + 1" "m \<noteq> sbi_id s \<Longrightarrow> icache s1 m = icache s m"
    "r = Some True \<Longrightarrow> icache s1 (sbi_id s) = Some i \<Longrightarrow> i_ino i = sbi_id s" for i
    using g by (auto simp: iget_locked_def s0_def split: option.splits)
  have s1: "iget_locked k (s\<lparr>sbi_id := sbi_id s + 1\<rparr>) (sbi_id s) = (r, s1)" using g by (simp add: s0_def)
  consider "r = None" | "r = Some False" | "r = Some True" by (cases r) auto
  note cases = this
  have all: "retains s s' \<and> sbi_id s' = sbi_id s + 1 \<and> (m \<noteq> sbi_id s \<longrightarrow> icache s' m = icache s m) \<and>
      (p = Inode n \<longrightarrow> n = sbi_id s) \<and>
      (p = Inode n \<longrightarrow> owner_ok k \<longrightarrow> (\<exists>i. icache s' n = Some i \<and> i_ino i = n))"
  proof (cases rule: cases)
    case 1
    then show ?thesis using assms s1 k1 i1 by (auto simp: spfs_new_inode_def)
  next
    case 2
    then show ?thesis using assms s1 k1 i1 by (auto simp: spfs_new_inode_def iget_failed_def retains_def)
  next
    case 3
    obtain i where i: "icache s1 (sbi_id s) = Some i"
      using assms s1 3 by (auto simp: spfs_new_inode_def Let_def get_inode_def split: option.splits)
    then have ino: "i_ino i = sbi_id s" using 3 i1(3) by blast
    obtain j where j: "s' = put_inode s1 (sbi_id s) j" "p = Inode (sbi_id s)"
      "owner_ok k \<Longrightarrow> i_ino j = sbi_id s"
      using assms s1 3 i ino
      by (auto simp: spfs_new_inode_def Let_def bnd_Done_iff get_inode_def spfs_setup_inode_fp_def owner_ok_ino
          split: option.splits if_splits)
    then show ?thesis using k1 i1 by (auto simp: put_inode_def retains_def)
  qed
  show "retains s s'" and "sbi_id s' = sbi_id s + 1" and "m \<noteq> sbi_id s \<Longrightarrow> icache s' m = icache s m"
    and "p = Inode n \<Longrightarrow> n = sbi_id s"
    and "p = Inode n \<Longrightarrow> owner_ok k \<Longrightarrow> \<exists>i. icache s' n = Some i \<and> i_ino i = n"
    using all by blast+
qed

lemma bnode_alloc_root_ok: "bnode_alloc_root s bubble = Done (0, s') \<Longrightarrow> tree_start s' \<noteq> 0"
  by (auto simp: bnode_alloc_root_def Let_def bnd_Done_iff bug_on_Done_iff errno_defs fs_defs
      split: prod.splits if_splits option.splits)

lemma btree_insert_new_bubble:
  assumes "btree_insert fuel env s None inode out = Done (0, bubble, out', s')"
  shows "\<exists>page. bubble = bubble_make (i_ino inode) page 0"
proof -
  obtain page s1 where a: "fs_alloc s (tree_blocks s) = (page, s1)" by fastforce
  have "bubble = bubble_make (i_ino inode) page 0"
    using assms a by (auto simp: bnd_Done_iff Let_def errno_defs split: if_splits option.splits)
  then show ?thesis by blast
qed

lemma btree_insert_leaves_root:
  assumes ins: "spfs_btree_insert fuel env s inode = Done (0, s')" and id: "low32 (i_ino inode) \<noteq> 0"
  shows "tree_start s' \<noteq> 0"
proof (cases "tree_start s = 0")
  case False
  then show ?thesis using spfs_btree_insert_evolves [OF ins] by (simp add: evolves_def)
next
  case True
  then obtain r bubble out u where i: "btree_insert fuel env s None inode 0 = Done (r, bubble, out, u)"
    using ins by (auto simp: spfs_btree_insert_def Let_def bnd_Done_iff simp del: btree_insert.simps)
  have fix_root: "(if bubble_is_active bubble then
      bnd (bnode_alloc_root u bubble) (\<lambda>(nres, s). bug_on (nres \<noteq> 0) (Done (r, s)))
    else Done (r, u)) = Done (0, s')"
    using ins True i by (simp add: spfs_btree_insert_def Let_def del: btree_insert.simps cong: if_cong)
  then have "r = 0" by (auto simp: bnd_Done_iff bug_on_Done_iff split: if_splits)
  then obtain page where "bubble = bubble_make (i_ino inode) page 0"
    using btree_insert_new_bubble i by blast
  then have "bubble_is_active bubble" using id by (simp add: bubble_is_active_def bubble_make_def)
  then show ?thesis
    using fix_root by (auto simp: bnd_Done_iff bug_on_Done_iff dest: bnode_alloc_root_ok)
qed

text \<open>The outcome of \<open>spfs_generic_create\<close>, whichever way it ends.\<close>

lemma generic_create_retains:
  assumes "spfs_generic_create k fuel env s parent name mode = Done (res, ino, s')"
  shows "retains s s'" and "m \<noteq> sbi_id s \<Longrightarrow> icache s' m = icache s m"
    and "ino = Some n \<Longrightarrow> n = sbi_id s"
    and "ino = Some n \<Longrightarrow> owner_ok k \<Longrightarrow> low32 (sbi_id s) \<noteq> 0 \<Longrightarrow> tree_start s' \<noteq> 0"
proof -
  have all: "retains s s' \<and> (m \<noteq> sbi_id s \<longrightarrow> icache s' m = icache s m) \<and> (ino = Some n \<longrightarrow> n = sbi_id s) \<and>
      (ino = Some n \<longrightarrow> owner_ok k \<longrightarrow> low32 (sbi_id s) \<noteq> 0 \<longrightarrow> tree_start s' \<noteq> 0)"
  proof (cases "SPOOKY_FS_NAME_MAX < length name")
    case True
    then show ?thesis using assms by (simp add: spfs_generic_create_def)
  next
    case False
    then obtain p s1 where p: "spfs_new_inode k s (Some parent) mode = Done (p, s1)"
      using assms by (auto simp: spfs_generic_create_def bnd_Done_iff)
    note new = new_inode_retains [OF p]
    show ?thesis
    proof (cases p)
      case (Inode q)
      then obtain i where i: "icache s1 q = Some i"
        using assms False p by (auto simp: spfs_generic_create_def get_inode_def split: option.splits)
      define j where "j = i\<lparr>in_name := name @ replicate (SPOOKY_FS_NAME_MAX - length name) 0\<rparr>"
      obtain r s2 where b: "spfs_btree_insert fuel env (put_inode s1 q j) j = Done (r, s2)"
        using assms False p Inode i
        by (auto simp: spfs_generic_create_def bnd_Done_iff get_inode_def Let_def j_def)
      have s': "s' = s2 \<and> (ino = Some n \<longrightarrow> r = 0 \<and> n = q)"
        using assms False p Inode i b
        by (auto simp: spfs_generic_create_def get_inode_def Let_def j_def split: if_splits)
      have e: "evolves (put_inode s1 q j) s2" by (rule spfs_btree_insert_evolves [OF b])
      have "retains s s2" using new(1) evolves_retains [OF e] by (auto intro: retains_trans)
      moreover have "m \<noteq> sbi_id s \<longrightarrow> icache s2 m = icache s m"
        using evolves_icache [OF e] new(3,4) Inode by (auto simp: put_inode_def)
      moreover have "tree_start s2 \<noteq> 0" if "r = 0" "owner_ok k" "low32 (sbi_id s) \<noteq> 0"
        using btree_insert_leaves_root [of fuel env "put_inode s1 q j" j s2] b that new(4,5) Inode i
        by (auto simp: j_def)
      ultimately show ?thesis using s' new(4) Inode by auto
    qed (use assms False p new in \<open>simp_all add: spfs_generic_create_def\<close>)
  qed
  show "retains s s'" and "m \<noteq> sbi_id s \<Longrightarrow> icache s' m = icache s m"
    and "ino = Some n \<Longrightarrow> n = sbi_id s"
    and "ino = Some n \<Longrightarrow> owner_ok k \<Longrightarrow> low32 (sbi_id s) \<noteq> 0 \<Longrightarrow> tree_start s' \<noteq> 0"
    using all by blast+
qed

text \<open>
  An inode whose mutex is held: the code neither changes it nor takes it out of the cache.
\<close>

definition frozen :: "vfs \<Rightarrow> vfs \<Rightarrow> u64 \<Rightarrow> bool" where
  "frozen s s' m \<longleftrightarrow> (\<forall>i. icache s m = Some i \<longrightarrow> i_lock i \<longrightarrow> icache s' m = Some i)"

lemma frozen_refl [simp]: "frozen s s m"
  by (simp add: frozen_def)

lemma frozen_trans: "frozen s t m \<Longrightarrow> frozen t u m \<Longrightarrow> frozen s u m"
  by (simp add: frozen_def)

lemma frozen_same: "icache s' m = icache s m \<Longrightarrow> frozen s s' m"
  by (simp add: frozen_def)

lemma add_child_to_retains:
  assumes "add_child_to fuel s parent child = Done (res, s')"
  shows "retains s s'" and "frozen s s' m"
    and "icache s parent = Some dir \<Longrightarrow> \<not> i_lock dir"
proof -
  obtain d i where di: "icache s parent = Some d" "icache s child = Some i"
    using assms by (auto simp: add_child_to_def get_inode_def split: option.splits)
  then obtain d' u where "spfs_add_child fuel s d (i_ino i) = Done (res, d', u)" "s' = put_inode u parent d'"
    using assms by (auto simp: add_child_to_def get_inode_def bnd_Done_iff)
  note d = di(1) this
  note e = add_child_evolves [OF d(2)]
  show "retains s s'" using evolves_retains [OF e] d(3) by simp
  have lock: "\<not> i_lock d" using d(2) by (auto simp: spfs_add_child_def mutex_lock_def)
  then show "icache s parent = Some dir \<Longrightarrow> \<not> i_lock dir" using d(1) by simp
  show "frozen s s' m" using lock d evolves_icache [OF e] by (auto simp: frozen_def put_inode_def)
qed

lemma create_retains:
  assumes "spfs_create k fuel env s parent name mode = Done (res, ino, s')"
  shows "retains s s'" and "m \<noteq> sbi_id s \<Longrightarrow> frozen s s' m"
    and "ino \<noteq> None \<Longrightarrow> owner_ok k \<Longrightarrow> low32 (sbi_id s) \<noteq> 0 \<Longrightarrow> tree_start s' \<noteq> 0"
proof -
  obtain r n t where g: "spfs_generic_create k fuel env s parent name mode = Done (r, n, t)"
    using assms by (auto simp: spfs_create_def bnd_Done_iff bug_on_Done_iff)
  note gen = generic_create_retains [OF g]
  have all: "retains s s' \<and> (m \<noteq> sbi_id s \<longrightarrow> frozen s s' m) \<and>
      (ino \<noteq> None \<longrightarrow> owner_ok k \<longrightarrow> low32 (sbi_id s) \<noteq> 0 \<longrightarrow> tree_start s' \<noteq> 0)"
  proof (cases n)
    case None
    then show ?thesis using assms g gen(1,2) by (auto simp: spfs_create_def bug_on_Done_iff frozen_same)
  next
    case (Some q)
    then obtain r2 where a: "add_child_to fuel t parent q = Done (r2, s')" "ino = Some q"
      using assms g by (auto simp: spfs_create_def bnd_Done_iff bug_on_Done_iff)
    note add = add_child_to_retains [OF a(1)]
    show ?thesis
      using retains_trans [OF gen(1) add(1)] frozen_trans [OF frozen_same [OF gen(2)] add(2)] gen(4) Some
        retains_root [OF add(1)] by blast
  qed
  show "retains s s'" and "m \<noteq> sbi_id s \<Longrightarrow> frozen s s' m"
    and "ino \<noteq> None \<Longrightarrow> owner_ok k \<Longrightarrow> low32 (sbi_id s) \<noteq> 0 \<Longrightarrow> tree_start s' \<noteq> 0"
    using all by blast+
qed

lemma mkdir_retains:
  assumes "spfs_mkdir k fuel env s parent name mode = Done (res, ino, s')"
  shows "retains s s'" and "m \<noteq> sbi_id s \<Longrightarrow> frozen s s' m"
    and "ino \<noteq> None \<Longrightarrow> owner_ok k \<Longrightarrow> low32 (sbi_id s) \<noteq> 0 \<Longrightarrow> tree_start s' \<noteq> 0"
proof -
  obtain r n t where g: "spfs_generic_create k fuel env s parent name mode = Done (r, n, t)"
    using assms by (auto simp: spfs_mkdir_def bnd_Done_iff bug_on_Done_iff)
  note gen = generic_create_retains [OF g]
  have all: "retains s s' \<and> (m \<noteq> sbi_id s \<longrightarrow> frozen s s' m) \<and>
      (ino \<noteq> None \<longrightarrow> owner_ok k \<longrightarrow> low32 (sbi_id s) \<noteq> 0 \<longrightarrow> tree_start s' \<noteq> 0)"
  proof (cases n)
    case None
    then show ?thesis using assms g gen(1,2) by (auto simp: spfs_mkdir_def bug_on_Done_iff frozen_same)
  next
    case (Some q)
    then obtain r2 dir where d: "icache t parent = Some dir" "ino = Some q"
      and a: "add_child_to fuel (put_inode t parent (dir\<lparr>i_nlink := i_nlink dir + 1\<rparr>)) parent q = Done (r2, s')"
      using assms g by (auto simp: spfs_mkdir_def get_inode_def bnd_Done_iff bug_on_Done_iff Let_def
          split: option.splits)
    note add = add_child_to_retains [OF a]
    have "\<not> i_lock dir" using add(3) by (simp add: put_inode_def)
    then have "frozen t (put_inode t parent (dir\<lparr>i_nlink := i_nlink dir + 1\<rparr>)) m"
      using d(1) by (auto simp: frozen_def put_inode_def)
    then have "frozen t s' m" using add(2) by (rule frozen_trans)
    moreover have "retains t s'" using add(1) by simp
    ultimately show ?thesis
      using retains_trans [OF gen(1)] frozen_trans [OF frozen_same [OF gen(2)]] gen(4) Some retains_root
      by blast
  qed
  show "retains s s'" and "m \<noteq> sbi_id s \<Longrightarrow> frozen s s' m"
    and "ino \<noteq> None \<Longrightarrow> owner_ok k \<Longrightarrow> low32 (sbi_id s) \<noteq> 0 \<Longrightarrow> tree_start s' \<noteq> 0"
    using all by blast+
qed

section \<open>Reading and writing\<close>

lemma read_file_retains:
  assumes "read_file fuel bfuel s n in_len ppos = Done (res, out, ppos', s')"
  shows "retains s s'" and "frozen s s' m"
proof -
  obtain i i' u where r: "icache s n = Some i" "s' = put_inode u n i'"
    "spfs_read fuel bfuel s i in_len ppos = Done (res, out, i', ppos', u)"
    using assms by (auto simp: read_file_def get_inode_def bnd_Done_iff split: option.splits)
  note e = read_evolves [OF r(3)]
  show "retains s s'" using evolves_retains [OF e] r(2) by simp
  have "i_lock i \<Longrightarrow> i' = i"
    using r(3) by (auto simp: spfs_read_def mutex_lock_def split: if_splits option.splits)
  then show "frozen s s' m" using r evolves_icache [OF e] by (auto simp: frozen_def put_inode_def)
qed

lemma write_file_retains:
  assumes "write_file fuel tfuel env intr s n src ppos = Done (res, ppos', s')"
  shows "retains s s'" and "frozen s s' m"
proof -
  obtain i i' u where r: "icache s n = Some i" "s' = put_inode u n i'"
    "spfs_write fuel tfuel env intr s i src ppos = Done (res, i', ppos', u)"
    using assms by (auto simp: write_file_def get_inode_def bnd_Done_iff split: option.splits)
  note e = write_evolves [OF r(3)]
  show "retains s s'" using evolves_retains [OF e] r(2) by simp
  have "i_lock i \<Longrightarrow> i' = i"
    using r(3) by (auto simp: spfs_write_def mutex_lock_def split: if_splits option.splits)
  then show "frozen s s' m" using r evolves_icache [OF e] by (auto simp: frozen_def put_inode_def)
qed

section \<open>Looking up and listing\<close>

lemma inode_by_id_frozen:
  assumes "spfs_inode_by_id k fuel env s n = Done (p, s')" and "icache s m = Some i"
  shows "icache s' m = Some i"
proof (cases "icache s n")
  case (Some j)
  then show ?thesis using assms by (simp add: spfs_inode_by_id_cached)
next
  case None
  then have "m \<noteq> n" using assms(2) by auto
  show ?thesis
  proof (cases "k_fresh k n")
    case None
    then show ?thesis using assms \<open>icache s n = None\<close> by (simp add: spfs_inode_by_id_def iget_locked_def)
  next
    case (Some f)
    let ?s = "s\<lparr>icache := (icache s)(n \<mapsto> f\<lparr>i_ino := n, i_kernel := True\<rparr>)\<rparr>"
    obtain res out s2 where l: "spfs_btree_lookup fuel env ?s n (f\<lparr>i_ino := n, i_kernel := True\<rparr>) = Done (res, out, s2)"
      using assms \<open>icache s n = None\<close> Some
      by (auto simp: spfs_inode_by_id_def iget_locked_def get_inode_def bnd_Done_iff)
    have s2: "s2 = ?s" by (rule spfs_btree_lookup_state [OF l])
    show ?thesis
      using assms \<open>icache s n = None\<close> Some \<open>m \<noteq> n\<close> l s2
      by (auto simp: spfs_inode_by_id_def iget_locked_def get_inode_def bnd_Done_iff iget_failed_def put_inode_def
          split: if_splits)
  qed
qed

text \<open>What is in the cache stays as it is while the children of a directory are visited.\<close>

definition cached_in :: "vfs \<Rightarrow> vfs \<Rightarrow> bool" where
  "cached_in s s' \<longleftrightarrow> (\<forall>m i. icache s m = Some i \<longrightarrow> icache s' m = Some i)"

lemma cached_in_refl [simp]: "cached_in s s"
  by (simp add: cached_in_def)

lemma cached_in_trans [trans]: "cached_in s t \<Longrightarrow> cached_in t u \<Longrightarrow> cached_in s u"
  by (simp add: cached_in_def)

lemma cached_in_brelse [simp]:
  "cached_in s (fs_brelse t n) = cached_in s t" "cached_in (fs_brelse s n) t = cached_in s t"
  by (simp_all add: cached_in_def fs_brelse_def)

interpretation cache_walk: walk_relation "\<lambda>_ _. True" cached_in
  by unfold_locales (auto intro: cached_in_trans simp: fs_defs cached_in_def dest: inode_by_id_frozen)

lemma for_all_children_frozen:
  assumes "spfs_for_all_children k tf fuel env s parent c f = Done (res, c', s')"
  shows "frozen s s' m"
proof -
  obtain dir where dir: "icache s parent = Some dir"
    using assms by (auto simp: spfs_for_all_children_def get_inode_def split: option.splits)
  show ?thesis
  proof (cases "S_ISDIR (i_mode dir)")
    case False
    then show ?thesis using assms dir by (simp add: spfs_for_all_children_def get_inode_def)
  next
    case True
    have lock: "\<not> i_lock dir"
      using assms dir True by (auto simp: spfs_for_all_children_def get_inode_def mutex_lock_def)
    obtain r c2 u where l: "for_all_loop k tf env fuel f c (put_inode s parent (dir\<lparr>i_lock := True\<rparr>))
        (in_start dir) = Done (r, c2, u)"
      using assms dir True lock
      by (auto simp: spfs_for_all_children_def get_inode_def mutex_lock_def bnd_Done_iff)
    have "cached_in (put_inode s parent (dir\<lparr>i_lock := True\<rparr>)) u" by (rule cache_walk.all_blocks [OF TrueI l])
    then show ?thesis
      using assms dir True lock l
      by (auto simp: spfs_for_all_children_def get_inode_def mutex_lock_def bnd_Done_iff
          frozen_def put_inode_def cached_in_def split: option.splits)
  qed
qed

lemma for_all_children_retains:
  "spfs_for_all_children k tf fuel env s parent c f = Done (res, c', s') \<Longrightarrow> retains s s' \<and> frozen s s' m"
  by (auto dest: for_all_children_frozen [where m = m] spfs_for_all_children_disk same_disk_retains)

lemma lookup_retains:
  "spfs_lookup k tf fuel env s parent name = Done (result, s') \<Longrightarrow> retains s s' \<and> frozen s s' m"
  by (auto simp: spfs_lookup_def spfs_inode_by_name_def bnd_Done_iff dest!: for_all_children_retains [where m = m])

lemma iterate_retains:
  assumes "spfs_iterate emit emit_dots k tf fuel env s parent pos buf = Done (res, pos', buf', s')"
  shows "retains s s' \<and> frozen s s' m"
proof -
  obtain ok p b where e: "emit_dots pos buf = (ok, p, b)" by (cases "emit_dots pos buf")
  then show ?thesis
    using assms by (auto simp: spfs_iterate_def bnd_Done_iff split: if_splits
        dest!: for_all_children_retains [where m = m])
qed

lemma write_inode_retains:
  assumes "spfs_write_inode fuel env s n = Done (res, s')"
  shows "retains s s' \<and> frozen s s' m"
proof -
  obtain i c where "spfs_btree_modify fuel env s (i_ino i) i spfs_mod_inode_cb = Done (res, c, s')"
    using assms by (auto simp: spfs_write_inode_def bnd_Done_iff)
  then have "evolves s s'" by (rule spfs_btree_modify_evolves)
  then show ?thesis using evolves_retains evolves_icache by (auto intro: frozen_same)
qed

section \<open>Every call\<close>

lemma step_retains: "fs_step s e s' \<Longrightarrow> retains s s'"
  by (induction rule: fs_step.induct)
    (auto dest: create_retains(1) mkdir_retains(1) read_file_retains(1) write_file_retains(1)
      lookup_retains iterate_retains write_inode_retains)

text \<open>The number \<open>n\<close> is handed out for a new inode, or its inode leaves the cache.\<close>

fun replaces :: "u64 \<Rightarrow> fs_event \<Rightarrow> bool" where
  "replaces n (Created m ok) = (m = n)"
| "replaces n (Evicted m) = (m = n)"
| "replaces n _ = False"

lemma step_frozen: "fs_step s e s' \<Longrightarrow> \<not> replaces n e \<Longrightarrow> frozen s s' n"
  by (induction rule: fs_step.induct)
    (auto dest: create_retains(2) [where m = n] mkdir_retains(2) [where m = n] read_file_retains(2) [where m = n]
      write_file_retains(2) [where m = n] lookup_retains [where m = n] iterate_retains [where m = n]
      write_inode_retains [where m = n] simp: frozen_def evict_def)

fun created :: "fs_event \<Rightarrow> bool" where
  "created (Created n ok) = (ok \<and> low32 n \<noteq> 0)"
| "created _ = False"

lemma step_created_root: "fs_step s e s' \<Longrightarrow> created e \<Longrightarrow> tree_start s' \<noteq> 0"
  by (induction rule: fs_step.induct) (auto simp: kernel_ok_def dest: create_retains(3) mkdir_retains(3))

lemma step_root_no_inode:
  assumes "fs_step s e s'" and "tree_start s \<noteq> 0"
    and "\<forall>n b. d_blocks (s_dev s) n = Some b \<longrightarrow> length b < 2 ^ 32"
  shows "e \<noteq> Created m True"
  using assms
proof (induction rule: fs_step.induct)
  case (creating k fuel env s parent name mode res ino s')
  obtain r n t where g: "spfs_generic_create k fuel env s parent name mode = Done (r, n, t)"
    using creating(2) by (auto simp: spfs_create_def bnd_Done_iff bug_on_Done_iff)
  have "r \<noteq> 0 \<and> n = None" using spfs_generic_create_root_fails [OF creating(3) _ g] creating(4) by blast
  then show ?case using creating(2) g by (auto simp: spfs_create_def bug_on_Done_iff)
next
  case (making_dir k fuel env s parent name mode res ino s')
  obtain r n t where g: "spfs_generic_create k fuel env s parent name mode = Done (r, n, t)"
    using making_dir(2) by (auto simp: spfs_mkdir_def bnd_Done_iff bug_on_Done_iff)
  have "r \<noteq> 0 \<and> n = None" using spfs_generic_create_root_fails [OF making_dir(3) _ g] making_dir(4) by blast
  then show ?case using making_dir(2) g by (auto simp: spfs_mkdir_def bug_on_Done_iff)
qed auto

lemma step_root_not_created:
  assumes "fs_step s e s'" and "tree_start s \<noteq> 0"
    and "\<forall>n b. d_blocks (s_dev s) n = Some b \<longrightarrow> length b < 2 ^ 32"
  shows "\<not> created e"
  using step_root_no_inode [OF assms] by (cases e) auto

interpretation growth: step_relation "\<lambda>_. True" retains
  by unfold_locales (auto intro: retains_trans step_retains)

interpretation locked: step_relation "\<lambda>e. \<not> replaces n e" "\<lambda>s s'. frozen s s' n" for n
  by unfold_locales (auto intro: frozen_trans step_frozen)

lemma list_all_True [simp]: "list_all (\<lambda>_. True) es"
  by (simp add: list_all_iff)

lemma retains_small:
  assumes "retains s s'" and "\<forall>n b. d_blocks (s_dev s) n = Some b \<longrightarrow> length b < m"
  shows "\<forall>n b. d_blocks (s_dev s') n = Some b \<longrightarrow> length b < m"
proof (intro allI impI)
  fix n b
  assume b: "d_blocks (s_dev s') n = Some b"
  have "map_option length (d_blocks (s_dev s') n) = map_option length (d_blocks (s_dev s) n)"
    using assms(1) unfolding retains_def by blast
  then obtain c where "d_blocks (s_dev s) n = Some c" "length b = length c"
    using b by (cases "d_blocks (s_dev s) n") auto
  then show "length b < m" using assms(2) by metis
qed

lemma run_root_creates_nothing:
  "fs_run s es s' \<Longrightarrow> tree_start s \<noteq> 0 \<Longrightarrow>
    \<forall>n b. d_blocks (s_dev s) n = Some b \<longrightarrow> length b < 2 ^ 32 \<Longrightarrow> filter created es = []"
proof (induction rule: fs_run.induct)
  case (step_run s e t es s')
  have "retains s t" by (rule step_retains [OF step_run(1)])
  then have "filter created es = []"
    using step_run.IH retains_root retains_small step_run.prems by blast
  then show ?case using step_root_not_created [OF step_run(1)] step_run.prems by simp
qed simp

lemma run_root_creates_none:
  "fs_run s es s' \<Longrightarrow> tree_start s \<noteq> 0 \<Longrightarrow>
    \<forall>n b. d_blocks (s_dev s) n = Some b \<longrightarrow> length b < 2 ^ 32 \<Longrightarrow> Created m True \<notin> set es"
proof (induction rule: fs_run.induct)
  case (step_run s e t es s')
  have "retains s t" by (rule step_retains [OF step_run(1)])
  then have "Created m True \<notin> set es"
    using step_run.IH retains_root retains_small step_run.prems by blast
  then show ?case using step_root_no_inode [OF step_run(1)] step_run.prems by auto
qed simp

lemma run_creates_at_most_once:
  "fs_run s es s' \<Longrightarrow> \<forall>n b. d_blocks (s_dev s) n = Some b \<longrightarrow> length b < 2 ^ 32 \<Longrightarrow>
    length (filter created es) \<le> 1"
proof (induction rule: fs_run.induct)
  case (step_run s e t es s')
  have small: "\<forall>n b. d_blocks (s_dev t) n = Some b \<longrightarrow> length b < 2 ^ 32"
    using step_retains [OF step_run(1)] step_run.prems by (rule retains_small)
  show ?case
  proof (cases "created e")
    case True
    then have "filter created es = []"
      using run_root_creates_nothing [OF step_run(2) _ small] step_created_root [OF step_run(1)] by blast
    then show ?thesis using True by simp
  next
    case False
    then show ?thesis using step_run.IH small by simp
  qed
qed simp

end
