(* ===== verification/Fs_Runs.thy ===== *)
theory Fs_Runs
  imports Fs_Machine
begin

text \<open>
  What holds of a mounted file system however long it runs and whatever is called on it, from
  mkfs and the first file on.
\<close>

text \<open>
  C6: No sequence of calls changes the size of a buffer, breaks the free list, gives a sector
  back to it, or takes the root of the tree away: space that was allocated is never free again.
\<close>

theorem run_invariant:
  assumes "fs_run s es s'" and "free_ok (sbi_free_list s)"
  shows "map_option length (d_blocks (s_dev s') n) = map_option length (d_blocks (s_dev s) n) \<and>
    free_ok (sbi_free_list s') \<and>
    free_sectors (sbi_free_list s') \<subseteq> free_sectors (sbi_free_list s) \<and>
    (tree_start s' = 0 \<longrightarrow> tree_start s = 0)"
  using growth.run [OF assms(1) list_all_True] assms(2) unfolding retains_def by blast

lemma sample_kernel_ok: "kernel_ok sample_kernel"
  by (simp add: kernel_ok_def slab_ok_def sample_kernel_simps dir_sample_inode_def SPOOKY_FS_NAME_MAX_def)

lemma create_cached:
  assumes "spfs_create k fuel env s parent name mode = Done (res, Some n, s')"
  shows "icache s' n \<noteq> None"
proof -
  obtain r t where "spfs_generic_create k fuel env s parent name mode = Done (r, Some n, t)"
    and a: "add_child_to fuel t parent n = Done (res, s')"
    using assms by (auto simp: spfs_create_def bnd_Done_iff bug_on_Done_iff split: option.splits)
  obtain d i where di: "icache t parent = Some d" "icache t n = Some i"
    using a by (auto simp: add_child_to_def get_inode_def split: option.splits)
  then obtain d' u where "spfs_add_child fuel t d (i_ino i) = Done (res, d', u)" "s' = put_inode u parent d'"
    using a by (auto simp: add_child_to_def get_inode_def bnd_Done_iff)
  then show ?thesis using di evolves_icache [OF add_child_evolves] by (auto simp: put_inode_def)
qed

lemma sample_run:
  obtains setbs s s' where "spfs_fill_super_block setbs True True (\<lambda>_. True) sample_kernel 1 sample_env (s_dev empty_fs) =
      Done (0, Some s)"
    and "icache s' 2 \<noteq> None" and "fs_run s [Created 2 True, LookedUp 1 (Some 2)] s'" and "free_ok (sbi_free_list s)"
    and "\<forall>n b. d_blocks (s_dev s) n = Some b \<longrightarrow> length b < 2 ^ 32"
proof -
  obtain setbs s b0 where m: "spfs_fill_super_block setbs True True (\<lambda>_. True) sample_kernel 1 sample_env (s_dev empty_fs) =
      Done (0, Some s)" and s: "icache s = [1 \<mapsto> fresh_root sample_kernel (dir_sample_inode 0)]" "sbi_id s = 2"
    "tree_start s = 0" "tree_blocks s = 1" "zeroed_space 2048 3 s"
    "d_blocks (s_dev s) 0 = Some b0" "length b0 = 2048"
    "\<forall>n b. d_blocks (s_dev s) n = Some b \<longrightarrow> length b = 2048"
    by (rule sample_mount)
  obtain s' where c: "spfs_create sample_kernel 0 sample_env s 1 [65] 0x81A4 = Done (0, Some (sbi_id s), s')"
    and l: "\<forall>other. spfs_lookup sample_kernel 0 1 sample_env s' 1 other =
      Done (if other = [65] then Some (sbi_id s) else None, s')"
    using first_create_lookup [where ?b0.0 = b0 and bsz = 2048 and i = "dir_sample_inode 0"
        and dir = "fresh_root sample_kernel (dir_sample_inode 0)" and k = sample_kernel and s = s and
        parent = 1 and name = "[65]" and mode = "0x81A4" and fuel = 0 and env = sample_env and tf = 0]
    by (auto simp: s sample_kernel_simps low32_def S_ISREG_def)
  have "fs_step s (Created 2 True) s'"
    using fs_step.creating [OF sample_kernel_ok c] by (simp add: s(2))
  moreover have "fs_step s' (LookedUp 1 (Some 2)) s'"
    using fs_step.looking [OF sample_kernel_ok l [rule_format, of "[65]"]] by (simp add: s(2))
  ultimately have "fs_run s [Created 2 True, LookedUp 1 (Some 2)] s'" by (auto simp: fs_run_simps)
  moreover have "icache s' 2 \<noteq> None" using create_cached [OF c] by (simp add: s(2))
  moreover have "free_ok (sbi_free_list s)" using s(5) by (simp add: zeroed_space_def)
  moreover have "\<forall>n b. d_blocks (s_dev s) n = Some b \<longrightarrow> length b < 2 ^ 32" using s(8) by auto
  ultimately show thesis using that [OF m] by blast
qed

theorem run_invariant_witness:
  "\<exists>s s'. fs_run s [Created 2 True, LookedUp 1 (Some 2)] s' \<and> free_ok (sbi_free_list s')"
  by (rule sample_run) (use run_invariant in blast)

text \<open>
  C3: At most one file or directory is ever created in a mounted file system, whatever is called
  and in whatever order: once an insertion has given the tree a root, every later one fails.
  (A number whose low 32 bits are 0 does not count, which is the number after \<open>2 ^ 32 - 1\<close>.)
\<close>

theorem run_creates_one_file:
  assumes "fs_run s es s'" and "\<forall>n b. d_blocks (s_dev s) n = Some b \<longrightarrow> length b < 2 ^ 32"
  shows "length (filter created es) \<le> 1"
  using assms by (rule run_creates_at_most_once)

theorem run_creates_one_file_witness:
  "\<exists>s s'. fs_run s [Created 2 True, LookedUp 1 (Some 2)] s' \<and>
    length (filter created [Created 2 True, LookedUp 1 (Some 2)]) \<le> 1"
  by (rule sample_run) (use run_creates_one_file in blast)



text \<open>
  C15: After a failed read of some bytes of a cached regular file every later read of it that asks for
  some bytes and every later write of some bytes that is not interrupted waits for the mutex that the
  failed read left locked and does not return (all with a position, as the VFS passes one). This
  holds after any sequence of calls, as long as the inode of the file stays in the cache and its
  number is not handed out again.
\<close>

theorem failed_read_blocks_file:
  assumes "read_file fuel bfuel s n len (Some p) = Done (res, out, p', t)" and "res < 0"
    and "icache s n = Some inode" and "S_ISREG (i_mode inode)" and "len \<noteq> 0"
    and "fs_run t es u" and "list_all (\<lambda>e. \<not> replaces n e) es"
    and "len' \<noteq> 0" and "src \<noteq> []"
  shows "read_file fuel' bfuel' u n len' (Some q) = Crash SelfDeadlock \<and>
    write_file fuel' tfuel env False u n src (Some q) = Crash SelfDeadlock"
proof -
  obtain i' p2 v where r: "spfs_read fuel bfuel s inode len (Some p) = Done (res, out, i', p2, v)"
    and t: "t = put_inode v n i'"
    using assms(1,3) by (auto simp: read_file_def get_inode_def bnd_Done_iff)
  have free: "\<not> i_lock inode"
    using r assms(4,5) by (auto simp: spfs_read_def mutex_lock_def)
  have "i' = inode\<lparr>i_lock := True\<rparr>" by (rule spfs_read_failed(1) [OF r assms(2,4) free assms(5)])
  then have "icache u n = Some (inode\<lparr>i_lock := True\<rparr>)"
    using locked.run [OF assms(6,7)] t by (simp add: frozen_def put_inode_def)
  then show ?thesis
    using assms(4,8,9)
    by (simp add: read_file_def write_file_def get_inode_def spfs_read_def spfs_write_def mutex_lock_def)
qed

text \<open>A file whose first extent cannot be read, in the cache under the number 7.\<close>

definition unreadable_vfs :: vfs where
  "unreadable_vfs = spfs.extend empty_extent \<lparr>icache = [7 \<mapsto> file_sample\<lparr>in_start := 5\<rparr>]\<rparr>"

theorem failed_read_blocks_file_witness:
  "\<exists>t u. read_file 1 1 unreadable_vfs 7 4 (Some 0) = Done (- EIO, [], Some 0, t) \<and>
    fs_run t [ReadFile 7 0] u \<and> read_file 1 1 u 7 4 (Some 0) = Crash SelfDeadlock \<and>
    write_file 1 1 sample_env False u 7 [72] (Some 0) = Crash SelfDeadlock"
proof -
  have c: "icache unreadable_vfs 7 = Some (file_sample\<lparr>in_start := 5\<rparr>)"
    by (simp add: unreadable_vfs_def spfs.extend_def)
  have none: "d_blocks (s_dev unreadable_vfs) 5 = None"
    by (simp add: unreadable_vfs_def spfs.extend_def empty_extent_def)
  have reg: "S_ISREG (i_mode file_sample)" by (simp add: S_ISREG_def file_sample_def)
  define t where "t = put_inode unreadable_vfs 7 (file_sample\<lparr>in_start := 5, i_lock := True\<rparr>)"
  have r: "read_file 1 1 unreadable_vfs 7 4 (Some 0) = Done (- EIO, [], Some 0, t)"
    using reg by (simp add: read_file_def get_inode_def c spfs_read_def mutex_lock_def spfs_read_file_extent_def
        fs_bread_None [OF none] t_def file_sample_def EIO_def)
  have "read_file 0 0 t 7 0 (Some 0) = Done (0, [], Some 0, put_inode t 7 (file_sample\<lparr>in_start := 5, i_lock := True\<rparr>))"
    by (simp add: read_file_def get_inode_def t_def put_inode_def spfs_read_def)
  from fs_step.reading [OF this]
  obtain u where run: "fs_run t [ReadFile 7 0] u" by (auto simp: fs_run_simps)
  have "read_file 1 1 u 7 4 (Some 0) = Crash SelfDeadlock \<and>
      write_file 1 1 sample_env False u 7 [72] (Some 0) = Crash SelfDeadlock"
    by (rule failed_read_blocks_file [OF r _ c _ _ run]) (simp_all add: EIO_def reg)
  with r run show ?thesis by blast
qed

end
