(* ===== verification/Fs_Types.thy ===== *)
theory Fs_Types
  imports Fs_Runs
begin

text \<open>
  What the inode cache holds: every inode in it is an object of \<open>struct spfs_inode\<close>, its name an
  array of 256 bytes, and is a regular file or a directory, from mounting on and through every
  sequence of calls.
\<close>

section \<open>The type of a cached inode\<close>

definition inode_ok :: "spfs_inode \<Rightarrow> bool" where
  "inode_ok i \<longleftrightarrow> length (in_name i) = SPOOKY_FS_NAME_MAX \<and> (S_ISREG (i_mode i) \<or> S_ISDIR (i_mode i))"

definition cache_ok :: "vfs \<Rightarrow> bool" where
  "cache_ok s \<longleftrightarrow> (\<forall>n i. icache s n = Some i \<longrightarrow> inode_ok i)"

lemma cache_okD: "cache_ok s \<Longrightarrow> icache s n = Some i \<Longrightarrow> inode_ok i"
  by (simp add: cache_ok_def)

lemma cache_ok_put: "cache_ok s \<Longrightarrow> inode_ok i \<Longrightarrow> cache_ok (put_inode s n i)"
  by (simp add: cache_ok_def put_inode_def)

lemma cache_ok_simps [simp]:
  "cache_ok (iget_failed s n) = (\<forall>m i. m \<noteq> n \<longrightarrow> icache s m = Some i \<longrightarrow> inode_ok i)"
  "cache_ok (s\<lparr>sbi_id := x\<rparr>) = cache_ok s" "cache_ok (s\<lparr>sbi_root_id := x\<rparr>) = cache_ok s" "cache_ok (fs_brelse s n) = cache_ok s"
  "cache_ok (mounted d)"
  by (auto simp: cache_ok_def iget_failed_def fs_brelse_def mounted_def)

lemma cache_ok_evolves: "evolves s s' \<Longrightarrow> cache_ok s \<Longrightarrow> cache_ok s'"
  using evolves_icache by (simp add: cache_ok_def)

text \<open>Changing other fields keeps the type.\<close>

lemma inode_ok_cong: "in_name j = in_name i \<Longrightarrow> i_mode j = i_mode i \<Longrightarrow> inode_ok j = inode_ok i"
  by (simp add: inode_ok_def)

section \<open>Fetching and making inodes\<close>

lemma spfs_inode_parse_name: "spfs_inode_parse b out = Done (Inr i) \<Longrightarrow> length (in_name i) = SPOOKY_FS_NAME_MAX"
  by (auto simp: spfs_inode_parse_def read_or_Inr spfs_sb_read_str_def bnd_Done_iff
      spfs_sb_remaining_def bug_on_Done_iff load_def split: if_splits)

lemma spfs_inode_parse_code: "spfs_inode_parse b out = Done (Inl e) \<Longrightarrow> e \<noteq> 0"
  by (auto simp: spfs_inode_parse_def read_or_Inl errno_defs split: if_splits)

lemma btree_lookup_name:
  assumes "spfs_btree_lookup fuel env s ino out = Done (0, i, s')"
  shows "length (in_name i) = SPOOKY_FS_NAME_MAX"
proof -
  obtain d where d: "btree_modify_loop fuel env (s_dev s) (tree_start s) ino out spfs_btree_lookup_cb = Done (0, i, d)"
    using assms by (auto simp: spfs_btree_lookup_def spfs_btree_modify_def bnd_Done_iff)
  then obtain r where r: "btree_locate fuel (d_blocks (s_dev s)) (tree_start s) ino = Done r"
    by (auto simp: btree_modify_loop_locate bnd_Done_iff)
  then obtain o' where r: "r = Inr o'"
    and v: "btree_visit_entry env (s_dev s) o' out spfs_btree_lookup_cb = Done (0, i, d)"
    using d btree_locate_code by (cases r) (auto simp: btree_modify_loop_locate)
  then obtain b q where b: "o' \<noteq> 0" "d_blocks (s_dev s) o' = Some b" "spfs_inode_parse b (e_cur env) = Done q"
    by (auto simp: btree_visit_entry_def bnd_Done_iff sb_bread_Some split: if_splits option.splits)
  then show ?thesis
    using v by (cases q) (auto simp: btree_visit_entry_def sb_bread_readable spfs_btree_lookup_cb_def
        dest: spfs_inode_parse_code spfs_inode_parse_name)
qed

lemma spfs_setup_inode_fp_ok:
  "spfs_setup_inode_fp i = Done j \<Longrightarrow> inode_ok j \<longleftrightarrow> length (in_name i) = SPOOKY_FS_NAME_MAX"
  by (auto simp: spfs_setup_inode_fp_def inode_ok_def split: if_splits)

lemma owner_ok_name: "owner_ok k \<Longrightarrow> in_name (k_owner k dir i mode) = in_name i"
proof -
  assume "owner_ok k"
  then obtain uid gid m where "k_owner k dir i mode = i\<lparr>i_uid := uid, i_gid := gid, i_mode := m\<rparr>"
    unfolding owner_ok_def by blast
  then show ?thesis by simp
qed

text \<open>An inode that was not in the cache comes from the slab.\<close>

lemma iget_locked_new:
  assumes "iget_locked k s n = (Some True, t)" and "slab_ok k"
  shows "\<exists>i. icache t = (icache s)(n \<mapsto> i) \<and> length (in_name i) = SPOOKY_FS_NAME_MAX"
  using assms by (auto simp: iget_locked_def slab_ok_def split: option.splits)

lemma inode_by_id_ok:
  assumes k: "slab_ok k" and run: "spfs_inode_by_id k fuel env s n = Done (p, s')" and ok: "cache_ok s"
  shows "cache_ok s'"
proof -
  obtain r t where g: "iget_locked k s n = (r, t)" by fastforce
  show ?thesis
  proof (cases "r = Some True")
    case False
    then have "t = s" "s' = t"
      using g run by (auto simp: iget_locked_def spfs_inode_by_id_def split: option.splits if_splits)
    then show ?thesis using ok by simp
  next
    case True
    obtain i where i: "icache t = (icache s)(n \<mapsto> i)" "length (in_name i) = SPOOKY_FS_NAME_MAX"
      using iget_locked_new [OF g [unfolded True] k] by blast
    obtain res out u where l: "spfs_btree_lookup fuel env t n i = Done (res, out, u)"
      using run g True i by (auto simp: spfs_inode_by_id_def get_inode_def bnd_Done_iff)
    have u: "u = t" by (rule spfs_btree_lookup_state [OF l])
    show ?thesis
    proof (cases "res = 0")
      case False
      then show ?thesis
        using run g True i l u ok by (auto simp: spfs_inode_by_id_def get_inode_def cache_ok_def iget_failed_def split: if_splits)
    next
      case res: True
      then obtain j where j: "spfs_setup_inode_fp out = Done j" "s' = put_inode t n j"
        using run g True i l u by (auto simp: spfs_inode_by_id_def get_inode_def bnd_Done_iff)
      have "inode_ok j" using spfs_setup_inode_fp_ok [OF j(1)] btree_lookup_name l res by blast
      then show ?thesis using ok i(1) by (auto simp: cache_ok_def j(2) put_inode_def)
    qed
  qed
qed

interpretation typed_walk: walk_relation "\<lambda>k _. slab_ok k" "\<lambda>s s'. cache_ok s \<longrightarrow> cache_ok s'"
proof unfold_locales
  show "cache_ok s \<longrightarrow> cache_ok t" if "fs_bread s n = Some (b, t)" for s n b t
    using that by (auto simp: fs_bread_def cache_ok_def)
qed (auto intro: inode_by_id_ok)

lemma new_inode_ok:
  assumes k: "kernel_ok k" and run: "spfs_new_inode k s parent mode = Done (p, s')" and ok: "cache_ok s"
  shows "cache_ok s'"
proof -
  obtain r t where g: "iget_locked k (s\<lparr>sbi_id := sbi_id s + 1\<rparr>) (sbi_id s) = (r, t)" by fastforce
  show ?thesis
  proof (cases "r = Some True")
    case False
    then have "icache t = icache s" "s' = t \<or> s' = iget_failed t (sbi_id s)"
      using g run by (auto simp: iget_locked_def spfs_new_inode_def Let_def split: option.splits if_splits)
    then show ?thesis using ok by (auto simp: cache_ok_def iget_failed_def split: if_splits)
  next
    case True
    obtain i where i: "icache t = (icache s)(sbi_id s \<mapsto> i)" "length (in_name i) = SPOOKY_FS_NAME_MAX"
      using iget_locked_new [OF g [unfolded True]] k by (auto simp: kernel_ok_def)
    have "owner_ok k" using k by (simp add: kernel_ok_def)
    then obtain j where "inode_ok j" "s' = put_inode t (sbi_id s) j"
      using run g True i
      by (auto simp: spfs_new_inode_def Let_def get_inode_def bnd_Done_iff owner_ok_name split: option.splits
          dest: spfs_setup_inode_fp_ok)
    then show ?thesis using ok i(1) by (auto simp: cache_ok_def put_inode_def)
  qed
qed


section \<open>Every call\<close>

lemma generic_create_ok:
  assumes k: "kernel_ok k" and run: "spfs_generic_create k fuel env s parent name mode = Done (res, ino, s')"
    and ok: "cache_ok s"
  shows "cache_ok s'"
proof (cases "SPOOKY_FS_NAME_MAX < length name")
  case True
  then show ?thesis using run ok by (simp add: spfs_generic_create_def)
next
  case False
  then obtain p t where p: "spfs_new_inode k s (Some parent) mode = Done (p, t)"
    using run by (auto simp: spfs_generic_create_def bnd_Done_iff)
  note t = new_inode_ok [OF k p ok]
  show ?thesis
  proof (cases p)
    case (Inode q)
    then obtain i where i: "icache t q = Some i"
      using run False p by (auto simp: spfs_generic_create_def get_inode_def split: option.splits)
    define j where "j = i\<lparr>in_name := name @ replicate (SPOOKY_FS_NAME_MAX - length name) 0\<rparr>"
    obtain r u where b: "spfs_btree_insert fuel env (put_inode t q j) j = Done (r, u)" "s' = u"
      using run False p Inode i
      by (auto simp: spfs_generic_create_def bnd_Done_iff get_inode_def Let_def j_def split: if_splits)
    have "inode_ok j" using cache_okD [OF t i] False by (simp add: inode_ok_def j_def)
    then show ?thesis
      using cache_ok_evolves [OF spfs_btree_insert_evolves [OF b(1)]] t b(2) by (simp add: cache_ok_put)
  qed (use run False p t in \<open>simp_all add: spfs_generic_create_def\<close>)
qed

lemma add_child_to_ok:
  assumes run: "add_child_to fuel s parent child = Done (res, s')" and ok: "cache_ok s"
  shows "cache_ok s'"
proof -
  obtain d i where d: "icache s parent = Some d" "icache s child = Some i"
    using run by (auto simp: add_child_to_def get_inode_def split: option.splits)
  then obtain d' u where "spfs_add_child fuel s d (i_ino i) = Done (res, d', u)" "s' = put_inode u parent d'"
    using run by (auto simp: add_child_to_def get_inode_def bnd_Done_iff)
  note d = d(1) this
  have "inode_ok d'" using cache_okD [OF ok d(1)] inode_ok_cong add_child_private [OF d(2)] by metis
  then show ?thesis using cache_ok_evolves [OF add_child_evolves [OF d(2)]] ok d(3) by (simp add: cache_ok_put)
qed

lemma create_ok:
  assumes k: "kernel_ok k" and run: "spfs_create k fuel env s parent name mode = Done (res, ino, s')"
    and ok: "cache_ok s"
  shows "cache_ok s'"
proof -
  obtain r n t where g: "spfs_generic_create k fuel env s parent name mode = Done (r, n, t)"
    using run by (auto simp: spfs_create_def bnd_Done_iff bug_on_Done_iff)
  note t = generic_create_ok [OF k g ok]
  show ?thesis
    using run g t by (cases n) (auto simp: spfs_create_def bnd_Done_iff bug_on_Done_iff dest: add_child_to_ok)
qed

lemma mkdir_ok:
  assumes k: "kernel_ok k" and run: "spfs_mkdir k fuel env s parent name mode = Done (res, ino, s')"
    and ok: "cache_ok s"
  shows "cache_ok s'"
proof -
  obtain r n t where g: "spfs_generic_create k fuel env s parent name mode = Done (r, n, t)"
    using run by (auto simp: spfs_mkdir_def bnd_Done_iff bug_on_Done_iff)
  note t = generic_create_ok [OF k g ok]
  show ?thesis
  proof (cases n)
    case None
    then show ?thesis using run g t by (auto simp: spfs_mkdir_def bug_on_Done_iff)
  next
    case (Some q)
    then obtain r2 dir where d: "icache t parent = Some dir"
      and a: "add_child_to fuel (put_inode t parent (dir\<lparr>i_nlink := i_nlink dir + 1\<rparr>)) parent q = Done (r2, s')"
      using run g by (auto simp: spfs_mkdir_def get_inode_def bnd_Done_iff bug_on_Done_iff Let_def
          split: option.splits)
    have "inode_ok (dir\<lparr>i_nlink := i_nlink dir + 1\<rparr>)" using cache_okD [OF t d] by (simp add: inode_ok_def)
    then show ?thesis using add_child_to_ok [OF a] t by (simp add: cache_ok_put)
  qed
qed

lemma read_file_ok:
  assumes run: "read_file fuel bfuel s n in_len ppos = Done (res, out, ppos', s')" and ok: "cache_ok s"
  shows "cache_ok s'"
proof -
  obtain i i' u where r: "icache s n = Some i" "s' = put_inode u n i'"
    "spfs_read fuel bfuel s i in_len ppos = Done (res, out, i', ppos', u)"
    using run by (auto simp: read_file_def get_inode_def bnd_Done_iff split: option.splits)
  have "inode_ok i'" using cache_okD [OF ok r(1)] inode_ok_cong read_private [OF r(3)] by metis
  then show ?thesis using cache_ok_evolves [OF read_evolves [OF r(3)]] ok r(2) by (simp add: cache_ok_put)
qed

lemma write_file_ok:
  assumes run: "write_file fuel tfuel env intr s n src ppos = Done (res, ppos', s')" and ok: "cache_ok s"
  shows "cache_ok s'"
proof -
  obtain i i' u where r: "icache s n = Some i" "s' = put_inode u n i'"
    "spfs_write fuel tfuel env intr s i src ppos = Done (res, i', ppos', u)"
    using run by (auto simp: write_file_def get_inode_def bnd_Done_iff split: option.splits)
  have "inode_ok i'" using cache_okD [OF ok r(1)] inode_ok_cong write_private [OF r(3)] by metis
  then show ?thesis using cache_ok_evolves [OF write_evolves [OF r(3)]] ok r(2) by (simp add: cache_ok_put)
qed

lemma for_all_children_ok:
  assumes k: "kernel_ok k" and run: "spfs_for_all_children k tf fuel env s parent c f = Done (res, c', s')"
    and ok: "cache_ok s"
  shows "cache_ok s'"
proof -
  obtain dir where dir: "icache s parent = Some dir"
    using run by (auto simp: spfs_for_all_children_def get_inode_def split: option.splits)
  show ?thesis
  proof (cases "S_ISDIR (i_mode dir) \<and> \<not> i_lock dir")
    case False
    then show ?thesis
      using run dir ok by (auto simp: spfs_for_all_children_def get_inode_def mutex_lock_def split: if_splits)
  next
    case True
    obtain r c2 u d2 where l: "for_all_loop k tf env fuel f c (put_inode s parent (dir\<lparr>i_lock := True\<rparr>))
        (in_start dir) = Done (r, c2, u)" and u: "icache u parent = Some d2" "s' = put_inode u parent (mutex_unlock d2)"
      using run dir True
      by (auto simp: spfs_for_all_children_def get_inode_def mutex_lock_def bnd_Done_iff split: option.splits)
    have "cache_ok (put_inode s parent (dir\<lparr>i_lock := True\<rparr>))"
      using ok cache_okD [OF ok dir] by (simp add: cache_ok_put inode_ok_def)
    then have "cache_ok u" using typed_walk.all_blocks [OF _ l] k by (simp add: kernel_ok_def)
    then show ?thesis using cache_okD u by (auto intro!: cache_ok_put simp: inode_ok_def mutex_unlock_def)
  qed
qed

lemma step_cache_ok: "fs_step s e s' \<Longrightarrow> cache_ok s \<Longrightarrow> cache_ok s'"
proof (induction rule: fs_step.induct)
  case (listing k emit emit_dots tfuel fuel env s parent pos buf res pos' buf' s')
  then show ?case
    by (cases "emit_dots pos buf") (auto simp: spfs_iterate_def bnd_Done_iff split: if_splits
        dest!: for_all_children_ok)
next
  case (looking k tfuel fuel env s parent name result s')
  then show ?case
    by (auto simp: spfs_lookup_def spfs_inode_by_name_def bnd_Done_iff dest!: for_all_children_ok)
next
  case (writing_back fuel env s n res s')
  then show ?case
    by (auto simp: spfs_write_inode_def bnd_Done_iff dest!: spfs_btree_modify_evolves cache_ok_evolves)
next
  case (evicting s n)
  then show ?case by (auto simp: cache_ok_def evict_def split: if_splits)
qed (auto dest: create_ok mkdir_ok read_file_ok write_file_ok)

interpretation typed: step_relation "\<lambda>_. True" "\<lambda>s s'. cache_ok s \<longrightarrow> cache_ok s'"
  by unfold_locales (auto intro: step_cache_ok)


section \<open>Mounting\<close>

lemma set_blocksize_icache: "spfs_set_blocksize setbs is_bdev s n = (r, s') \<Longrightarrow> icache (s' :: vfs) = icache s"
  by (auto simp: spfs_set_blocksize_def Let_def split: if_splits prod.splits)

lemma super_block_init_icache:
  assumes "spfs_super_block_init s n = Done (r, s')"
  shows "icache (s' :: vfs) = icache s"
proof (cases "fs_bread s n")
  case None
  then show ?thesis using assms by (simp add: spfs_super_block_init_def)
next
  case (Some q)
  obtain b t where q: "q = (b, t)" by (cases q)
  have t: "icache t = icache s" using Some q by (auto simp: fs_bread_def)
  obtain v where v: "spfs_read_super_block b t = Done v"
    using assms Some q by (auto simp: spfs_super_block_init_def bnd_Done_iff)
  show ?thesis
  proof (cases v)
    case (Inl e)
    then show ?thesis using assms Some q v t by (auto simp: spfs_super_block_init_def fs_brelse_def)
  next
    case (Inr u)
    have "icache u = icache t"
      using v Inr by (auto simp: spfs_read_super_block_def read_or_Inr)
    then show ?thesis
      using assms Some q v Inr t by (auto simp: spfs_super_block_init_def fs_brelse_def Let_def split: if_splits)
  qed
qed

lemma fill_super_icache:
  assumes "fill_super setbs is_bdev kz fuel s = Done (r, s')"
  shows "icache s' = icache s"
proof -
  obtain r1 s1 where a: "spfs_set_blocksize setbs is_bdev s (of_nat SPOOKY_FS_INITIAL_BLOCK_SIZE) = (r1, s1)"
    by fastforce
  note ia = set_blocksize_icache [OF a]
  show ?thesis
  proof (cases "r1 = 0")
    case False
    then show ?thesis using assms a ia by (simp add: fill_super_def)
  next
    case True
    then obtain r2 s2 where b: "spfs_super_block_init s1 0 = Done (r2, s2)"
      using assms a by (auto simp: fill_super_def bnd_Done_iff)
    obtain r3 s3 where c: "spfs_set_blocksize setbs is_bdev s2 (ucast (sbi_block_size s2)) = (r3, s3)"
      by fastforce
    have "icache s' = icache s3 \<or> icache s' = icache s2"
      using assms a b c True
      by (auto simp: fill_super_def spfs_btree_init_def bnd_Done_iff Let_def split: if_splits)
    then show ?thesis using ia super_block_init_icache [OF b] set_blocksize_icache [OF c] by auto
  qed
qed

lemma fill_super_block_ok:
  assumes k: "kernel_ok k" and run: "spfs_fill_super_block setbs is_bdev kz_sbi kz k fuel env d = Done (0, Some s)"
  shows "cache_ok s"
proof -
  obtain s1 where f: "fill_super setbs is_bdev kz fuel (mounted d) = Done (0, s1)"
    using run by (auto simp: spfs_fill_super_block_def bnd_Done_iff split: if_splits)
  have ok1: "cache_ok s1"
    using fill_super_icache [OF f] by (simp add: cache_ok_def mounted_def)
  obtain p s2 where g: "spfs_inode_by_id k fuel env s1 (sbi_root_id s1) = Done (p, s2)"
    using run f by (auto simp: spfs_fill_super_block_def bnd_Done_iff split: if_splits)
  have ok2: "cache_ok s2" using inode_by_id_ok [OF _ g ok1] k by (simp add: kernel_ok_def)
  obtain root s3 where r: "(case p of
        NullPtr \<Rightarrow>
          bnd (spfs_new_inode k s2 None root_mode) (\<lambda>(root, s).
          case root of
            Inode n \<Rightarrow> bnd (get_inode s n) (\<lambda>i. Done (root, s\<lparr>sbi_root_id := i_ino i\<rparr>))
          | _ \<Rightarrow> Done (root, s))
      | _ \<Rightarrow> Done (p, s2)) = Done (root, s3)"
    using run f g by (auto simp: spfs_fill_super_block_def bnd_Done_iff split: if_splits)
  have ok3: "cache_ok s3"
  proof (cases p)
    case NullPtr
    then obtain q u where n: "spfs_new_inode k s2 None root_mode = Done (q, u)"
      using r by (auto simp: bnd_Done_iff)
    then show ?thesis
      using r NullPtr new_inode_ok [OF k n ok2] by (cases q) (auto simp: bnd_Done_iff)
  qed (use r ok2 in auto)
  obtain n i where "icache s3 n = Some i" "s = put_inode s3 n (i\<lparr>i_uid := k_fsuid k, i_gid := k_fsgid k\<rparr>)"
    using run f g r by (cases root) (auto simp: spfs_fill_super_block_def get_inode_def split: if_splits option.splits)
  then show ?thesis using cache_okD [OF ok3] ok3 by (auto intro!: cache_ok_put simp: inode_ok_def)
qed

section \<open>Property\<close>

text \<open>
  C13: From mounting on and through every sequence of calls the inode cache is well typed: the
  name of every inode in it is an array of 256 bytes and the inode is a regular file or a
  directory, whether it was read from the disk or created.
\<close>

theorem cached_inodes_typed:
  assumes "kernel_ok k" and "spfs_fill_super_block setbs is_bdev kz_sbi kz k fuel env d = Done (0, Some s)"
    and "fs_run s es s'" and "icache s' n = Some i"
  shows "length (in_name i) = SPOOKY_FS_NAME_MAX \<and> (S_ISREG (i_mode i) \<or> S_ISDIR (i_mode i))"
  using typed.run [OF assms(3) list_all_True] fill_super_block_ok [OF assms(1,2)] cache_okD assms(4)
  by (auto simp: inode_ok_def)


theorem cached_inodes_typed_witness:
  "\<exists>setbs s s' i. spfs_fill_super_block setbs True True (\<lambda>_. True) sample_kernel 1 sample_env (s_dev empty_fs) = Done (0, Some s) \<and>
    fs_run s [Created 2 True, LookedUp 1 (Some 2)] s' \<and> icache s' 2 = Some i \<and> length (in_name i) = 256"
proof (rule sample_run)
  fix setbs s s'
  assume m: "spfs_fill_super_block setbs True True (\<lambda>_. True) sample_kernel 1 sample_env (s_dev empty_fs) = Done (0, Some s)"
    and r: "fs_run s [Created 2 True, LookedUp 1 (Some 2)] s'" and "icache s' 2 \<noteq> None"
  then obtain i where i: "icache s' 2 = Some i" by blast
  from cached_inodes_typed [OF sample_kernel_ok m r i] m r i show ?thesis
    by (auto simp: SPOOKY_FS_NAME_MAX_def)
qed

end
