(* ===== verification/Error_Paths.thy ===== *)
theory Error_Paths
  imports Vfs_Laws
begin

text \<open>
  Errors that are met and not handled: an inode that cannot be made, a child that is not in the
  tree or whose name has no terminator, a directory that cannot grow, an inode read from the disk.
\<close>

section \<open>No inode\<close>

text \<open>\<open>iget_locked\<close> finds no memory, or the number is in the cache already.\<close>

lemma spfs_new_inode_fails:
  assumes "k_fresh k (sbi_id s) = None \<or> icache s (sbi_id s) \<noteq> None"
  shows "\<exists>s'. spfs_new_inode k s parent mode = Done (ErrPtr (- ENOMEM), s')"
  using assms by (cases "icache s (sbi_id s)") (auto simp: spfs_new_inode_def iget_locked_def Let_def)

text \<open>
  A file or a directory whose inode cannot be made is not refused: the code checks for the
  null pointer where \<open>spfs_new_inode\<close> returns an error pointer, and so \<open>spfs_create\<close> and
  \<open>spfs_mkdir\<close> dereference it.
\<close>

theorem create_without_inode_crashes:
  assumes "k_fresh k (sbi_id s) = None \<or> icache s (sbi_id s) \<noteq> None" and "length name \<le> SPOOKY_FS_NAME_MAX"
  shows "(S_ISREG mode \<longrightarrow> spfs_create k fuel env s parent name mode = Crash NullDeref) \<and>
    (S_ISDIR mode \<longrightarrow> spfs_mkdir k fuel env s parent name mode = Crash NullDeref)"
proof -
  obtain s' where "spfs_new_inode k s (Some parent) mode = Done (ErrPtr (- ENOMEM), s')"
    using spfs_new_inode_fails [OF assms(1)] by blast
  then show ?thesis
    using assms(2) by (simp add: spfs_create_def spfs_mkdir_def spfs_generic_create_def)
qed

theorem create_without_inode_crashes_witness:
  "spfs_create (sample_kernel\<lparr>k_fresh := \<lambda>_. None\<rparr>) 0 sample_env sample_vfs 1 [66] 0x81A4 = Crash NullDeref"
  using create_without_inode_crashes [of "sample_kernel\<lparr>k_fresh := \<lambda>_. None\<rparr>" sample_vfs "[66]" "0x81A4"]
  by (simp add: SPOOKY_FS_NAME_MAX_def S_ISREG_def)

section \<open>A child that cannot be listed\<close>

lemma scan_iterate_bad:
  assumes good: "\<forall>n\<in>set ns. \<exists>i. icache s n = Some i \<and> 0 \<in> set (in_name i)"
    and bad: "\<forall>i. icache s m = Some i \<longrightarrow> 0 \<notin> set (in_name i)" and "p \<le> q"
  shows "scan_children (spfs_iterate_cb emit_all) (icache s) (ns @ m # ms) \<lparr>it_pos = p, dc_pos = q, dc_buf = buf\<rparr> =
    Crash (if icache s m = None then NullDeref else BadAccess)"
  using bad scan_iterate [OF good assms(3), of buf]
  by (cases "icache s m") (auto simp: scan_children_append spfs_iterate_cb_def)

text \<open>
  C32: Listing a directory does not survive a child that is not in the tree, whose null pointer
  is dereferenced, nor one whose name fills its 256 bytes, which \<open>strlen\<close> runs out of: the first
  such child crashes the listing at whatever position it was to begin.
\<close>

theorem listing_crashes_at_bad_child:
  assumes "icache s parent = Some dir" and "S_ISDIR (i_mode dir)" and "\<not> i_lock dir"
    and "in_start dir = dir_head chain" and "dir_chain (d_blocks (s_dev s)) chain" and "length chain \<le> fuel"
    and kids: "dir_children chain = ns @ m # ms" "\<forall>n\<in>set (dir_children chain). resolved k tf s n"
      "parent \<notin> set (dir_children chain)"
    and good: "\<forall>n\<in>set ns. \<exists>i. icache s n = Some i \<and> 0 \<in> set (in_name i)"
    and bad: "\<forall>i. icache s m = Some i \<longrightarrow> 0 \<notin> set (in_name i)"
    and pos: "emit_dots pos buf = (True, pos, buf)" "2 \<le> pos" "pos < unat (in_capacity dir + 2)"
  shows "spfs_iterate emit_all emit_dots k tf fuel env s parent pos buf =
    Crash (if icache s m = None then NullDeref else BadAccess)"
  using spfs_for_all_children_resolved [OF assms(1-6) kids(2,3), of env
      "\<lparr>it_pos = 2, dc_pos = pos, dc_buf = buf\<rparr>" "spfs_iterate_cb emit_all"]
    scan_iterate_bad [OF good bad pos(2), of ms buf] assms(1) pos
  by (simp add: spfs_iterate_def get_inode_def kids(1))

text \<open>The child 9 of the sample directory is neither in the cache nor in the tree.\<close>

definition orphan_vfs :: vfs where
  "orphan_vfs = sample_vfs\<lparr>icache := [1 \<mapsto> dir_sample_inode 4]\<rparr>"

theorem listing_crashes_at_bad_child_witness:
  "spfs_iterate emit_all (\<lambda>p b. (True, p, b)) sample_kernel 0 1 sample_env orphan_vfs 1 2 [] = Crash NullDeref"
proof -
  have "missing sample_kernel 0 orphan_vfs 9"
    by (simp add: missing_def orphan_vfs_def sample_vfs_simps sample_kernel_def)
  then have "resolved sample_kernel 0 orphan_vfs 9" by (simp add: resolved_def)
  then show ?thesis
    using listing_crashes_at_bad_child [of orphan_vfs 1 "dir_sample_inode 4" "[(4, [9])]" 1 "[]" 9 "[]" sample_kernel 0
        "\<lambda>p b. (True, p, b)" 2 "[]" sample_env] dir_sample_chain
    by (simp add: orphan_vfs_def sample_vfs_simps dir_children_def)
qed

section \<open>A directory that cannot grow\<close>

text \<open>
  When every block of a directory is full and no block can be allocated, adding a child fails
  with \<open>-EINVAL\<close> and changes no block, but the start of the directory has been set to 0: every
  name in it is lost, and every lookup finds nothing.
\<close>

theorem add_child_no_space_loses_children:
  assumes "icache s parent = Some dir" and "S_ISDIR (i_mode dir)" and "\<not> i_lock dir"
    and "in_start dir = dir_head full" and "dir_chain (d_blocks (s_dev s)) full"
    and "\<forall>(g, gs)\<in>set full. length gs = 100" and "length full \<le> fuel"
    and "icache s child \<noteq> None" and "fs_alloc s 1 = (0, s1)"
  shows "\<exists>s'. add_child_to fuel s parent child = Done (- EINVAL, s') \<and> s_dev s' = s_dev s \<and>
    (\<forall>name. spfs_lookup k tf lf env s' parent name = Done (None, s'))"
proof -
  obtain m where m: "fuel = length full + m" using assms(7) le_Suc_ex by blast
  obtain i where i: "icache s child = Some i" using assms(8) by blast
  define dir' where "dir' = dir\<lparr>in_capacity := in_capacity dir + 1, in_start := 0\<rparr>"
  define s' where "s' = put_inode s1 parent dir'"
  have "add_child_loop fuel s p (dir_head (full @ [])) c = Done (- EINVAL, p\<lparr>in_start := 0\<rparr>, s1)" for p c
    unfolding m using assms(5,6) add_child_loop_full [of s full "[]" m p c] add_child_loop_no_space [OF assms(9)]
    by simp
  then have "spfs_add_child fuel s dir (i_ino i) = Done (- EINVAL, dir', s1)"
    using assms(3,4) by (simp add: spfs_add_child_def mutex_lock_def mutex_unlock_def Let_def dir'_def)
  then have "add_child_to fuel s parent child = Done (- EINVAL, s')"
    using assms(1) i by (simp add: add_child_to_def get_inode_def s'_def)
  moreover have "s_dev s' = s_dev s" using assms(9) by (auto simp: s'_def put_inode_def fs_alloc_eq)
  moreover have "spfs_lookup k tf lf env s' parent name = Done (None, s')" for name
    using spfs_lookup_cached [of s' parent dir' "[]" lf k tf env name] assms(2,3)
    by (simp add: s'_def put_inode_def dir'_def dir_children_def)
  ultimately show ?thesis by blast
qed

text \<open>A directory whose only block is full, on a file system without free blocks.\<close>

definition full_block :: buf where
  "full_block = dir_header_bytes 0 100 @ concat (map child_bytes (replicate 100 9))"

lemma full_block: "is_dir_block full_block 0 (replicate 100 9)"
proof -
  have "length full_block = 812"
    unfolding full_block_def length_append length_concat_child_bytes by simp
  moreover have "load full_block 0 12 = dir_header_bytes 0 100" "drop 12 full_block = concat (map child_bytes (replicate 100 9))"
    by (simp_all add: full_block_def load_def)
  ultimately show ?thesis by (simp add: is_dir_block_def low32_def)
qed

definition full_vfs :: vfs where
  "full_vfs = sample_vfs\<lparr>s_dev := \<lparr>d_blocks = [4 \<mapsto> full_block], d_dirty = {}, d_refs = \<lambda>_. 0\<rparr>,
     sbi_free_list := \<lparr>fl_blocks = 0, fl_root = []\<rparr>\<rparr>"

theorem add_child_no_space_loses_children_witness:
  "\<exists>s'. add_child_to 1 full_vfs 1 9 = Done (- EINVAL, s') \<and>
    spfs_lookup sample_kernel 0 1 sample_env s' 1 [65] = Done (None, s')"
proof -
  have chain: "dir_chain (d_blocks (s_dev full_vfs)) [(4, replicate 100 9)]"
    using full_block by (simp add: full_vfs_def)
  have alloc: "fs_alloc full_vfs 1 = (0, full_vfs)"
    by (simp add: fs_alloc_def spfs_free_alloc_def full_vfs_def)
  have "icache full_vfs 1 = Some (dir_sample_inode 4)" "icache full_vfs 9 \<noteq> None"
    by (simp_all add: full_vfs_def sample_vfs_simps)
  then show ?thesis
    using add_child_no_space_loses_children [OF _ _ _ _ chain _ _ _ alloc, where parent = 1 and
        dir = "dir_sample_inode 4" and fuel = 1 and child = 9 and k = sample_kernel and tf = 0 and lf = 1 and
        env = sample_env]
    by auto
qed


section \<open>What was in a block before\<close>

lemma load_dir_appended:
  assumes "20 + 8 * n \<le> length b"
  shows "load (dir_appended b next n c) (12 + 8 * n) 4 = be_bytes 4 (unat (ucast c :: u32))"
    and "12 \<le> p \<Longrightarrow> p + m \<le> 12 + 8 * n \<or> 16 + 8 * n \<le> p \<Longrightarrow> load (dir_appended b next n c) p m = load b p m"
proof -
  let ?h = "dir_header_bytes next (of_nat (Suc n))"
  let ?b = "store b (12 + n * 8) (be_bytes 4 (unat (ucast c :: u32)))"
  have fits: "12 + n * 8 + 4 \<le> length b" using assms by simp
  have after: "load (store ?b 0 ?h) p m = load ?b p m" if "12 \<le> p" for p m
    using that fits by (intro load_store_after) simp_all
  show "load (dir_appended b next n c) (12 + 8 * n) 4 = be_bytes 4 (unat (ucast c :: u32))"
    using fits by (simp add: dir_appended_def after mult.commute del: of_nat_Suc)
  assume "12 \<le> p" and m: "p + m \<le> 12 + 8 * n \<or> 16 + 8 * n \<le> p"
  then have "load ?b p m = load b p m"
    using fits load_store_before [of p m "12 + n * 8" "be_bytes 4 (unat (ucast c :: u32))" b]
      load_store_after [of "12 + n * 8" "be_bytes 4 (unat (ucast c :: u32))" p b m] by auto
  then show "load (dir_appended b next n c) p m = load b p m"
    using \<open>12 \<le> p\<close> by (simp add: dir_appended_def after del: of_nat_Suc)
qed

text \<open>Two numbers next to each other take the place of two slots.\<close>

lemma dir_children_loop_two:
  assumes reads: "spfs_sb_read_ino b 12 = Done (Some (c, 16))" "spfs_sb_read_ino b 16 = Done (Some (d, 20))"
    and "c \<noteq> 0" and "d \<noteq> 0" and "3 \<le> length b"
  shows "dir_children_loop (length b) visit b 12 0 2 st = visit_all visit [c, d] st"
proof -
  have "length b = Suc (Suc (Suc (length b - 3)))" using assms(5) by simp
  then obtain f where f: "length b = Suc (Suc (Suc f))" by blast
  have tail: "dir_children_loop (Suc f) visit b 20 2 2 st = Done (Inr True, st)" for st by simp
  have second: "dir_children_loop (Suc (Suc f)) visit b 16 1 2 st =
      bnd (visit st d) (\<lambda>(go, st). if \<not> go then Done (Inr False, st) else Done (Inr True, st))" for st
    using assms(4) by (subst dir_children_loop.simps) (simp add: reads tail del: dir_children_loop.simps cong: if_cong)
  show ?thesis
    unfolding f using assms(3)
    by (subst dir_children_loop.simps) (simp add: reads second del: dir_children_loop.simps cong: if_cong)
qed

text \<open>
  C33: The block allocated for a directory is not cleared, and the reader skips only zeros between
  the slots: after two children were added to an empty directory whose new block had the bytes
  of a number behind the first slot, the directory holds the first child and that number, and
  the second child is lost.
\<close>

theorem stale_bytes_become_children:
  assumes alloc: "fs_alloc s 1 = (r, s1)" "r \<noteq> 0" and b: "d_blocks (s_dev s) r = Some b" "28 \<le> length b"
    and stale: "load b 16 4 = be_bytes 4 (unat (ucast g :: u32))" "g \<noteq> 0" "low32 g = g"
    and kids: "c1 \<noteq> 0" "low32 c1 = c1" "c2 \<noteq> 0" "low32 c2 = c2"
    and parent: "in_start parent = 0" "\<not> i_lock parent"
  shows "\<exists>p1 s1 p2 s2 b2. spfs_add_child fuel s parent c1 = Done (0, p1, s1) \<and>
    spfs_add_child fuel s1 p1 c2 = Done (0, p2, s2) \<and> in_start p2 = r \<and> d_blocks (s_dev s2) r = Some b2 \<and>
    spfs_parse_dir_block b2 0 = Done (Inr (\<lparr>db_next = 0, db_children = 2\<rparr>, 12)) \<and>
    dir_children_loop (length b2) visit b2 12 0 2 st = visit_all visit [c1, g] st"
proof -
  define b0 where "b0 = store b 0 (dir_header_bytes 0 0)"
  define b1 where "b1 = dir_appended b0 0 0 c1"
  define b2 where "b2 = dir_appended b1 0 1 c2"
  have len: "length b0 = length b" "length b1 = length b" "length b2 = length b"
    using b(2) by (simp_all add: b0_def b1_def b2_def dir_appended_def)
  define t1 where "t1 = fs_dirty (fs_put s1 r b1) r"
  define t2 where "t2 = fs_dirty (fs_put t1 r b2) r"
  have blk1: "d_blocks (s_dev t1) r = Some b1" by (simp add: t1_def fs_put_def fs_dirty_def)
  have parse1: "spfs_parse_dir_block b1 0 = Done (Inr (\<lparr>db_next = 0, db_children = 1\<rparr>, 12))"
    using spfs_parse_dir_block_bytes [of b1 0 1] b(2) len
    by (simp add: b1_def dir_appended_def low32_def)
  have parse2: "spfs_parse_dir_block b2 0 = Done (Inr (\<lparr>db_next = 0, db_children = 2\<rparr>, 12))"
    using spfs_parse_dir_block_bytes [of b2 0 2] b(2) len
    by (simp add: b2_def dir_appended_def low32_def)
  have "add_child_loop fuel s p 0 c1 = Done (0, p\<lparr>in_start := r\<rparr>, t1)" for p
    using add_child_loop_end [OF alloc b(1)] b(2) by (simp add: t1_def b1_def b0_def)
  then have a1: "spfs_add_child fuel s parent c1 = Done (0, parent\<lparr>in_capacity := in_capacity parent + 1,
      in_start := r\<rparr>, t1)"
    using parent by (simp add: spfs_add_child_def mutex_lock_def mutex_unlock_def Let_def)
  have "add_child_loop fuel t1 p r c2 = Done (0, p, t2)" for p
    using alloc(2) b(2) len
    by (subst add_child_loop.simps)
      (simp add: fs_bread_Some [OF blk1] parse1 spfs_dir_is_full_def dir_append_child_eq [where b = b1] blk1
        fs_release_put t2_def b2_def)
  then have a2: "spfs_add_child fuel t1 (parent\<lparr>in_capacity := in_capacity parent + 1, in_start := r\<rparr>) c2 =
      Done (0, parent\<lparr>in_capacity := in_capacity parent + 2, in_start := r\<rparr>, t2)"
    using parent by (simp add: spfs_add_child_def mutex_lock_def mutex_unlock_def Let_def)
  have l1: "load b2 12 4 = be_bytes 4 (unat (ucast c1 :: u32))"
    using load_dir_appended(2) [of 1 b1 12 4 0 c2] load_dir_appended(1) [of 0 b0 0 c1] b(2) len
    by (simp add: b2_def b1_def)
  have l2: "load b2 16 4 = be_bytes 4 (unat (ucast g :: u32))"
    using load_dir_appended(2) [of 1 b1 16 4 0 c2] load_dir_appended(2) [of 0 b0 16 4 0 c1] b(2) len stale(1)
    by (simp add: b2_def b1_def b0_def load_store_after)
  have reads: "spfs_sb_read_ino b2 12 = Done (Some (c1, 16))" "spfs_sb_read_ino b2 16 = Done (Some (g, 20))"
    using b(2) len kids stale l1 l2 by (simp_all add: fino.rd_ok low32_def)
  have "dir_children_loop (length b2) visit b2 12 0 2 st = visit_all visit [c1, g] st"
    using reads kids stale b(2) len by (intro dir_children_loop_two) simp_all
  then show ?thesis
    using a1 a2 parse2
    by (intro exI [of _ "parent\<lparr>in_capacity := in_capacity parent + 1, in_start := r\<rparr>"] exI [of _ t1]
        exI [of _ "parent\<lparr>in_capacity := in_capacity parent + 2, in_start := r\<rparr>"] exI [of _ t2] exI [of _ b2])
      (simp add: t2_def fs_put_def fs_dirty_def)
qed


text \<open>The children 9 and 12 in a directory whose new block is full of bytes 1.\<close>

definition stale_fs :: spfs where
  "stale_fs = dir_sample_fs\<lparr>s_dev := \<lparr>d_blocks = [11 \<mapsto> replicate 64 1], d_dirty = {}, d_refs = \<lambda>_. 0\<rparr>\<rparr>"

theorem stale_bytes_become_children_witness:
  "\<exists>p1 s1 p2 s2 b2. spfs_add_child 0 stale_fs (dir_sample_inode 0) 9 = Done (0, p1, s1) \<and>
    spfs_add_child 0 s1 p1 12 = Done (0, p2, s2) \<and> d_blocks (s_dev s2) 11 = Some b2 \<and>
    dir_children_loop (length b2) (\<lambda>st n. Done (True, st @ [n])) b2 12 0 2 [] = Done (Inr True, [9, 0x1010101])"
proof -
  have a: "fs_alloc stale_fs 1 = (11, stale_fs\<lparr>sbi_free_list := \<lparr>fl_blocks = 9, fl_root = [\<lparr>fn_start = 2, fn_blocks = 9\<rparr>]\<rparr>\<rparr>)"
    by (simp add: fs_alloc_def spfs_free_alloc_def stale_fs_def dir_sample_fs_def)
  have b: "d_blocks (s_dev stale_fs) 11 = Some (replicate 64 1)" by (simp add: stale_fs_def)
  have "be_bytes (Suc (Suc (Suc (Suc 0)))) 16843009 = [1, 1, 1, 1]"
    by (simp only: be_bytes_def le_bytes.simps) simp
  moreover have "Suc (Suc (Suc (Suc 0))) = 4" by simp
  ultimately have bytes: "be_bytes 4 16843009 = [1, 1, 1, 1]" by (simp only:)
  have "replicate 4 (1 :: byte) = [1, 1, 1, 1]" by (simp add: numeral_eq_Suc)
  then have g: "load (replicate 64 1) 16 4 = be_bytes 4 (unat (ucast (0x1010101 :: u64) :: u32))"
    by (simp add: load_def bytes)
  show ?thesis
    using stale_bytes_become_children [OF a _ b _ g, of 9 12 "dir_sample_inode 0" 0 "\<lambda>st n. Done (True, st @ [n])" "[]"]
    by (auto simp: low32_def)
qed

section \<open>An inode on the disk\<close>




end
