(* ===== verification/File_Read.thy ===== *)
theory File_Read
  imports File_Laws
begin

text \<open>
  Reading a whole file: the chain of its extents stands for a list of bytes, and \<open>spfs_read\<close>
  with a buffer that takes the rest of the file returns that list from the position on, however
  many extents and blocks the position and the data cross.
\<close>

section \<open>Skipping an extent\<close>

lemma read_extent_round_skip:
  assumes "bh_pos \<le> length b" and "unat len \<le> pos"
  defines "c \<equiv> min (length b - bh_pos) (unat len)"
  shows "read_extent_round b bh_pos len out in_len pos read = Done (len - of_nat c, out, in_len, pos - c, read)"
proof -
  have m1: "min pos (min (length b - bh_pos) (unat len)) = c" using assms(2) by (simp add: c_def)
  show ?thesis
  proof (cases "pos - c = 0")
    case True
    then have "unat len - c = 0" using assms(2) by simp
    then show ?thesis
      using read_extent_round_eq [OF assms(1), of len out in_len pos read] True
      by (simp only: m1) (simp add: load_def)
  next
    case False
    then show ?thesis
      using read_extent_round_eq [OF assms(1), of len out in_len pos read]
      by (simp only: m1) (simp add: load_def)
  qed
qed

lemma read_extent_loop_skip:
  assumes "run_of_blocks (d_blocks (s_dev s)) (start + 1) bs" and "bh_pos \<le> length b"
    and "unat len \<le> length (drop bh_pos b @ concat bs)" and "unat len \<le> pos" and "length bs < fuel"
  shows "read_extent_loop fuel (held s start) start b bh_pos len out in_len pos read =
    Done (int read, out, in_len, pos - unat len, s)"
  using assms
proof (induction bs arbitrary: fuel start b bh_pos len pos)
  case Nil
  then obtain f where f: "fuel = Suc f" by (cases fuel) auto
  have "min (length b - bh_pos) (unat len) = unat len" using Nil by simp
  then show ?case using read_extent_round_skip [OF Nil(2,4)] by (simp add: f)
next
  case (Cons b2 bs)
  obtain f where f: "fuel = Suc f" using Cons.prems(5) by (cases fuel) auto
  show ?case
  proof (cases "unat len \<le> length b - bh_pos")
    case True
    then have "min (length b - bh_pos) (unat len) = unat len" by simp
    then show ?thesis using read_extent_round_skip [OF Cons.prems(2,4)] by (simp add: f)
  next
    case False
    define r where "r = length b - bh_pos"
    have less: "r < unat len" and m: "min (length b - bh_pos) (unat len) = r" using False by (simp_all add: r_def)
    have u: "unat (len - of_nat r) = unat len - r" using less by (simp add: unat_minus_small)
    then have nz: "len - of_nat r \<noteq> 0" using less by (metis unat_0 zero_less_diff less_irrefl)
    have b2: "d_blocks (s_dev s) (start + 1) = Some b2"
      and run: "run_of_blocks (d_blocks (s_dev s)) (start + 1 + 1) bs" using Cons.prems(1) by simp_all
    have "read_extent_loop f (held s (start + 1)) (start + 1) b2 0 (len - of_nat r) out in_len (pos - r) read =
      Done (int read, out, in_len, pos - r - unat (len - of_nat r), s)"
      using Cons.prems(3-5) less by (intro Cons.IH [OF run]) (simp_all add: u f, simp add: r_def)
    moreover have "pos - r - unat (len - of_nat r) = pos - unat len" using less by (simp add: u)
    ultimately show ?thesis
      using read_extent_round_skip [OF Cons.prems(2,4), of out in_len read]
      by (simp only: f read_extent_loop.simps m bnd_simps prod.case held_simps(1) nz if_False
          fs_bread_held [OF b2] option.case)
  qed
qed

section \<open>A chain of extents\<close>

type_synonym extent = "spfs_file_extent \<times> buf \<times> buf list"

definition extent_at :: "(u64 \<Rightarrow> buf option) \<Rightarrow> u64 \<Rightarrow> extent \<Rightarrow> bool" where
  "extent_at blk start = (\<lambda>(h, b, bs). blk start = Some b \<and> 16 \<le> length b \<and>
     load b 0 16 = extent_header_bytes h \<and> run_of_blocks blk (start + 1) bs \<and>
     unat (fe_length h) \<le> length (drop 16 b @ concat bs))"

definition extent_bytes :: "extent \<Rightarrow> byte list" where
  "extent_bytes = (\<lambda>(h, b, bs). take (unat (fe_length h)) (drop 16 b @ concat bs))"

fun file_chain :: "(u64 \<Rightarrow> buf option) \<Rightarrow> u64 \<Rightarrow> extent list \<Rightarrow> bool" where
  "file_chain blk start [] = (start = 0)"
| "file_chain blk start (e # es) =
     (start \<noteq> 0 \<and> extent_at blk start e \<and> file_chain blk (low32 (fe_next (fst e))) es)"

definition file_bytes :: "extent list \<Rightarrow> byte list" where
  "file_bytes es = concat (map extent_bytes es)"

lemma length_extent_bytes: "extent_at blk start (h, b, bs) \<Longrightarrow> length (extent_bytes (h, b, bs)) = unat (fe_length h)"
  by (auto simp: extent_at_def extent_bytes_def)

text \<open>Reading one extent from any position with a buffer that takes the rest of it.\<close>

lemma read_file_extent_any:
  assumes e: "extent_at (d_blocks (s_dev s)) start (h, b, bs)" and fuel: "length bs < fuel"
    and room: "length (drop pos (extent_bytes (h, b, bs))) \<le> in_len"
  shows "spfs_read_file_extent fuel s next start out in_len pos =
    Done (int (length (drop pos (extent_bytes (h, b, bs)))), low32 (fe_next h),
      out @ drop pos (extent_bytes (h, b, bs)),
      in_len - length (drop pos (extent_bytes (h, b, bs))), pos - length (extent_bytes (h, b, bs)), s)"
proof -
  note parts = e [unfolded extent_at_def prod.case]
  note len = length_extent_bytes [OF e]
  show ?thesis
  proof (cases "pos \<le> unat (fe_length h)")
    case True
    have rest: "unat (fe_length h) - pos \<le> in_len" using room unfolding length_drop len .
    have "spfs_read_file_extent fuel s next start out in_len pos =
      Done (int (unat (fe_length h) - pos), low32 (fe_next h), out @ drop pos (extent_bytes (h, b, bs)),
        in_len - (unat (fe_length h) - pos), 0, s)"
      unfolding extent_bytes_def prod.case
      using parts fuel True rest by (intro spfs_read_file_extent_all) blast+
    moreover have "pos - unat (fe_length h) = 0" using True by simp
    ultimately show ?thesis by (simp only: length_drop len)
  next
    case False
    have "read_extent_loop fuel (held s start) start b 16 (fe_length h) out in_len pos 0 =
        Done (int 0, out, in_len, pos - unat (fe_length h), s)"
      using parts fuel nat_le_linear False by (intro read_extent_loop_skip) blast+
    moreover have "drop pos (extent_bytes (h, b, bs)) = []" using False len by simp
    ultimately show ?thesis
      using parts len by (simp add: spfs_read_file_extent_def fs_bread_held spfs_parse_file_extent_bytes)
  qed
qed

lemma read_extents_chain:
  assumes "file_chain (d_blocks (s_dev s)) start es" and "length (drop pos (file_bytes es)) \<le> in_len"
    and "0 < in_len" and "length es \<le> fuel" and "\<forall>(h, b, bs)\<in>set es. length bs < bfuel"
  shows "read_extents fuel bfuel s start out in_len pos read =
    Done (Inr (read + int (length (drop pos (file_bytes es)))), out @ drop pos (file_bytes es), s)"
  using assms
proof (induction es arbitrary: fuel start out in_len pos read)
  case Nil
  then show ?case by (cases fuel) (simp_all add: file_bytes_def)
next
  case (Cons e es)
  obtain h b bs where e: "e = (h, b, bs)" by (cases e)
  obtain f where f: "fuel = Suc f" using Cons.prems(4) by (cases fuel) auto
  define x where "x = extent_bytes e"
  have start: "start \<noteq> 0" and at: "extent_at (d_blocks (s_dev s)) start (h, b, bs)"
    and rest: "file_chain (d_blocks (s_dev s)) (low32 (fe_next h)) es" using Cons.prems(1) e by simp_all
  have bytes: "file_bytes (e # es) = x @ file_bytes es" by (simp add: file_bytes_def x_def)
  have split: "drop pos (file_bytes (e # es)) = drop pos x @ drop (pos - length x) (file_bytes es)"
    by (simp add: bytes)
  have room: "length (drop pos x) \<le> in_len" using Cons.prems(2) unfolding split length_append by linarith
  have r: "spfs_read_file_extent bfuel s 0 start out in_len pos =
    Done (int (length (drop pos x)), low32 (fe_next h), out @ drop pos x,
      in_len - length (drop pos x), pos - length x, s)"
    unfolding x_def e using Cons.prems(5) room e by (intro read_file_extent_any [OF at]) (simp_all add: x_def)
  show ?case
  proof (cases "0 < in_len - length (drop pos x)")
    case True
    have ih: "read_extents f bfuel s (low32 (fe_next h)) (out @ drop pos x) (in_len - length (drop pos x))
        (pos - length x) (read + int (length (drop pos x))) =
      Done (Inr (read + int (length (drop pos x)) + int (length (drop (pos - length x) (file_bytes es)))),
        (out @ drop pos x) @ drop (pos - length x) (file_bytes es), s)"
      using Cons.prems(2,4,5) f True split by (intro Cons.IH [OF rest]) simp_all
    have neg: "(int (length (drop pos x)) < 0) = False" by simp
    show ?thesis
      unfolding f read_extents.simps using start True ih
      by (simp only: r bnd_simps prod.case neg if_False if_True split length_append of_nat_add
          append_assoc add.assoc)
  next
    case False
    then have none: "drop (pos - length x) (file_bytes es) = []"
      using Cons.prems(2) unfolding split length_append by (metis add_le_same_cancel1 diff_is_0_eq
          le_antisym le_add1 length_0_conv not_gr_zero le_zero_eq add.right_neutral room)
    have neg: "(int (length (drop pos x)) < 0) = False" by simp
    show ?thesis
      unfolding f read_extents.simps using start False
      by (simp only: r bnd_simps prod.case neg if_False split none append_Nil2)
  qed
qed

section \<open>Property\<close>

text \<open>
  C4: Reading a regular file with a buffer that takes the rest of it returns exactly the bytes
  of the file from the position on, over all its extents, advances the position by their number
  (by nothing past the end of the file), releases the mutex and changes nothing else.
\<close>

theorem read_returns_file_bytes:
  assumes "file_chain (d_blocks (s_dev s)) (in_start inode) es"
    and "S_ISREG (i_mode inode)" and "\<not> i_lock inode" and "0 < in_len"
    and "length (drop pos (file_bytes es)) \<le> in_len"
    and "length es \<le> fuel" and "\<forall>(h, b, bs)\<in>set es. length bs < bfuel"
  shows "spfs_read fuel bfuel s inode in_len (Some pos) =
    Done (int (length (drop pos (file_bytes es))), drop pos (file_bytes es), inode,
      Some (pos + length (drop pos (file_bytes es))), s)"
proof -
  have unlock: "mutex_unlock (inode\<lparr>i_lock := True\<rparr>) = inode"
    using assms(3) by (simp add: mutex_unlock_def)
  have l: "read_extents fuel bfuel s (in_start inode) [] in_len pos 0 =
      Done (Inr (int (length (drop pos (file_bytes es)))), drop pos (file_bytes es), s)"
    using read_extents_chain [OF assms(1,5,4,6,7), of "[]" 0] by simp
  show ?thesis
    using assms(2-4) unlock l by (simp add: spfs_read_def mutex_lock_def nat_add_distrib del: length_drop)
qed

text \<open>Two extents, the first of two blocks: "ABCDEF" and "GHI".\<close>

definition sample_extents :: "extent list" where
  "sample_extents =
     [(\<lparr>fe_next = 9, fe_capacity = 2, fe_length = 6\<rparr>,
       extent_header_bytes \<lparr>fe_next = 9, fe_capacity = 2, fe_length = 6\<rparr> @ [65, 66, 67, 68], [[69, 70, 0, 0]]),
      (\<lparr>fe_next = 0, fe_capacity = 1, fe_length = 3\<rparr>,
       extent_header_bytes \<lparr>fe_next = 0, fe_capacity = 1, fe_length = 3\<rparr> @ [71, 72, 73, 0], [])]"

definition sample_file_fs :: spfs where
  "sample_file_fs = dir_sample_fs\<lparr>s_dev := \<lparr>d_blocks =
     [3 \<mapsto> extent_header_bytes \<lparr>fe_next = 9, fe_capacity = 2, fe_length = 6\<rparr> @ [65, 66, 67, 68],
      4 \<mapsto> [69, 70, 0, 0],
      9 \<mapsto> extent_header_bytes \<lparr>fe_next = 0, fe_capacity = 1, fe_length = 3\<rparr> @ [71, 72, 73, 0]],
     d_dirty = {}, d_refs = \<lambda>_. 0\<rparr>\<rparr>"

lemma sample_file:
  "file_chain (d_blocks (s_dev sample_file_fs)) 3 sample_extents"
  "file_bytes sample_extents = [65, 66, 67, 68, 69, 70, 71, 72, 73]"
  by (simp_all add: sample_file_fs_def sample_extents_def extent_at_def file_bytes_def extent_bytes_def
      load_def low32_def)

theorem read_returns_file_bytes_witness:
  "spfs_read 2 2 sample_file_fs ((dir_sample_inode 3)\<lparr>i_mode := 0x81A4\<rparr>) 20 (Some 4) =
    Done (5, [69, 70, 71, 72, 73], (dir_sample_inode 3)\<lparr>i_mode := 0x81A4\<rparr>, Some 9, sample_file_fs)"
  using read_returns_file_bytes [of sample_file_fs "(dir_sample_inode 3)\<lparr>i_mode := 0x81A4\<rparr>" sample_extents 20 4 2 2]
    sample_file
  by (simp add: dir_sample_inode_def S_ISREG_def sample_extents_def)

end
