(* ===== verification/File_Blocks.thy ===== *)
theory File_Blocks
  imports File_Write File_Read
begin

text \<open>
  Writing across the blocks of an extent. The data of an extent are the bytes behind its header
  in the first block followed by the other blocks; \<open>spfs_write_file_extent\<close> puts the source at
  the position, whatever blocks that spans, and touches no block outside the extent.
\<close>

section \<open>Runs of blocks\<close>

text \<open>\<open>span it n m\<close>: block \<open>m\<close> is one of the \<open>n\<close> blocks from \<open>it\<close>.\<close>

definition span :: "u64 \<Rightarrow> nat \<Rightarrow> u64 \<Rightarrow> bool" where
  "span it n m \<longleftrightarrow> unat it \<le> unat m \<and> unat m < unat it + n"

lemma span_Suc:
  assumes "unat it + n < 2 ^ 64"
  shows "span it (Suc n) m \<longleftrightarrow> m = it \<or> span (it + 1) n m"
proof (cases "n = 0")
  case True
  then show ?thesis by (auto simp: span_def word_unat_eq_iff)
next
  case False
  then have "unat (it + 1) = unat it + 1" using assms by (subst unat_add_small) simp_all
  then show ?thesis by (auto simp: span_def word_unat_eq_iff)
qed

lemma span_next:
  assumes "unat it + n < 2 ^ 64" and "0 < n"
  shows "\<not> span (it + 1) n' it"
proof -
  have "unat (it + 1) = unat it + 1" using assms by (subst unat_add_small) simp_all
  then show ?thesis by (simp add: span_def)
qed

lemma run_of_blocks_cong:
  "run_of_blocks blk it bs \<Longrightarrow> unat it + length bs < 2 ^ 64 \<Longrightarrow>
    (\<And>m. span it (length bs) m \<Longrightarrow> blk' m = blk m) \<Longrightarrow> run_of_blocks blk' it bs"
proof (induction bs arbitrary: it)
  case (Cons b bs)
  have small: "unat it + length bs < 2 ^ 64" using Cons.prems(2) by simp
  have "blk' it = blk it" using Cons.prems(3) span_Suc [OF small] by simp
  moreover have "run_of_blocks blk' (it + 1) bs"
  proof (cases bs)
    case (Cons c cs)
    have "unat (it + 1) = unat it + 1" using small Cons by (subst unat_add_small) simp_all
    then show ?thesis
      using Cons.IH Cons.prems span_Suc [OF small] by simp
  qed simp
  ultimately show ?case using Cons.prems(1) by simp
qed simp

section \<open>One block\<close>

lemma do_write_block:
  assumes "pos < length b" and "src \<noteq> []"
  defines "n \<equiv> min (length src) (length b - pos)"
  shows "spfs_do_write b 0 src pos = Done (n, store b pos (take n src), pos, drop n src, 0)"
proof -
  have "min pos (length b - 0) = pos" using assms(1) by simp
  then show ?thesis
    using assms(1) by (simp add: spfs_do_write_def spfs_sb_remaining_def Let_def n_def)
qed

lemma write_block_at:
  assumes b: "d_blocks (s_dev s) it = Some b" and "pos < length b" and "src \<noteq> []"
  defines "n \<equiv> min (length src) (length b - pos)"
  shows "write_block s it h src pos = Done (Some (n, h\<lparr>fe_length := fe_length h + of_nat n\<rparr>, drop n src, 0,
    fs_dirty (fs_put s it (store b pos (take n src))) it))"
proof -
  have "0 < n" using assms(2,3) by (simp add: n_def)
  then show ?thesis
    using do_write_block [OF assms(2,3), folded n_def]
    by (simp add: write_block_def fs_bread_held [OF b] Let_def)
qed

text \<open>Storing over two adjacent lists.\<close>

lemma store_append_left:
  "pos + length xs \<le> length b \<Longrightarrow> store (b @ c) pos xs = store b pos xs @ c"
  by (simp add: store_def)

lemma store_append_right:
  "length b \<le> pos \<Longrightarrow> store (b @ c) pos xs = b @ store c (pos - length b) xs"
  by (simp add: store_def)

lemma store_append_both:
  assumes "pos \<le> length b" and "length b \<le> pos + length xs"
  shows "store (b @ c) pos xs = store b pos (take (length b - pos) xs) @ store c 0 (drop (length b - pos) xs)"
proof -
  have "length b + length xs - (length b + length xs) = 0" by simp
  moreover have "take (length b - pos) xs @ drop (length b - pos) xs @ ys = xs @ ys" for ys
    by (metis append.assoc append_take_drop_id)
  ultimately show ?thesis using assms by (simp add: store_def min_def add.commute)
qed

section \<open>The blocks after the first\<close>

lemma write_blocks_overlay:
  assumes "run_of_blocks (d_blocks (s_dev s)) it bs" and "\<forall>b\<in>set bs. length b = unat (sbi_block_size s)"
    and "unat it + length bs < 2 ^ 64" and "end = it + of_nat (length bs)" and "length bs \<le> fuel"
    and "src \<noteq> []" and "pos + length src \<le> length (concat bs)"
  shows "\<exists>bs' d. write_blocks fuel s end it h src pos dirty =
      Done (Inr True, h\<lparr>fe_length := fe_length h + of_nat (length src)\<rparr>, [], 0, s\<lparr>s_dev := d\<rparr>) \<and>
    run_of_blocks (d_blocks d) it bs' \<and> map length bs' = map length bs \<and>
    concat bs' = store (concat bs) pos src \<and>
    (\<forall>m. \<not> span it (length bs) m \<longrightarrow> d_blocks d m = d_blocks (s_dev s) m)"
  using assms
proof (induction bs arbitrary: s it fuel src pos h dirty)
  case Nil
  then show ?case by simp
next
  case (Cons b bs)
  let ?B = "unat (sbi_block_size s)"
  obtain f where f: "fuel = Suc f" using Cons.prems(5) by (cases fuel) auto
  have b: "d_blocks (s_dev s) it = Some b" "length b = ?B" using Cons.prems(1,2) by simp_all
  have small: "unat it + length bs < 2 ^ 64" using Cons.prems(3) by simp
  have less: "it < end"
  proof -
    have "unat (it + of_nat (Suc (length bs))) = unat it + Suc (length bs)"
      using Cons.prems(3) by (simp add: unat_word_ariths unat_of_nat)
    then show ?thesis by (simp add: word_less_nat_alt Cons.prems(4))
  qed
  have stop: "end = it + 1 + of_nat (length bs)" using Cons.prems(4) by simp
  have next_it: "unat (it + 1) + length bs < 2 ^ 64" if "bs \<noteq> []"
  proof -
    have "unat (it + 1) = unat it + 1"
      using Cons.prems(3) that by (cases bs) (simp_all add: unat_word_ariths)
    then show ?thesis using Cons.prems(3) by simp
  qed
  have fuel: "length bs \<le> f" using Cons.prems(5) f by simp
  show ?case
  proof (cases "pos < ?B")
    case False
    then have nonempty: "bs \<noteq> []" using Cons.prems(6,7) b(2) by (cases bs; cases src) auto
    have run: "run_of_blocks (d_blocks (s_dev s)) (it + 1) bs" using Cons.prems(1) by simp
    have sizes: "\<forall>b\<in>set bs. length b = ?B" using Cons.prems(2) by simp
    have room: "pos - ?B + length src \<le> length (concat bs)" using Cons.prems(7) b(2) False by simp
    obtain bs' d where ih: "write_blocks f s end (it + 1) h src (pos - ?B) dirty =
        Done (Inr True, h\<lparr>fe_length := fe_length h + of_nat (length src)\<rparr>, [], 0, s\<lparr>s_dev := d\<rparr>)"
      and r: "run_of_blocks (d_blocks d) (it + 1) bs'" "map length bs' = map length bs"
        "concat bs' = store (concat bs) (pos - ?B) src"
        "\<forall>m. \<not> span (it + 1) (length bs) m \<longrightarrow> d_blocks d m = d_blocks (s_dev s) m"
      using Cons.IH [OF run sizes next_it [OF nonempty] stop fuel Cons.prems(6) room, of h dirty] by blast
    have "d_blocks d it = Some b"
      using r(4) b(1) span_next [OF small] nonempty by simp
    moreover have "store (concat (b # bs)) pos src = b @ concat bs'"
      using r(3) b(2) False store_append_right [of b pos "concat bs" src] by simp
    ultimately show ?thesis
      using ih r f less Cons.prems(6) False span_Suc [OF small]
      by (intro exI [of _ "b # bs'"] exI [of _ d]) (simp add: spfs_in_sector_def)
  next
    case True
    define n where "n = min (length src) (?B - pos)"
    define b' where "b' = store b pos (take n src)"
    define h' where "h' = h\<lparr>fe_length := fe_length h + of_nat n\<rparr>"
    define s2 where "s2 = fs_dirty (fs_put s it b') it"
    have n: "n \<le> length src" "0 < n" "pos + n \<le> ?B" using True Cons.prems(6) by (auto simp: n_def)
    have wb: "write_block s it h src pos = Done (Some (n, h', drop n src, 0, s2))"
      using write_block_at [OF b(1) _ Cons.prems(6)] True b(2) by (simp add: n_def b'_def h'_def s2_def)
    have len: "length b' = ?B" using n b(2) by (simp add: b'_def)
    have blk: "d_blocks (s_dev s2) it = Some b'" "\<And>m. m \<noteq> it \<Longrightarrow> d_blocks (s_dev s2) m = d_blocks (s_dev s) m"
      by (simp_all add: s2_def fs_put_def fs_dirty_def)
    have step: "write_blocks fuel s end it h src pos dirty = write_blocks f s2 end (it + 1) h' (drop n src) 0 True"
      using f less Cons.prems(6) True wb n(2) by (simp add: spfs_in_sector_def)
    have s2: "s2\<lparr>s_dev := d\<rparr> = s\<lparr>s_dev := d\<rparr>" "sbi_block_size s2 = sbi_block_size s" for d
      by (simp_all add: s2_def fs_put_def fs_dirty_def)
    have run: "run_of_blocks (d_blocks (s_dev s2)) (it + 1) bs"
    proof (cases "bs = []")
      case False
      have before: "run_of_blocks (d_blocks (s_dev s)) (it + 1) bs" using Cons.prems(1) by simp
      show ?thesis
      proof (rule run_of_blocks_cong [OF before next_it [OF False]])
        show "d_blocks (s_dev s2) m = d_blocks (s_dev s) m" if "span (it + 1) (length bs) m" for m
          using that span_next [OF small] False blk(2) by (metis length_greater_0_conv)
      qed
    qed simp
    show ?thesis
    proof (cases "drop n src = []")
      case all: True
      then have n_all: "n = length src" using n(1) by simp
      have "store (concat (b # bs)) pos src = concat (b' # bs)"
        using n n_all b(2) store_append_left [of pos src b "concat bs"] by (simp add: b'_def)
      then show ?thesis
        unfolding step using all blk run len b(2) n_all span_Suc [OF small] s2(1) [of "s_dev s2"]
        by (intro exI [of _ "b' # bs"] exI [of _ "s_dev s2"])
          (simp add: write_blocks_done h'_def)
    next
      case more: False
      have n_B: "n = ?B - pos" using more n(1) by (simp add: n_def)
      have nonempty: "bs \<noteq> []" using more Cons.prems(7) b(2) n_B True by (cases bs) auto
      have room: "0 + length (drop n src) \<le> length (concat bs)" using Cons.prems(7) b(2) n_B True by simp
      have sizes: "\<forall>b\<in>set bs. length b = unat (sbi_block_size s2)" using Cons.prems(2) s2(2) by simp
      obtain bs' d where ih: "write_blocks f s2 end (it + 1) h' (drop n src) 0 True =
          Done (Inr True, h'\<lparr>fe_length := fe_length h' + of_nat (length (drop n src))\<rparr>, [], 0, s2\<lparr>s_dev := d\<rparr>)"
        and r: "run_of_blocks (d_blocks d) (it + 1) bs'" "map length bs' = map length bs"
          "concat bs' = store (concat bs) 0 (drop n src)"
          "\<forall>m. \<not> span (it + 1) (length bs) m \<longrightarrow> d_blocks d m = d_blocks (s_dev s2) m"
        using Cons.IH [OF run sizes next_it [OF nonempty] stop fuel more room, of h' True] by blast
      have "d_blocks d it = Some b'" using r(4) blk(1) span_next [OF small] nonempty by simp
      moreover have "store (concat (b # bs)) pos src = concat (b' # bs')"
        using r(3) b(2) n_B n store_append_both [of pos b src "concat bs"] True by (simp add: b'_def)
      moreover have "of_nat n + of_nat (length (drop n src)) = (of_nat (length src) :: u32)"
        using n(1) by (simp add: of_nat_diff)
      ultimately show ?thesis
        unfolding step using ih r blk len b(2) span_Suc [OF small] s2(1)
        by (intro exI [of _ "b' # bs'"] exI [of _ d]) (simp add: h'_def add.assoc)
    qed
  qed
qed

section \<open>A whole extent\<close>

lemma store_append_split:
  "store (b @ c) pos xs = store b pos (take (length b - pos) xs) @ store c (pos - length b) (drop (length b - pos) xs)"
proof (cases "pos \<le> length b \<and> length b \<le> pos + length xs")
  case True
  then show ?thesis using store_append_both [of pos b xs c] by simp
next
  case False
  then show ?thesis
    using store_append_left [of pos xs b c] store_append_right [of b pos c xs] by (auto simp: not_le)
qed

lemma drop_store_shift:
  "k + pos \<le> length b \<or> ys = [] \<Longrightarrow> drop k (store b (k + pos) ys) = store (drop k b) pos ys"
proof (elim disjE)
  assume "k + pos \<le> length b"
  then show ?thesis by (simp add: store_def drop_take ac_simps)
qed simp

lemma do_write_head:
  fixes pos :: nat and src :: "byte list"
  assumes "16 \<le> length b"
  defines "n \<equiv> min (length src) (length b - 16 - pos)"
  shows "\<exists>p. spfs_do_write b 16 src pos =
    Done (n, store b (16 + pos) (take n src), p, drop n src, pos - (length b - 16))"
proof (cases "pos \<le> length b - 16")
  case True
  then have "min pos (length b - 16) = pos" "pos - (length b - 16) = 0" by simp_all
  moreover have "\<not> length b < 16 + pos" using assms(1) True by linarith
  ultimately show ?thesis
    using assms(1) by (simp add: spfs_do_write_def spfs_sb_remaining_def Let_def n_def)
next
  case False
  then have "min pos (length b - 16) = length b - 16" "pos - (length b - 16) \<noteq> 0" "n = 0"
    by (simp_all add: n_def)
  then show ?thesis
    using assms(1) by (simp add: spfs_do_write_def spfs_sb_remaining_def Let_def)
qed

lemma write_file_extent_overlay:
  assumes b: "d_blocks (s_dev s) start = Some b" "load b 0 16 = extent_header_bytes h" "16 \<le> length b"
    and low: "low32 (fe_next h) = fe_next h"
    and run: "run_of_blocks (d_blocks (s_dev s)) (start + 1) bs"
    and sizes: "length b = unat (sbi_block_size s)" "\<forall>c\<in>set bs. length c = unat (sbi_block_size s)"
    and cap: "unat (fe_capacity h) = Suc (length bs)" "unat start + Suc (length bs) < 2 ^ 64"
    and src: "src \<noteq> []" "pos + length src \<le> length (drop 16 b @ concat bs)"
  shows "\<exists>b' bs' d. spfs_write_file_extent s start src pos extra =
      Done (int (min (length src) (length b - 16 - pos)), written_header h extra (length src), [], 0,
        (if fe_next h = 0 then 0 else extra), s\<lparr>s_dev := d\<rparr>) \<and>
    d_blocks d start = Some b' \<and> length b' = length b \<and>
    load b' 0 16 = extent_header_bytes (written_header h extra (length src)) \<and>
    run_of_blocks (d_blocks d) (start + 1) bs' \<and> map length bs' = map length bs \<and>
    drop 16 b' @ concat bs' = store (drop 16 b @ concat bs) pos src \<and>
    (\<forall>m. \<not> span start (Suc (length bs)) m \<longrightarrow> d_blocks d m = d_blocks (s_dev s) m)"
proof -
  define n where "n = min (length src) (length b - 16 - pos)"
  define b1 where "b1 = store b (16 + pos) (take n src)"
  define h0 where "h0 = (if fe_next h = 0 \<and> extra \<noteq> 0 then h\<lparr>fe_next := extra\<rparr> else h)"
  define h1 where "h1 = h0\<lparr>fe_length := fe_length h0 + of_nat n\<rparr>"
  define h2 where "h2 = written_header h extra (length src)"
  define s1 where "s1 = fs_put (held s start) start b1"
  define linked where "linked = (fe_next h = 0 \<and> extra \<noteq> 0)"
  obtain p where w: "spfs_do_write b 16 src pos = Done (n, b1, p, drop n src, pos - (length b - 16))"
    using do_write_head [OF b(3), of src pos] by (auto simp: n_def b1_def)
  have n: "n \<le> length src" "n = 0 \<or> 16 + pos + n \<le> length b" by (auto simp: n_def)
  have len: "length b1 = length b" using n by (cases "n = 0") (simp_all add: b1_def)
  have h12: "h1\<lparr>fe_length := fe_length h1 + of_nat (length (drop n src))\<rparr> = h2"
    using n(1) by (simp add: h1_def h2_def h0_def written_header_def of_nat_diff)
  have next_it: "unat (start + 1) = unat start + 1" using cap(2) by (subst unat_add_small) simp_all
  have wide: "unat (start + 1) + length bs < 2 ^ 64" using next_it cap(2) by simp
  have other: "d_blocks (s_dev s1) m = (if m = start then Some b1 else d_blocks (s_dev s) m)" for m
    by (simp add: s1_def fs_put_def held_def)
  have not_in: "\<not> span (start + 1) (length bs) start" by (simp add: span_def next_it)
  have run1: "run_of_blocks (d_blocks (s_dev s1)) (start + 1) bs"
    by (rule run_of_blocks_cong [OF run wide]) (use not_in other in auto)
  have bs_len: "length (concat bs) = length bs * length b"
    using sizes by (induction bs) auto
  have data: "store (drop 16 b @ concat bs) pos src =
      drop 16 b1 @ store (concat bs) (pos - (length b - 16)) (drop n src)"
  proof -
    have "drop n src = drop (length b - 16 - pos) src" "take n src = take (length b - 16 - pos) src"
      by (simp_all add: n_def min_def)
    moreover have "drop 16 b1 = store (drop 16 b) pos (take n src)"
      unfolding b1_def using n b(3) by (intro drop_store_shift) auto
    ultimately show ?thesis using store_append_split [of "drop 16 b" "concat bs" pos src] by simp
  qed
  have loop: "\<exists>bs' d. write_blocks (Suc (length bs)) s1 (start + of_nat (Suc (length bs))) (start + 1) h1
        (drop n src) (pos - (length b - 16)) (linked \<or> 0 < n) =
      Done (Inr True, h2, [], (if drop n src = [] then pos - (length b - 16) else 0), s\<lparr>s_dev := d\<rparr>) \<and>
    run_of_blocks (d_blocks d) (start + 1) bs' \<and> map length bs' = map length bs \<and>
    concat bs' = store (concat bs) (pos - (length b - 16)) (drop n src) \<and>
    (\<forall>m. \<not> span (start + 1) (length bs) m \<longrightarrow> d_blocks d m = d_blocks (s_dev s1) m)"
  proof (cases "drop n src = []")
    case True
    then have "0 < n" "h1 = h2" using src(1) n(1) h12 by auto
    moreover have "s1 = s\<lparr>s_dev := s_dev s1\<rparr>" by (simp add: s1_def fs_put_def held_def)
    ultimately show ?thesis
      using True run1 write_blocks_done [of "Suc (length bs)" s1 _ "start + 1" h1 "pos - (length b - 16)" "linked \<or> 0 < n"]
      by (intro exI [of _ bs] exI [of _ "s_dev s1"]) simp
  next
    case False
    have sz: "\<forall>c\<in>set bs. length c = unat (sbi_block_size s1)"
      using sizes by (simp add: s1_def fs_put_def held_def)
    have stop: "start + of_nat (Suc (length bs)) = start + 1 + of_nat (length bs)" by simp
    have "length (drop n src) = length src - n" by simp
    then have room: "pos - (length b - 16) + length (drop n src) \<le> length (concat bs)"
      using src(2) False by (auto simp: n_def)
    have dev: "s1\<lparr>s_dev := d\<rparr> = s\<lparr>s_dev := d\<rparr>" for d by (simp add: s1_def fs_put_def held_def)
    show ?thesis
      using write_blocks_overlay [OF run1 sz wide stop _ False room, of "Suc (length bs)" h1 "linked \<or> 0 < n"]
        False h12 by (simp add: dev)
  qed
  then obtain bs' d where l: "write_blocks (Suc (length bs)) s1 (start + of_nat (Suc (length bs))) (start + 1) h1
        (drop n src) (pos - (length b - 16)) (linked \<or> 0 < n) =
      Done (Inr True, h2, [], (if drop n src = [] then pos - (length b - 16) else 0), s\<lparr>s_dev := d\<rparr>)"
    and r: "run_of_blocks (d_blocks d) (start + 1) bs'" "map length bs' = map length bs"
      "concat bs' = store (concat bs) (pos - (length b - 16)) (drop n src)"
      "\<forall>m. \<not> span (start + 1) (length bs) m \<longrightarrow> d_blocks d m = d_blocks (s_dev s1) m" by blast
  have zero: "(if drop n src = [] then pos - (length b - 16) else 0) = 0"
    using src(1) by (cases src) (auto simp: n_def)
  define b2 where "b2 = store b1 0 (extent_header_bytes h2)"
  define s2 where "s2 = fs_brelse (fs_dirty (fs_put (s\<lparr>s_dev := d\<rparr>) start b2) start) start"
  have get: "d_blocks d start = Some b1" using r(4) not_in other by simp
  have b2: "length b2 = length b" "drop 16 b2 = drop 16 b1" "load b2 0 16 = extent_header_bytes h2"
    using b(3) len by (simp_all add: b2_def) (simp add: store_def)
  have "fe_capacity h1 = fe_capacity h" by (simp add: h1_def h0_def)
  then have caps1: "unat (fe_capacity h1) = Suc (length bs)" using cap(1) by simp
  have "ucast (fe_capacity h1) = (of_nat (unat (fe_capacity h1)) :: u64)" by simp
  then have caps: "ucast (fe_capacity h1) = (of_nat (Suc (length bs)) :: u64)" by (simp only: caps1)
  have parse: "spfs_parse_file_extent b 0 = Done (Inr (h, 16))"
    using b low by (simp add: spfs_parse_file_extent_bytes)
  have len1: "16 \<le> length b1" using b(3) len by simp
  have got: "fs_get (s\<lparr>s_dev := d\<rparr>) start = Done b1" by (simp add: fs_get_def get)
  have h0: "h0 = (if linked then h\<lparr>fe_next := extra\<rparr> else h)" by (simp add: h0_def linked_def)
  have "spfs_write_file_extent s start src pos extra =
      Done (int n, h2, [], 0, (if linked then 0 else extra), s2)"
    unfolding spfs_write_file_extent_def Let_def fs_bread_held [OF b(1)] parse w bnd_simps
      option.case sum.case prod.case linked_def [symmetric] h0 [symmetric] h1_def [symmetric]
      caps1 caps s1_def [symmetric] l zero got spfs_make_file_extent_eq [OF len1] b2_def [symmetric] s2_def [symmetric]
    by (simp add: s2_def)
  moreover have "(if linked then 0 else extra) = (if fe_next h = 0 then 0 else extra)"
    by (auto simp: linked_def)
  moreover have s2: "s2 = s\<lparr>s_dev := s_dev s2\<rparr>"
      "d_blocks (s_dev s2) m = (if m = start then Some b2 else d_blocks d m)" for m
    by (simp_all add: s2_def fs_put_def fs_dirty_def fs_brelse_def)
  moreover have "unat (start + 1) + length bs' < 2 ^ 64" using wide r(2) by (metis length_map)
  then have "run_of_blocks (d_blocks (s_dev s2)) (start + 1) bs'"
    by (rule run_of_blocks_cong [OF r(1)]) (use not_in r(2) s2(2) in \<open>metis length_map\<close>)
  moreover have "drop 16 b2 @ concat bs' = store (drop 16 b @ concat bs) pos src"
    by (simp add: b2(2) r(3) data)
  moreover have "d_blocks (s_dev s2) m = d_blocks (s_dev s) m" if "\<not> span start (Suc (length bs)) m" for m
    using that r(4) other s2(2) span_Suc [OF cap(2) [unfolded add_Suc_right, THEN Suc_lessD]] by simp
  ultimately show ?thesis
    using b2 r(2) by (intro exI [of _ b2] exI [of _ bs'] exI [of _ "s_dev s2"]) (simp add: n_def h2_def)
qed


section \<open>The bytes of the extent after a write\<close>

lemma drop_take_store:
  assumes "pos \<le> l" and "l + length src \<le> length D"
  shows "drop pos (take (l + length src) (store D pos src)) = src @ take (l - pos) (drop (pos + length src) D)"
proof -
  have "l + length src - pos = length src + (l - pos)" using assms(1) by simp
  then show ?thesis using assms by (simp add: store_def drop_take)
qed

lemma written_header_length:
  "unat (fe_length h) + n < 2 ^ 32 \<Longrightarrow> unat (fe_length (written_header h extra n)) = unat (fe_length h) + n"
  by (simp add: written_header_def unat_word_ariths unat_of_nat)

text \<open>The write as the list of bytes sees it.\<close>

lemma write_extent_stores:
  assumes e: "extent_at (d_blocks (s_dev s)) start (h, b, bs)" and low: "low32 (fe_next h) = fe_next h"
    and sizes: "length b = unat (sbi_block_size s)" "\<forall>c\<in>set bs. length c = unat (sbi_block_size s)"
    and cap: "unat (fe_capacity h) = Suc (length bs)" "unat start + Suc (length bs) < 2 ^ 64"
    and src: "src \<noteq> []" "pos \<le> unat (fe_length h)" "unat (fe_length h) + length src < 2 ^ 32"
      "unat (fe_length h) + length src \<le> length (drop 16 b @ concat bs)"
  shows "\<exists>h' b' bs' s'. spfs_write_file_extent s start src pos extra =
      Done (int (min (length src) (length b - 16 - pos)), h', [], 0, (if fe_next h = 0 then 0 else extra), s') \<and>
    extent_at (d_blocks (s_dev s')) start (h', b', bs') \<and> length bs' = length bs \<and>
    extent_bytes (h', b', bs') =
      take (unat (fe_length h) + length src) (store (drop 16 b @ concat bs) pos src) \<and>
    (\<forall>m. \<not> span start (Suc (length bs)) m \<longrightarrow> d_blocks (s_dev s') m = d_blocks (s_dev s) m)"
proof -
  define D where "D = drop 16 b @ concat bs"
  define l where "l = unat (fe_length h)"
  define h' where "h' = written_header h extra (length src)"
  note parts = e [unfolded extent_at_def prod.case]
  have fits: "pos + length src \<le> length (drop 16 b @ concat bs)" using src(2,4) by linarith
  obtain b' bs' d where w: "spfs_write_file_extent s start src pos extra =
      Done (int (min (length src) (length b - 16 - pos)), h', [], 0,
        (if fe_next h = 0 then 0 else extra), s\<lparr>s_dev := d\<rparr>)"
    and r: "d_blocks d start = Some b'" "length b' = length b" "load b' 0 16 = extent_header_bytes h'"
      "run_of_blocks (d_blocks d) (start + 1) bs'" "map length bs' = map length bs"
      "drop 16 b' @ concat bs' = store D pos src"
      "\<forall>m. \<not> span start (Suc (length bs)) m \<longrightarrow> d_blocks d m = d_blocks (s_dev s) m"
    using write_file_extent_overlay [OF _ _ _ low _ sizes cap src(1) fits, of extra] parts
    unfolding D_def h'_def by blast
  have len: "unat (fe_length h') = l + length src"
    using src(3) by (simp add: h'_def l_def written_header_length)
  have total: "length (drop 16 b' @ concat bs') = length D" unfolding r(6) using fits by (simp add: D_def)
  have at: "extent_at (d_blocks (s_dev (s\<lparr>s_dev := d\<rparr>))) start (h', b', bs')"
    unfolding extent_at_def prod.case total len
    using r(1-4) src(4) parts by (simp add: l_def D_def)
  have bytes: "extent_bytes (h', b', bs') = take (l + length src) (store D pos src)"
    by (simp only: extent_bytes_def prod.case r(6) len)
  have "length bs' = length bs" using r(5) by (metis length_map)
  then show ?thesis
    using w at r(7) by (intro exI [of _ h'] exI [of _ b'] exI [of _ bs'] exI [of _ "s\<lparr>s_dev := d\<rparr>"])
      (simp add: bytes l_def D_def)
qed

text \<open>
  C12: Writing at a position inside an extent that has room, over all the blocks the bytes span:
  the extent then holds its old bytes with the source stored at the position, its length has
  grown by the length of the source, also where old bytes were overwritten; reading from the
  position returns the source and behind it as many bytes as there were from there on; no block
  outside the extent has changed. The code counts only the bytes that went into the first block.
\<close>

theorem write_extent_refines_store:
  assumes e: "extent_at (d_blocks (s_dev s)) start (h, b, bs)" and low: "low32 (fe_next h) = fe_next h"
    and sizes: "length b = unat (sbi_block_size s)" "\<forall>c\<in>set bs. length c = unat (sbi_block_size s)"
    and cap: "unat (fe_capacity h) = Suc (length bs)" "unat start + Suc (length bs) < 2 ^ 64"
    and src: "src \<noteq> []" "pos \<le> unat (fe_length h)" "unat (fe_length h) + length src < 2 ^ 32"
      "unat (fe_length h) + length src \<le> length (drop 16 b @ concat bs)"
    and read: "length bs < fuel" "unat (fe_length h) + length src \<le> in_len"
  shows "\<exists>h' b' bs' s' n next' i. spfs_write_file_extent s start src pos extra =
      Done (int (min (length src) (length b - 16 - pos)), h', [], 0, (if fe_next h = 0 then 0 else extra), s') \<and>
    extent_at (d_blocks (s_dev s')) start (h', b', bs') \<and>
    extent_bytes (h', b', bs') =
      take (unat (fe_length h) + length src) (store (drop 16 b @ concat bs) pos src) \<and>
    spfs_read_file_extent fuel s' nx start [] in_len pos =
      Done (n, next', src @ take (unat (fe_length h) - pos) (drop (pos + length src) (drop 16 b @ concat bs)), i, 0, s') \<and>
    (\<forall>m. \<not> span start (Suc (length bs)) m \<longrightarrow> d_blocks (s_dev s') m = d_blocks (s_dev s) m)"
proof -
  define D where "D = drop 16 b @ concat bs"
  define l where "l = unat (fe_length h)"
  obtain h' b' bs' s' where w: "spfs_write_file_extent s start src pos extra =
      Done (int (min (length src) (length b - 16 - pos)), h', [], 0, (if fe_next h = 0 then 0 else extra), s')"
    and at: "extent_at (d_blocks (s_dev s')) start (h', b', bs')" "length bs' = length bs"
    and bytes: "extent_bytes (h', b', bs') = take (l + length src) (store D pos src)"
    and frame: "\<forall>m. \<not> span start (Suc (length bs)) m \<longrightarrow> d_blocks (s_dev s') m = d_blocks (s_dev s) m"
    using write_extent_stores [OF e low sizes cap src, of extra] unfolding l_def D_def by blast
  have rest: "drop pos (extent_bytes (h', b', bs')) = src @ take (l - pos) (drop (pos + length src) D)"
    unfolding bytes using src(2,4) by (intro drop_take_store) (simp_all add: l_def D_def)
  have "length (extent_bytes (h', b', bs')) = l + length src"
    unfolding bytes using src(2,4) by (simp add: l_def D_def)
  then have len: "length (drop pos (extent_bytes (h', b', bs'))) \<le> in_len" "pos - length (extent_bytes (h', b', bs')) = 0"
    using read(2) src(2) by (simp_all add: l_def)
  have bs': "length bs' < fuel" using read(1) at(2) by simp
  obtain n next' i where rd: "spfs_read_file_extent fuel s' nx start [] in_len pos =
      Done (n, next', src @ take (l - pos) (drop (pos + length src) D), i, 0, s')"
    using read_file_extent_any [OF at(1) bs' len(1), of nx "[]"] rest len(2) by simp
  show ?thesis
    by (intro exI conjI) (rule w, rule at(1), rule bytes [unfolded l_def D_def],
        rule rd [unfolded l_def D_def], rule frame)
qed

text \<open>An extent of two blocks of 20 bytes with "ABC" in it; "DEFGH" goes across its blocks.\<close>

definition two_block_extent :: extent where
  "two_block_extent = (\<lparr>fe_next = 0, fe_capacity = 2, fe_length = 3\<rparr>,
     extent_header_bytes \<lparr>fe_next = 0, fe_capacity = 2, fe_length = 3\<rparr> @ [65, 66, 67, 0], [replicate 20 0])"

definition two_block_fs :: spfs where
  "two_block_fs = dir_sample_fs\<lparr>sbi_block_size := 20, s_dev := \<lparr>d_blocks =
     [3 \<mapsto> extent_header_bytes \<lparr>fe_next = 0, fe_capacity = 2, fe_length = 3\<rparr> @ [65, 66, 67, 0],
      4 \<mapsto> replicate 20 0], d_dirty = {}, d_refs = \<lambda>_. 0\<rparr>\<rparr>"

theorem write_extent_refines_store_witness:
  "\<exists>h' s' e n next' i. spfs_write_file_extent two_block_fs 3 [68, 69, 70, 71, 72] 3 0 = Done (1, h', [], 0, 0, s') \<and>
    extent_at (d_blocks (s_dev s')) 3 e \<and> extent_bytes e = [65, 66, 67, 68, 69, 70, 71, 72] \<and>
    spfs_read_file_extent 2 s' 0 3 [] 10 3 = Done (n, next', [68, 69, 70, 71, 72], i, 0, s')"
proof -
  have "extent_at (d_blocks (s_dev two_block_fs)) 3 two_block_extent"
    by (simp add: extent_at_def two_block_extent_def two_block_fs_def load_def)
  note at = this [unfolded two_block_extent_def]
  define b where "b = extent_header_bytes \<lparr>fe_next = 0, fe_capacity = 2, fe_length = 3\<rparr> @ [65, 66, 67, 0 :: byte]"
  have D: "drop 16 b @ concat [replicate 20 0] = [65, 66, 67, 0] @ replicate 20 0" by (simp add: b_def)
  have len: "length b = 20" by (simp add: b_def)
  have bytes: "take 8 (store ([65, 66, 67, 0] @ replicate 20 0) 3 [68, 69, 70, 71, 72]) =
      [65, 66, 67, 68, 69, 70, 71, 72 :: byte]" by (simp add: store_def numeral_eq_Suc)
  show ?thesis
    using write_extent_refines_store [OF at [folded b_def], of "[68, 69, 70, 71, 72]" 3 2 10 0 0]
    unfolding D using bytes by (simp add: low32_def two_block_fs_def len del: append.simps) metis
qed

end
