(* ===== verification/File_Bounds.thy ===== *)
theory File_Bounds
  imports File_Blocks Evolve_Ops
begin

text \<open>
  Bounds on what a write touches and on what \<open>spfs_ensure_capacity\<close> reserves: no layout of the
  disk is assumed, only what the header in the first block says.
\<close>

section \<open>What the loop touches\<close>

lemma write_block_Done:
  assumes "write_block s it h src pos = Done (Some (n, h', src', pos', s'))"
  shows "n \<le> length src" and "src' = drop n src" and "h' = h\<lparr>fe_length := fe_length h + of_nat n\<rparr>"
    and "m \<noteq> it \<Longrightarrow> d_blocks (s_dev s') m = d_blocks (s_dev s) m"
proof -
  obtain b where b: "d_blocks (s_dev s) it = Some b"
    using assms by (cases "d_blocks (s_dev s) it") (simp_all add: write_block_def fs_bread_None)
  obtain b' p where w: "spfs_do_write b 0 src pos = Done (n, b', p, src', pos')"
    and s': "s' = fs_brelse (if 0 < n then fs_dirty (fs_put (held s it) it b') it else fs_put (held s it) it b') it"
    and h': "h' = h\<lparr>fe_length := fe_length h + of_nat n\<rparr>"
    using assms by (auto simp: write_block_def fs_bread_held [OF b] bnd_Done_iff Let_def)
  show "n \<le> length src" and "src' = drop n src" using spfs_do_write_Done(2,3) [OF w] by simp_all
  show "h' = h\<lparr>fe_length := fe_length h + of_nat n\<rparr>" by (rule h')
  show "m \<noteq> it \<Longrightarrow> d_blocks (s_dev s') m = d_blocks (s_dev s) m"
    by (simp add: s' fs_put_def fs_dirty_def fs_brelse_def held_def)
qed

lemma write_blocks_bounds:
  assumes "write_blocks fuel s stop it h src pos dirty = Done (x, h', src', pos', s')"
  shows "(\<exists>n\<le>length src. src' = drop n src \<and> h' = h\<lparr>fe_length := fe_length h + of_nat n\<rparr>) \<and>
    (\<not> (it \<le> m \<and> m < stop) \<longrightarrow> d_blocks (s_dev s') m = d_blocks (s_dev s) m)"
  using assms
proof (induction fuel arbitrary: s it h src pos dirty)
  case 0
  then show ?case by (auto split: if_splits intro: exI [of _ 0])
next
  case (Suc fuel)
  show ?case
  proof (cases "src \<noteq> [] \<and> it < stop")
    case False
    then show ?thesis using Suc.prems by (auto intro: exI [of _ 0])
  next
    case True
    have "unat (it + 1) = unat it + 1"
      using True u64_bound [of stop] by (subst unat_add_small) (simp_all add: word_less_nat_alt)
    then have within: "\<not> (it + 1 \<le> m \<and> m < stop) \<and> m \<noteq> it" if "\<not> (it \<le> m \<and> m < stop)"
      using that True by (auto simp: word_less_nat_alt word_le_nat_alt)
    show ?thesis
    proof (cases "spfs_in_sector (sbi_block_size s) pos")
      case False
      then show ?thesis using Suc.IH [of s "it + 1" h src "pos - unat (sbi_block_size s)" dirty]
          Suc.prems True within by (simp only: write_blocks.simps if_True if_False simp_thms) blast
    next
      case sector: True
      obtain w where w: "write_block s it h src pos = Done w"
        using Suc.prems True sector by (auto simp: bnd_Done_iff)
      show ?thesis
      proof (cases w)
        case None
        then show ?thesis using Suc.prems True sector w by (auto intro: exI [of _ 0])
      next
        case (Some q)
        obtain n h1 src1 pos1 s1 where q: "q = (n, h1, src1, pos1, s1)" by (cases q)
        note d = write_block_Done [OF w [unfolded Some q]]
        have "write_blocks fuel s1 stop (it + 1) h1 src1 pos1 (dirty \<or> 0 < n) = Done (x, h', src', pos', s')"
          using Suc.prems True sector w Some q by simp
        from Suc.IH [OF this] obtain k where k: "k \<le> length src1" "src' = drop k src1"
            "h' = h1\<lparr>fe_length := fe_length h1 + of_nat k\<rparr>"
          and m: "\<not> (it + 1 \<le> m \<and> m < stop) \<longrightarrow> d_blocks (s_dev s') m = d_blocks (s_dev s1) m" by blast
        have "n + k \<le> length src \<and> src' = drop (n + k) src \<and>
            h' = h\<lparr>fe_length := fe_length h + of_nat (n + k)\<rparr>"
          unfolding k(3) unfolding k(2) d(2,3) using k(1) d(1) by (simp add: d(2) add.assoc add.commute [of k n])
        moreover have "d_blocks (s_dev s') m = d_blocks (s_dev s) m" if "\<not> (it \<le> m \<and> m < stop)"
          using m d(4) [of m] within [OF that] by simp
        ultimately show ?thesis by (intro conjI exI [of _ "n + k"] impI) simp_all
      qed
    qed
  qed
qed

text \<open>
  C14: Whatever the source, the position and the rest of the disk, a write to an extent changes at
  most its first block and the blocks below its capacity, whose sizes stay; it consumes a prefix
  of the source, and the length in the header it returns has grown by exactly the bytes consumed.
\<close>

theorem write_extent_stays_inside:
  assumes "spfs_write_file_extent s start src pos extra = Done (res, h', src', pos', extra', s')"
    and "d_blocks (s_dev s) start = Some b" and "spfs_parse_file_extent b 0 = Done (Inr (h, p))"
  shows "(\<forall>m. d_blocks (s_dev s') m \<noteq> d_blocks (s_dev s) m \<longrightarrow>
      m = start \<or> start + 1 \<le> m \<and> m < start + ucast (fe_capacity h)) \<and>
    map_option length \<circ> d_blocks (s_dev s') = map_option length \<circ> d_blocks (s_dev s) \<and>
    (\<exists>n\<le>length src. src' = drop n src \<and> fe_length h' = fe_length h + of_nat n) \<and>
    fe_capacity h' = fe_capacity h"
proof -
  obtain n b1 p1 src1 pos1 linked h0 x s3 where w: "spfs_do_write b p src pos = Done (n, b1, p1, src1, pos1)"
    and h0: "h0 = (if linked then h\<lparr>fe_next := extra\<rparr> else h)"
    and l: "write_blocks (unat (fe_capacity h)) (fs_put (held s start) start b1) (start + ucast (fe_capacity h))
      (start + 1) (h0\<lparr>fe_length := fe_length h + of_nat n\<rparr>) src1 pos1 (linked \<or> 0 < n) = Done (x, h', src', pos', s3)"
    and s': "s' = s3 \<or> s' = fs_brelse s3 start \<or> (\<exists>c c' q. d_blocks (s_dev s3) start = Some c \<and>
      spfs_make_file_extent c 0 h' = Done (0, c', q) \<and> s' = fs_brelse (fs_dirty (fs_put s3 start c') start) start)"
    using write_file_extent_parts [OF assms] by metis
  note bounds = write_blocks_bounds [OF l]
  note d = spfs_do_write_Done(2,3) [OF w]
  obtain k where k: "k \<le> length src1" "src' = drop k src1"
      "h' = h0\<lparr>fe_length := fe_length h + of_nat n + of_nat k\<rparr>"
    using bounds by auto
  have taken: "n + k \<le> length src" "src' = drop (n + k) src" "fe_length h' = fe_length h + of_nat (n + k)"
    using k d by (simp_all add: add.commute add.assoc)
  have cap: "fe_capacity h' = fe_capacity h" using k(3) by (simp add: h0)
  have "d_blocks (s_dev s') m = d_blocks (s_dev s) m"
    if "m \<noteq> start" "\<not> (start + 1 \<le> m \<and> m < start + ucast (fe_capacity h))" for m
  proof -
    have "d_blocks (s_dev s') m = d_blocks (s_dev s3) m"
      using s' that(1) by (auto simp: fs_put_def fs_dirty_def fs_brelse_def)
    also have "\<dots> = d_blocks (s_dev (fs_put (held s start) start b1)) m" using bounds that(2) by blast
    finally show ?thesis using that(1) by (simp add: fs_put_def held_def)
  qed
  moreover have "map_option length \<circ> d_blocks (s_dev s') = map_option length \<circ> d_blocks (s_dev s)"
    using write_file_extent_evolves [OF assms(1)] by (simp add: evolves_def fun_eq_iff)
  ultimately show ?thesis using taken cap by blast
qed


theorem write_extent_stays_inside_witness:
  "\<exists>h s'. spfs_write_file_extent empty_extent 3 [72, 105] 0 0 = Done (2, h, [], 0, 0, s') \<and>
    d_blocks (s_dev s') 4 = d_blocks (s_dev empty_extent) 4 \<and> fe_length h = 2"
proof -
  let ?h = "\<lparr>fe_next = 0, fe_capacity = 1, fe_length = 0\<rparr>"
  have b: "d_blocks (s_dev empty_extent) 3 = Some (extent_header_bytes ?h @ replicate 8 0)"
    by (simp add: empty_extent_def)
  have hb: "load (extent_header_bytes ?h @ replicate 8 0) 0 16 = extent_header_bytes ?h"
    by (simp add: load_def)
  have low: "low32 (fe_next ?h) = fe_next ?h" by (simp add: low32_def)
  obtain h s' where w: "spfs_write_file_extent empty_extent 3 [72, 105] 0 0 = Done (2, h, [], 0, 0, s')"
    using spfs_write_file_extent_head [OF b hb low, of 0 "[72, 105]" 0] by simp
  have parse: "spfs_parse_file_extent (extent_header_bytes ?h @ replicate 8 0) 0 = Done (Inr (?h, 16))"
    using hb low by (simp add: spfs_parse_file_extent_bytes)
  note t = write_extent_stays_inside [OF w b parse]
  have same: "d_blocks (s_dev s') 4 = d_blocks (s_dev empty_extent) 4" using t by (auto simp: word_less_nat_alt)
  from t obtain n where "n \<le> length [72, 105 :: byte]" "[] = drop n [72, 105 :: byte]"
    and len: "fe_length h = fe_length ?h + of_nat n" by blast
  then have "n = 2" by simp
  then have "fe_length h = 2" using len by simp
  then show ?thesis using w same by blast
qed

section \<open>The capacity that is reserved\<close>

lemma unat_narrow: "unat (x :: u64) < 2 ^ 32 \<Longrightarrow> unat (ucast x :: u32) = unat x"
  by (simp add: unsigned_ucast_eq take_bit_eq_mod)

text \<open>The extra blocks cover what is missing and the header, with less than a block to spare.\<close>

lemma spfs_calc_extra_blocks_bounds:
  fixes block_size :: u32 and in_pos in_len :: u64
  assumes run: "spfs_calc_extra_blocks block_size inode in_pos in_len = Done n"
    and less: "unat (in_capacity inode) < unat in_pos + unat in_len"
    and small: "unat in_pos + unat in_len + 16 + unat block_size < 2 ^ 32"
  defines "need \<equiv> unat in_pos + unat in_len - unat (in_capacity inode) + 16"
  shows "need \<le> unat n * unat block_size" and "unat n * unat block_size < need + unat block_size"
proof -
  let ?bs = "unat block_size"
  let ?c = "unat (in_capacity inode)"
  have e: "unat (in_pos + in_len) = unat in_pos + unat in_len"
    using small by (subst unat_add_small) simp_all
  have d: "unat (in_pos + in_len - ucast (in_capacity inode)) = unat in_pos + unat in_len - ?c"
    using less e by (simp add: unat_sub word_le_nat_alt)
  then have bytes: "unat (in_pos + in_len - ucast (in_capacity inode) + spfs_sizeof_file_extent_header) = need"
    using small by (subst unat_add_small) (simp_all add: spfs_sizeof_file_extent_header_def need_def)
  have run2: "bnd (blocks_for_loop ?bs need 0) (\<lambda>n. Done (of_nat n)) = Done n"
    using run less e bytes by (auto simp: spfs_calc_extra_blocks_def Let_def word_le_nat_alt spfs_blocks_for_def)
  have bs: "0 < ?bs"
  proof (rule ccontr)
    assume "\<not> 0 < ?bs"
    then have "blocks_for_loop ?bs need 0 = Crash NoFuel"
      by (subst blocks_for_loop.simps) (simp add: need_def)
    then show False using run2 by simp
  qed
  define q where "q = (need + ?bs - 1) div ?bs"
  have q: "q * ?bs \<le> need + ?bs - 1" "need + ?bs - 1 < q * ?bs + ?bs"
    using bs unfolding q_def by (simp, metis add.commute dividend_less_times_div mult.commute)
  have "q \<le> q * ?bs" using bs by simp
  moreover have "need + ?bs < 2 ^ 64" using small by (simp add: need_def)
  ultimately have "q < 2 ^ 64" using q(1) by (meson diff_le_self le_less_trans)
  moreover have "n = of_nat q" using run2 bs by (simp add: blocks_for_loop_eq q_def)
  ultimately have "unat n = q" by (simp add: unat_of_nat)
  then show "need \<le> unat n * ?bs" and "unat n * ?bs < need + ?bs" using q bs by simp_all
qed

text \<open>
  C31: After \<open>spfs_ensure_capacity\<close> succeeded the capacity of the inode takes the bytes asked for,
  with less than one block to spare when it grew, as long as the numbers stay below 32 bits; an
  inode whose capacity grew has a first extent.
\<close>

theorem ensure_capacity_reserves:
  assumes run: "spfs_ensure_capacity fuel env s inode in_pos in_len = Done (0, extra, inode', s')"
    and small: "unat in_pos + unat in_len + 16 + unat (sbi_block_size s) < 2 ^ 32"
  shows "unat in_pos + unat in_len \<le> unat (in_capacity inode') \<and>
    (inode' = inode \<and> s' = s \<and> extra = 0 \<or>
      in_start inode' \<noteq> 0 \<and> unat (in_capacity inode') < unat in_pos + unat in_len + unat (sbi_block_size s))"
proof -
  let ?bs = "unat (sbi_block_size s)"
  obtain n where n: "spfs_calc_extra_blocks (sbi_block_size s) inode in_pos in_len = Done n"
    using run by (auto simp: spfs_ensure_capacity_def bnd_Done_iff)
  have sum: "unat (in_pos + in_len) = unat in_pos + unat in_len"
    using small by (subst unat_add_small) simp_all
  show ?thesis
  proof (cases "unat (in_capacity inode) < unat in_pos + unat in_len")
    case False
    then have "n = 0" using n sum by (simp add: spfs_calc_extra_blocks_def Let_def word_le_nat_alt)
    then show ?thesis using run n False by (auto simp: spfs_ensure_capacity_def)
  next
    case True
    note b = spfs_calc_extra_blocks_bounds [OF n True small]
    have nz: "n \<noteq> 0" using b(1) by (metis add_is_0 le_zero_eq mult_zero_left unat_0 zero_neq_numeral)
    obtain e s1 where e: "spfs_file_extent_alloc s n = Done (e, s1)" "e \<noteq> 0"
      using run n nz by (auto simp: spfs_ensure_capacity_def bnd_Done_iff EIO_def split: if_splits)
    have bytes: "spfs_file_extent_data_bytes (sbi_block_size s1) n = Done (n * ucast (sbi_block_size s1) - 16)"
      using nz by (simp add: spfs_file_extent_data_bytes_def spfs_sizeof_file_extent_header_def)
    have "sbi_block_size s1 = sbi_block_size s"
      using file_extent_alloc_evolves [OF e(1)] by (simp add: evolves_def)
    then have res: "in_capacity inode' = ucast (ucast (in_capacity inode) + (n * ucast (sbi_block_size s) - 16) :: u64) \<and>
        in_start inode' \<noteq> 0"
      using run n nz e bytes by (cases "in_start inode = 0") (auto simp: spfs_ensure_capacity_def bnd_Done_iff Let_def)
    have "unat (n * ucast (sbi_block_size s)) = unat n * ?bs"
      using b small by (subst unat_mult_lem [THEN iffD1]) simp_all
    then have "unat (ucast (in_capacity inode) + (n * ucast (sbi_block_size s) - 16) :: u64) =
        unat (in_capacity inode) + (unat n * ?bs - 16)"
      using b small True by (subst unat_add_small; subst unat_sub) (simp_all add: word_le_nat_alt)
    moreover have "unat (in_capacity inode) + (unat n * ?bs - 16) < 2 ^ 32" using b(2) small True by simp
    ultimately have "unat (in_capacity inode') = unat (in_capacity inode) + (unat n * ?bs - 16)"
      using res by (simp only: unat_narrow)
    moreover define k where "k = unat n * ?bs"
    ultimately have "unat in_pos + unat in_len \<le> unat (in_capacity inode') \<and>
        unat (in_capacity inode') < unat in_pos + unat in_len + ?bs"
      using b True unfolding k_def [symmetric] by linarith
    then show ?thesis using res by simp
  qed
qed


text \<open>An empty file with number 7 asked to take 600 bytes in blocks of 512: two blocks at 10.\<close>

definition grow_fs :: spfs where
  "grow_fs = sample_fs\<lparr>s_dev := \<lparr>d_blocks = [1 \<mapsto> sample_search_node, 10 \<mapsto> replicate 512 0, 5 \<mapsto> sample_block],
     d_dirty = {}, d_refs = \<lambda>_. 0\<rparr>, sbi_free_list := \<lparr>fl_blocks = 10, fl_root = [\<lparr>fn_start = 2, fn_blocks = 10\<rparr>]\<rparr>\<rparr>"

lemma grow_alloc:
  "\<exists>s1. spfs_file_extent_alloc grow_fs 2 = Done (10, s1) \<and> located 1 s1 7 5 \<and>
    d_blocks (s_dev s1) 5 = Some sample_block \<and> sbi_block_size s1 = 512"
proof -
  let ?s = "grow_fs\<lparr>sbi_free_list := \<lparr>fl_blocks = 8, fl_root = [\<lparr>fn_start = 2, fn_blocks = 8\<rparr>]\<rparr>\<rparr>"
  let ?b = "store (replicate 512 0) 0 (extent_header_bytes \<lparr>fe_next = 0, fe_capacity = 2, fe_length = 0\<rparr>)"
  have a: "fs_alloc grow_fs 2 = (10, ?s)"
    by (simp add: fs_alloc_def spfs_free_alloc_def grow_fs_def sample_fs_def)
  have b: "d_blocks (s_dev ?s) 10 = Some (replicate 512 0)" by (simp add: grow_fs_def)
  have "spfs_file_extent_alloc grow_fs 2 = Done (10, fs_dirty (fs_put ?s 10 ?b) 10)"
    unfolding spfs_file_extent_alloc_def a Let_def prod.case fs_bread_held [OF b] option.case
    by (simp add: spfs_make_file_extent_eq)
  then show ?thesis
    by (simp add: located_def node_path_def grow_fs_def sample_fs_def fs_put_def fs_dirty_def sample_step)
qed

lemma grow_ensure:
  "\<exists>s'. spfs_ensure_capacity 1 sample_env grow_fs sample_inode 0 600 =
    Done (0, 0, sample_inode\<lparr>in_start := 10, in_capacity := 1008\<rparr>, s')"
proof -
  define cur where "cur = inode_on_wire (\<lambda>_. 9) sample_inode (e_cur sample_env)"
  let ?ctx = "\<lparr>ms_start = 10, ms_capacity = 1008\<rparr>"
  obtain s1 where s1: "spfs_file_extent_alloc grow_fs 2 = Done (10, s1)" "located 1 s1 7 5"
    "d_blocks (s_dev s1) 5 = Some sample_block" "sbi_block_size s1 = 512" using grow_alloc by blast
  have p: "spfs_inode_parse sample_block (e_cur sample_env) = Done (Inr cur)" by (simp add: cur_def sample_parse)
  have cb: "spfs_modify_start_cb ?ctx cur = Done (True, ?ctx, cur\<lparr>in_start := 10, in_capacity := 1008\<rparr>)"
    by (simp add: spfs_modify_start_cb_def cur_def inode_on_wire_def S_ISREG_def sample_inode_def)
  have len: "294 \<le> length sample_block" by (simp add: sample_parse)
  obtain s' where m: "spfs_btree_modify 1 sample_env s1 7 ?ctx spfs_modify_start_cb = Done (0, ?ctx, s')"
    using spfs_btree_modify_spec [where cb = spfs_modify_start_cb, OF s1(2) _ s1(3) len p cb] by simp
  have "spfs_calc_extra_blocks 512 sample_inode 0 600 = Done 2"
    by (simp add: spfs_calc_extra_blocks_def Let_def sample_inode_def spfs_sizeof_file_extent_header_def
        spfs_blocks_for_def blocks_for_loop_eq)
  then show ?thesis
    using s1 m by (simp add: spfs_ensure_capacity_def spfs_file_extent_data_bytes_def
        spfs_sizeof_file_extent_header_def Let_def sample_inode_def grow_fs_def sample_fs_def)
qed

theorem ensure_capacity_reserves_witness:
  "\<exists>s'. spfs_ensure_capacity 1 sample_env grow_fs sample_inode 0 600 =
      Done (0, 0, sample_inode\<lparr>in_start := 10, in_capacity := 1008\<rparr>, s') \<and> 600 \<le> (1008 :: nat) \<and> 1008 < (600 + 512 :: nat)"
proof -
  obtain s' where w: "spfs_ensure_capacity 1 sample_env grow_fs sample_inode 0 600 =
      Done (0, 0, sample_inode\<lparr>in_start := 10, in_capacity := 1008\<rparr>, s')" using grow_ensure by blast
  show ?thesis
    using ensure_capacity_reserves [OF w] w by (auto simp: grow_fs_def sample_fs_def)
qed

end
