(* ===== verification/Write_Call.thy ===== *)
theory Write_Call
  imports File_Bounds
begin

text \<open>
  What a call of \<open>spfs_write\<close> does to a file of one extent that has room: the bytes are on the
  disk whatever the call reports.
\<close>

section \<open>No growth\<close>

lemma ensure_capacity_room:
  assumes "pos + len \<le> unat (in_capacity inode)"
  shows "spfs_ensure_capacity fuel env s inode (of_nat pos) (of_nat len) = Done (0, 0, inode, s)"
proof -
  have small: "pos + len < 2 ^ 64" using assms u32_bound [of "in_capacity inode"] by simp
  then have "unat (of_nat pos + of_nat len :: u64) = pos + len"
    by (simp add: unat_word_ariths unat_of_nat)
  then have "(of_nat pos + of_nat len :: u64) \<le> ucast (in_capacity inode)"
    using assms by (simp add: word_le_nat_alt)
  then have "spfs_calc_extra_blocks (sbi_block_size s) inode (of_nat pos) (of_nat len) = Done 0"
    by (simp add: spfs_calc_extra_blocks_def)
  then show ?thesis by (simp add: spfs_ensure_capacity_def)
qed

section \<open>Property\<close>

text \<open>
  C34: A write to a file of one extent that has room stores the bytes at the position, which is
  never behind the size of the file, and the extent grows by them; but when any of them went into
  the first block the call returns \<open>-EIO\<close> with the mutex of the inode locked, and otherwise it
  reports 0 bytes: in neither case does the caller learn that its data is on the disk.
\<close>

theorem write_lands_unreported:
  fixes p :: nat and inode :: spfs_inode
  defines "pos \<equiv> min p (unat (i_size inode))"
  assumes inode: "S_ISREG (i_mode inode)" "\<not> i_lock inode" "in_start inode \<noteq> 0"
    and e: "extent_at (d_blocks (s_dev s)) (in_start inode) (h, b, bs)" and low: "low32 (fe_next h) = fe_next h"
    and sizes: "length b = unat (sbi_block_size s)" "\<forall>c\<in>set bs. length c = unat (sbi_block_size s)"
    and cap: "unat (fe_capacity h) = Suc (length bs)" "unat (in_start inode) + Suc (length bs) < 2 ^ 64"
    and src: "src \<noteq> []" "pos \<le> unat (fe_length h)" "unat (fe_length h) + length src < 2 ^ 32"
      "unat (fe_length h) + length src \<le> length (drop 16 b @ concat bs)"
    and room: "pos + length src \<le> unat (in_capacity inode)"
  shows "\<exists>h' b' bs' s'. spfs_write (Suc fuel) tfuel env False s inode src (Some p) =
      (if pos < length b - 16 then Done (- EIO, inode\<lparr>i_lock := True\<rparr>, Some pos, s')
       else Done (0, inode, Some pos, s')) \<and>
    extent_at (d_blocks (s_dev s')) (in_start inode) (h', b', bs') \<and>
    extent_bytes (h', b', bs') = take (unat (fe_length h) + length src) (store (drop 16 b @ concat bs) pos src)"
proof -
  obtain h' b' bs' s' where w: "spfs_write_file_extent s (in_start inode) src pos 0 =
      Done (int (min (length src) (length b - 16 - pos)), h', [], 0, 0, s')"
    and at: "extent_at (d_blocks (s_dev s')) (in_start inode) (h', b', bs')"
      "extent_bytes (h', b', bs') = take (unat (fe_length h) + length src) (store (drop 16 b @ concat bs) pos src)"
    using write_extent_stores [OF e low sizes cap src, of 0] by auto
  let ?n = "min (length src) (length b - 16 - pos)"
  have zero: "?n = 0 \<longleftrightarrow> \<not> pos < length b - 16" using src(1) by (cases src) (auto simp: min_def)
  have loop: "write_extents (Suc fuel) s (in_start inode) src pos 0 0 =
      (if pos < length b - 16 then Done (Inl (- EIO), [], 0, s') else Done (Inr 0, [], 0, s'))"
    using inode(3) zero by (auto simp: w)
  have ens: "spfs_ensure_capacity tfuel env s (inode\<lparr>i_lock := True\<rparr>) (of_nat pos) (of_nat (length src)) =
      Done (0, 0, inode\<lparr>i_lock := True\<rparr>, s)"
    using room by (intro ensure_capacity_room) simp
  have unlock: "mutex_unlock (inode\<lparr>i_lock := True, i_size := i_size inode\<rparr>) = inode"
    using inode(2) by (simp add: mutex_unlock_def)
  have "spfs_write (Suc fuel) tfuel env False s inode src (Some p) =
      (if pos < length b - 16 then Done (- EIO, inode\<lparr>i_lock := True\<rparr>, Some pos, s')
       else Done (0, inode, Some pos, s'))"
    unfolding spfs_write_unfold [OF src(1) inode(1,2)] Let_def pos_def [symmetric] ens
    using loop unlock by (simp del: write_extents.simps)
  then show ?thesis using at by blast
qed


text \<open>The file of \<open>two_block_fs\<close>, "ABC" of size 3, and "DEFGH" written at its end.\<close>

definition abc_inode :: spfs_inode where
  "abc_inode = file_sample\<lparr>i_size := 3\<rparr>"

theorem write_lands_unreported_witness:
  "\<exists>e s'. spfs_write 1 0 sample_env False two_block_fs abc_inode [68, 69, 70, 71, 72] (Some 9) =
      Done (- EIO, abc_inode\<lparr>i_lock := True\<rparr>, Some 3, s') \<and>
    extent_at (d_blocks (s_dev s')) 3 e \<and> extent_bytes e = [65, 66, 67, 68, 69, 70, 71, 72]"
proof -
  define b where "b = extent_header_bytes \<lparr>fe_next = 0, fe_capacity = 2, fe_length = 3\<rparr> @ [65, 66, 67, 0 :: byte]"
  have at: "extent_at (d_blocks (s_dev two_block_fs)) 3 (\<lparr>fe_next = 0, fe_capacity = 2, fe_length = 3\<rparr>, b, [replicate 20 0])"
    by (simp add: extent_at_def two_block_fs_def load_def b_def)
  have D: "drop 16 b @ concat [replicate 20 0] = [65, 66, 67, 0] @ replicate 20 0" by (simp add: b_def)
  have len: "length b = 20" by (simp add: b_def)
  have bytes: "take 8 (store ([65, 66, 67, 0] @ replicate 20 0) 3 [68, 69, 70, 71, 72]) =
      [65, 66, 67, 68, 69, 70, 71, 72 :: byte]" by (simp add: store_def numeral_eq_Suc)
  have inode: "S_ISREG (i_mode abc_inode)" "\<not> i_lock abc_inode" "in_start abc_inode = 3" "i_size abc_inode = 3"
    "in_capacity abc_inode = 8" by (simp_all add: abc_inode_def file_sample_def S_ISREG_def)
  show ?thesis
    using write_lands_unreported [where inode = abc_inode and p = 9 and s = two_block_fs and b = b and
        bs = "[replicate 20 0]" and h = "\<lparr>fe_next = 0, fe_capacity = 2, fe_length = 3\<rparr>" and
        src = "[68, 69, 70, 71, 72]" and fuel = 0 and tfuel = 0 and env = sample_env] at
    unfolding D using bytes
    by (simp add: inode low32_def two_block_fs_def len del: append.simps)
qed

end
