(* ===== verification/Fuel.thy ===== *)
theory Fuel
  imports Vfs_Laws "HOL-Library.Product_Order"
begin

text \<open>
  The loops that may not end carry fuel, which the code does not have. A result that is reached
  with some fuel is the result with any larger one: running out is the only thing fuel does.
  Outcomes are ordered by "ran out, or equal"; every operation is monotone in its fuel.
\<close>

section \<open>The order of outcomes\<close>

instantiation outcome :: (type) order
begin

definition less_eq_outcome :: "'a outcome \<Rightarrow> 'a outcome \<Rightarrow> bool" where
  "less_eq_outcome m m' \<longleftrightarrow> m = Crash NoFuel \<or> m = m'"

definition less_outcome :: "'a outcome \<Rightarrow> 'a outcome \<Rightarrow> bool" where
  "less_outcome m m' \<longleftrightarrow> m = Crash NoFuel \<and> m' \<noteq> Crash NoFuel"

instance
  by standard (auto simp: less_eq_outcome_def less_outcome_def)

end

lemma NoFuel_least [simp]: "Crash NoFuel \<le> (m :: 'a outcome)"
  by (simp add: less_eq_outcome_def)

lemma outcome_le_iff: "m \<le> m' \<longleftrightarrow> m = Crash NoFuel \<or> m = (m' :: 'a outcome)"
  by (simp add: less_eq_outcome_def)

lemma Done_le [simp]: "Done r \<le> m \<longleftrightarrow> m = Done r"
  by (auto simp: outcome_le_iff)

lemma bnd_mono: "m \<le> m' \<Longrightarrow> (\<And>v. k v \<le> k' v) \<Longrightarrow> bnd m k \<le> bnd m' k'"
proof -
  assume m: "m \<le> m'" and k: "\<And>v. k v \<le> k' v"
  show ?thesis
  proof (cases "m = Crash NoFuel")
    case False
    then have "m' = m" using m by (simp add: outcome_le_iff)
    then show ?thesis using k by (cases m) simp_all
  qed simp
qed

lemma bnd_mono_right: "(\<And>v. k v \<le> k' v) \<Longrightarrow> bnd m k \<le> bnd m k'"
  by (rule bnd_mono) simp_all

lemma bug_on_mono: "m \<le> m' \<Longrightarrow> bug_on c m \<le> bug_on c m'"
  by (simp add: bug_on_def)

lemma if_mono: "(c \<Longrightarrow> m \<le> m') \<Longrightarrow> (\<not> c \<Longrightarrow> n \<le> n') \<Longrightarrow> (if c then m else n) \<le> (if c then m' else (n' :: 'a outcome))"
  by simp

lemma let_mono: "(\<And>v. f v \<le> g v) \<Longrightarrow> (let v = x in f v) \<le> (let v = x in (g v :: 'a outcome))"
  by simp

lemma option_mono: "m \<le> m' \<Longrightarrow> (\<And>v. f v \<le> g v) \<Longrightarrow>
    (case x of None \<Rightarrow> m | Some v \<Rightarrow> f v) \<le> (case x of None \<Rightarrow> m' | Some v \<Rightarrow> (g v :: 'a outcome))"
  by (cases x) auto

lemma sum_mono: "(\<And>v. f v \<le> f' v) \<Longrightarrow> (\<And>v. g v \<le> g' v) \<Longrightarrow>
    (case x of Inl v \<Rightarrow> f v | Inr v \<Rightarrow> g v) \<le> (case x of Inl v \<Rightarrow> f' v | Inr v \<Rightarrow> (g' v :: 'a outcome))"
  by (cases x) auto

lemma prod_mono: "(\<And>a b. f a b \<le> g a b) \<Longrightarrow> (case x of (a, b) \<Rightarrow> f a b) \<le> (case x of (a, b) \<Rightarrow> (g a b :: 'a outcome))"
  by (cases x) auto

lemma iptr_mono: "(\<And>e. f e \<le> f' e) \<Longrightarrow> m \<le> m' \<Longrightarrow> (\<And>n. g n \<le> g' n) \<Longrightarrow>
    (case p of ErrPtr e \<Rightarrow> f e | NullPtr \<Rightarrow> m | Inode n \<Rightarrow> g n) \<le>
    (case p of ErrPtr e \<Rightarrow> f' e | NullPtr \<Rightarrow> m' | Inode n \<Rightarrow> (g' n :: 'a outcome))"
  by (cases p) auto

lemmas outcome_mono = order_refl NoFuel_least bnd_mono bug_on_mono if_mono let_mono option_mono sum_mono prod_mono iptr_mono

text \<open>
  A family of computations, one for each amount of fuel (or pair of amounts, for a loop inside
  another), where more never hurts.
\<close>

locale fuelled =
  fixes run :: "'f :: semilattice_sup \<Rightarrow> 'a \<Rightarrow> 'b outcome"
  assumes more: "fuel \<le> fuel' \<Longrightarrow> run fuel x \<le> run fuel' x"
begin

lemma same_result: "run fuel x = Done r \<Longrightarrow> fuel \<le> fuel' \<Longrightarrow> run fuel' x = Done r"
  using more [of fuel fuel' x] by (simp only: Done_le)

lemma one_result:
  assumes "run fuel x = Done r" and "run fuel' x = Done r'"
  shows "r = r'"
  using same_result [OF assms(1) sup_ge1] same_result [OF assms(2) sup_ge2] by (metis outcome.inject(1))

end

lemma one_more_le: "(\<And>n. f n \<le> (f (Suc n) :: 'a outcome)) \<Longrightarrow> n \<le> n' \<Longrightarrow> f n \<le> f n'"
  by (rule lift_Suc_mono_le)

section \<open>Loops\<close>

lemma btree_modify_loop_more:
  "btree_modify_loop fuel env d offset ino c cb \<le> btree_modify_loop (Suc fuel) env d offset ino c cb"
proof (induction fuel arbitrary: d offset)
  case (Suc fuel)
  show ?case
    by (subst (1 2) btree_modify_loop.simps) (intro outcome_mono Suc.IH)
qed simp

lemma add_child_loop_more:
  "add_child_loop fuel s parent start child \<le> add_child_loop (Suc fuel) s parent start child"
proof (induction fuel arbitrary: s start)
  case 0
  show ?case by (subst (1 2) add_child_loop.simps) (simp only: nat.case, intro outcome_mono)
next
  case (Suc fuel)
  show ?case
    by (subst (1 2) add_child_loop.simps) (simp only: nat.case, intro outcome_mono Suc.IH)
qed

lemma for_all_loop_more:
  "for_all_loop k tf env fuel f c s start \<le> for_all_loop k tf env (Suc fuel) f c s start"
proof (induction fuel arbitrary: c s start)
  case (Suc fuel)
  show ?case
    by (subst (1 2) for_all_loop.simps) (intro outcome_mono Suc.IH)
qed simp

lemma read_extent_loop_more:
  "read_extent_loop fuel s start bh p len out in_len pos read \<le>
    read_extent_loop (Suc fuel) s start bh p len out in_len pos read"
proof (induction fuel arbitrary: s start bh p len out in_len pos read)
  case (Suc fuel)
  show ?case
    by (subst (1 2) read_extent_loop.simps) (intro outcome_mono Suc.IH)
qed simp

lemma btree_insert_more:
  "btree_insert fuel env s tree inode out \<le> btree_insert (Suc fuel) env s tree inode out"
proof (induction fuel arbitrary: s tree out)
  case 0
  show ?case by (cases tree) simp_all
next
  case (Suc fuel)
  show ?case
  proof (cases tree)
    case (Some t)
    show ?thesis unfolding Some
      by (subst (1 2) btree_insert.simps(3)) (simp only: Let_def, intro outcome_mono Suc.IH)
  qed simp
qed

lemma read_extents_more:
  "read_extents fuel bfuel s start out in_len pos read \<le> read_extents (Suc fuel) bfuel s start out in_len pos read"
proof (induction fuel arbitrary: s start out in_len pos read)
  case (Suc fuel)
  show ?case
    by (subst (1 2) read_extents.simps) (intro outcome_mono Suc.IH)
qed simp

lemma write_extents_more:
  "write_extents fuel s start src pos extra written \<le> write_extents (Suc fuel) s start src pos extra written"
proof (induction fuel arbitrary: s start src pos extra written)
  case (Suc fuel)
  show ?case
    by (subst (1 2) write_extents.simps) (intro outcome_mono Suc.IH)
qed simp

lemma free_init_loop_more:
  "free_init_loop kz fuel d start list \<le> free_init_loop kz (Suc fuel) d start list"
proof (induction fuel arbitrary: d start list)
  case (Suc fuel)
  show ?case
    by (subst (1 2) free_init_loop.simps) (intro outcome_mono Suc.IH)
qed simp

lemma loops_le:
  assumes "fuel \<le> fuel'"
  shows "btree_modify_loop fuel env d offset ino c cb \<le> btree_modify_loop fuel' env d offset ino c cb"
    and "add_child_loop fuel s parent start child \<le> add_child_loop fuel' s parent start child"
    and "for_all_loop k tf env fuel f c v start \<le> for_all_loop k tf env fuel' f c v start"
    and "read_extent_loop fuel s start bh p len out in_len pos read \<le>
      read_extent_loop fuel' s start bh p len out in_len pos read"
    and "read_extents fuel bfuel s start out in_len pos count \<le> read_extents fuel' bfuel s start out in_len pos count"
    and "write_extents fuel s start src pos extra written \<le> write_extents fuel' s start src pos extra written"
    and "btree_insert fuel env s tree inode out0 \<le> btree_insert fuel' env s tree inode out0"
    and "free_init_loop kz fuel d start list \<le> free_init_loop kz fuel' d start list"
  by (rule one_more_le [OF _ assms], rule btree_modify_loop_more add_child_loop_more for_all_loop_more
      read_extent_loop_more read_extents_more write_extents_more btree_insert_more free_init_loop_more)+

section \<open>Operations\<close>

lemma btree_modify_le:
  "fuel \<le> fuel' \<Longrightarrow> spfs_btree_modify fuel env s ino c cb \<le> spfs_btree_modify fuel' env s ino c cb"
  unfolding spfs_btree_modify_def by (intro outcome_mono loops_le)

lemma btree_insert_le:
  "fuel \<le> fuel' \<Longrightarrow> spfs_btree_insert fuel env s inode \<le> spfs_btree_insert fuel' env s inode"
  unfolding spfs_btree_insert_def Let_def by (intro outcome_mono loops_le)

lemma add_child_le:
  "fuel \<le> fuel' \<Longrightarrow> spfs_add_child fuel s parent child \<le> spfs_add_child fuel' s parent child"
  unfolding spfs_add_child_def by (intro outcome_mono loops_le)

lemma inode_by_id_le:
  "fuel \<le> fuel' \<Longrightarrow> spfs_inode_by_id k fuel env s n \<le> spfs_inode_by_id k fuel' env s n"
  unfolding spfs_inode_by_id_def spfs_btree_lookup_def by (intro outcome_mono btree_modify_le)

lemma create_le:
  "fuel \<le> fuel' \<Longrightarrow> spfs_create k fuel env s parent name mode \<le> spfs_create k fuel' env s parent name mode"
  unfolding spfs_create_def spfs_generic_create_def add_child_to_def
  by (intro outcome_mono btree_insert_le add_child_le)

lemma mkdir_le:
  "fuel \<le> fuel' \<Longrightarrow> spfs_mkdir k fuel env s parent name mode \<le> spfs_mkdir k fuel' env s parent name mode"
  unfolding spfs_mkdir_def spfs_generic_create_def add_child_to_def
  by (intro outcome_mono btree_insert_le add_child_le)

lemma visit_child_le: "tf \<le> tf' \<Longrightarrow> visit_child k tf env f st n \<le> visit_child k tf' env f st n"
  unfolding visit_child_def by (intro outcome_mono inode_by_id_le)

lemma dir_children_le:
  assumes "\<And>st n. visit st n \<le> visit' st n"
  shows "dir_children_loop fuel visit bh pos i n st \<le> dir_children_loop fuel visit' bh pos i n st"
proof (induction fuel arbitrary: pos i st)
  case (Suc fuel)
  show ?case
    by (subst (1 2) dir_children_loop.simps) (intro outcome_mono assms Suc.IH)
qed simp

lemma for_all_loop_le:
  assumes "tf \<le> tf'" and "fuel \<le> fuel'"
  shows "for_all_loop k tf env fuel f c s start \<le> for_all_loop k tf' env fuel' f c s start"
proof -
  have "for_all_loop k tf env fuel f c s start \<le> for_all_loop k tf' env fuel f c s start"
  proof (induction fuel arbitrary: c s start)
    case (Suc fuel)
    show ?case
      by (subst (1 2) for_all_loop.simps)
        (intro outcome_mono dir_children_le visit_child_le [OF assms(1)] Suc.IH)
  qed simp
  also have "\<dots> \<le> for_all_loop k tf' env fuel' f c s start" using assms(2) by (rule loops_le)
  finally show ?thesis .
qed

lemma for_all_children_le:
  "tf \<le> tf' \<Longrightarrow> fuel \<le> fuel' \<Longrightarrow>
    spfs_for_all_children k tf fuel env s parent c f \<le> spfs_for_all_children k tf' fuel' env s parent c f"
  unfolding spfs_for_all_children_def by (intro outcome_mono for_all_loop_le)

lemma lookup_le:
  "tf \<le> tf' \<Longrightarrow> fuel \<le> fuel' \<Longrightarrow>
    spfs_lookup k tf fuel env s parent name \<le> spfs_lookup k tf' fuel' env s parent name"
  unfolding spfs_lookup_def spfs_inode_by_name_def by (intro outcome_mono for_all_children_le)

lemma iterate_le:
  "tf \<le> tf' \<Longrightarrow> fuel \<le> fuel' \<Longrightarrow>
    spfs_iterate emit emit_dots k tf fuel env s parent pos buf \<le>
    spfs_iterate emit emit_dots k tf' fuel' env s parent pos buf"
  unfolding spfs_iterate_def by (intro outcome_mono for_all_children_le)

lemma read_file_extent_le:
  "fuel \<le> fuel' \<Longrightarrow> spfs_read_file_extent fuel s next start out in_len pos \<le>
    spfs_read_file_extent fuel' s next start out in_len pos"
  unfolding spfs_read_file_extent_def by (intro outcome_mono loops_le)

lemma read_extents_blocks_le:
  assumes "bfuel \<le> bfuel'"
  shows "read_extents fuel bfuel s start out in_len pos read \<le> read_extents fuel bfuel' s start out in_len pos read"
proof (induction fuel arbitrary: s start out in_len pos read)
  case (Suc fuel)
  show ?case
    by (subst (1 2) read_extents.simps) (intro outcome_mono read_file_extent_le [OF assms] Suc.IH)
qed simp

lemma read_le:
  assumes "fuel \<le> fuel'" and "bfuel \<le> bfuel'"
  shows "spfs_read fuel bfuel s inode in_len ppos \<le> spfs_read fuel' bfuel' s inode in_len ppos"
  unfolding spfs_read_def
  by (intro outcome_mono order_trans [OF read_extents_blocks_le [OF assms(2)] loops_le(5) [OF assms(1)]])

lemma write_le:
  assumes "fuel \<le> fuel'" and "tf \<le> tf'"
  shows "spfs_write fuel tf env intr s inode src ppos \<le> spfs_write fuel' tf' env intr s inode src ppos"
  unfolding spfs_write_def spfs_ensure_capacity_def
  by (intro outcome_mono loops_le [OF assms(1)] btree_modify_le [OF assms(2)])

lemma mount_le:
  "fuel \<le> fuel' \<Longrightarrow> spfs_fill_super_block setbs bdev kzs kz k fuel env d \<le>
    spfs_fill_super_block setbs bdev kzs kz k fuel' env d"
  unfolding spfs_fill_super_block_def fill_super_def spfs_free_init_def
  by (intro outcome_mono loops_le inode_by_id_le)

section \<open>The contract\<close>

interpretation creating: fuelled "\<lambda>fuel (k, env, s, parent, name, mode). spfs_create k fuel env s parent name mode"
  by unfold_locales (auto intro: create_le)

interpretation making_dir: fuelled "\<lambda>fuel (k, env, s, parent, name, mode). spfs_mkdir k fuel env s parent name mode"
  by unfold_locales (auto intro: mkdir_le)

interpretation looking: fuelled
  "\<lambda>(tf, fuel) (k, env, s, parent, name). spfs_lookup k tf fuel env s parent name"
  by unfold_locales (auto intro: lookup_le)

interpretation reading: fuelled
  "\<lambda>(fuel, bfuel) (s, inode, in_len, ppos). spfs_read fuel bfuel s inode in_len ppos"
  by unfold_locales (auto intro: read_le)

interpretation writing: fuelled
  "\<lambda>(fuel, tf) (env, intr, s, inode, src, ppos). spfs_write fuel tf env intr s inode src ppos"
  by unfold_locales (auto intro: write_le)

interpretation mounting: fuelled
  "\<lambda>fuel (setbs, bdev, kzs, kz, k, env, d). spfs_fill_super_block setbs bdev kzs kz k fuel env d"
  by unfold_locales (auto intro: mount_le)

text \<open>Two runs of a call that both return give the same result, with whatever fuel.\<close>

lemma calls_result_unique:
  "spfs_lookup k tf fuel env s parent name = Done l \<Longrightarrow>
    spfs_lookup k tf' fuel' env s parent name = Done l' \<Longrightarrow> l = l'"
  "spfs_create k fuel env s parent name mode = Done r \<Longrightarrow>
    spfs_create k fuel' env s parent name mode = Done r' \<Longrightarrow> r = r'"
  "spfs_mkdir k fuel env s parent name mode = Done r \<Longrightarrow>
    spfs_mkdir k fuel' env s parent name mode = Done r' \<Longrightarrow> r = r'"
  "spfs_read fuel bfuel v inode in_len ppos = Done q \<Longrightarrow>
    spfs_read fuel' bfuel' v inode in_len ppos = Done q' \<Longrightarrow> q = q'"
  "spfs_write fuel tf env intr v inode src ppos = Done w \<Longrightarrow>
    spfs_write fuel' tf' env intr v inode src ppos = Done w' \<Longrightarrow> w = w'"
  "spfs_fill_super_block setbs bdev kzs kz k fuel env d = Done m \<Longrightarrow>
    spfs_fill_super_block setbs bdev kzs kz k fuel' env d = Done m' \<Longrightarrow> m = m'"
  using looking.one_result [of "(tf, fuel)" "(k, env, s, parent, name)" l "(tf', fuel')" l']
    creating.one_result [of fuel "(k, env, s, parent, name, mode)" r fuel' r']
    making_dir.one_result [of fuel "(k, env, s, parent, name, mode)" r fuel' r']
    reading.one_result [of "(fuel, bfuel)" "(v, inode, in_len, ppos)" q "(fuel', bfuel')" q']
    writing.one_result [of "(fuel, tf)" "(env, intr, v, inode, src, ppos)" w "(fuel', tf')" w']
    mounting.one_result [of fuel "(setbs, bdev, kzs, kz, k, env, d)" m fuel' m'] by simp_all

end
