(* ===== verification/Module_Life.thy ===== *)
theory Module_Life
  imports First_File File_Write
begin

text \<open>
  Loading and unloading the module, and the slab its inodes come from (sp.c). The slab calls
  its constructor once for every object of a new page; an object that is freed and handed out
  again is in the state it was freed in. Frees are deferred: \<open>call_rcu\<close> queues the callback
  and the kernel runs it later, at the latest in \<open>rcu_barrier\<close>.
\<close>

section \<open>The slab\<close>

record slab =
  sl_live :: bool
  sl_free :: "spfs_inode list"

text \<open>\<open>ms_rcu\<close>: the inodes whose callback is queued.\<close>

record module_state =
  spfs_inode_SLAB :: "slab option"
  ms_registered :: bool
  ms_rcu :: "spfs_inode list"

text \<open>
  What \<open>kmem_cache_alloc\<close> finds: nothing, memory for a new object (with any content), or the
  free object with the given index.
\<close>

datatype grab = NoMemory | FromPage spfs_inode | Recycled nat

fun kmem_cache_alloc :: "grab \<Rightarrow> slab \<Rightarrow> spfs_inode option \<times> slab" where
  "kmem_cache_alloc NoMemory c = (None, c)"
| "kmem_cache_alloc (FromPage memory) c = (Some (spfs_inode_init_once memory), c)"
| "kmem_cache_alloc (Recycled i) c =
     (if i < length (sl_free c)
      then (Some (sl_free c ! i), c\<lparr>sl_free := take i (sl_free c) @ drop (Suc i) (sl_free c)\<rparr>)
      else (None, c))"

text \<open>The slab behind the pointer; a slab that was destroyed is memory that was freed.\<close>

definition get_slab :: "module_state \<Rightarrow> slab outcome" where
  "get_slab m = (case spfs_inode_SLAB m of
     None \<Rightarrow> Crash NullDeref
   | Some c \<Rightarrow> if sl_live c then Done c else Crash BadAccess)"

definition spfs_alloc_inode :: "grab \<Rightarrow> module_state \<Rightarrow> (spfs_inode option \<times> module_state) outcome" where
  "spfs_alloc_inode g m =
     bnd (get_slab m) (\<lambda>c.
     let (inode, c) = kmem_cache_alloc g c in
     Done (inode, m\<lparr>spfs_inode_SLAB := Some c\<rparr>))"

definition spfs_free_inode_cb :: "module_state \<Rightarrow> spfs_inode \<Rightarrow> module_state outcome" where
  "spfs_free_inode_cb m inode =
     bug_on (spfs_inode_SLAB m = None) (
     bnd (get_slab m) (\<lambda>c.
     Done (m\<lparr>spfs_inode_SLAB := Some (c\<lparr>sl_free := inode # sl_free c\<rparr>)\<rparr>)))"

definition spfs_free_inode :: "module_state \<Rightarrow> spfs_inode \<Rightarrow> module_state" where
  "spfs_free_inode m inode = m\<lparr>ms_rcu := ms_rcu m @ [inode]\<rparr>"

text \<open>The kernel runs the queued callbacks in order.\<close>

fun run_callbacks :: "spfs_inode list \<Rightarrow> module_state \<Rightarrow> module_state outcome" where
  "run_callbacks [] m = Done m"
| "run_callbacks (inode # inodes) m = bnd (spfs_free_inode_cb m inode) (run_callbacks inodes)"

definition rcu_barrier :: "module_state \<Rightarrow> module_state outcome" where
  "rcu_barrier m = run_callbacks (ms_rcu m) (m\<lparr>ms_rcu := []\<rparr>)"

definition spfs_create_inode_SLAB :: "bool \<Rightarrow> slab option" where
  "spfs_create_inode_SLAB memory = (if memory then Some \<lparr>sl_live = True, sl_free = []\<rparr> else None)"

text \<open>The caller's pointer still holds the address of the destroyed slab.\<close>

definition spfs_destroy_inode_SLAB :: "module_state \<Rightarrow> module_state outcome" where
  "spfs_destroy_inode_SLAB m =
     bnd (rcu_barrier m) (\<lambda>m.
     case spfs_inode_SLAB m of
       None \<Rightarrow> Done m
     | Some _ \<Rightarrow>
         bnd (get_slab m) (\<lambda>c. Done (m\<lparr>spfs_inode_SLAB := Some (c\<lparr>sl_live := False\<rparr>)\<rparr>)))"

section \<open>Loading and unloading\<close>

text \<open>\<open>reg\<close> is what \<open>register_filesystem\<close> returns; it registers when that is 0.\<close>

definition spfs_init :: "bool \<Rightarrow> int \<Rightarrow> module_state \<Rightarrow> (int \<times> module_state) outcome" where
  "spfs_init memory reg m =
     (let m = m\<lparr>spfs_inode_SLAB := spfs_create_inode_SLAB memory\<rparr> in
      if spfs_inode_SLAB m = None then Done (- ENOMEM, m)
      else
        let m = m\<lparr>ms_registered := (reg = 0)\<rparr>; res = reg in
        if res \<noteq> 0 then bnd (spfs_destroy_inode_SLAB m) (\<lambda>m. Done (res, m))
        else Done (res, m))"

definition spfs_exit :: "int \<Rightarrow> module_state \<Rightarrow> module_state outcome" where
  "spfs_exit unreg m =
     (let m = (if unreg = 0 then m\<lparr>ms_registered := False\<rparr> else m) in
      spfs_destroy_inode_SLAB m)"

text \<open>What the kernel loads: nothing is set up.\<close>

definition module_loaded :: module_state where
  "module_loaded = \<lparr>spfs_inode_SLAB = None, ms_registered = False, ms_rcu = []\<rparr>"

section \<open>The life of a loaded module\<close>

text \<open>What the kernel does with a registered module, in any order.\<close>

datatype module_call = AllocInode grab | FreeInode spfs_inode | GracePeriod

fun do_module_call :: "module_call \<Rightarrow> module_state \<Rightarrow> module_state outcome" where
  "do_module_call (AllocInode g) m = bnd (spfs_alloc_inode g m) (\<lambda>(_, m). Done m)"
| "do_module_call (FreeInode inode) m = Done (spfs_free_inode m inode)"
| "do_module_call GracePeriod m = rcu_barrier m"

fun module_calls :: "module_call list \<Rightarrow> module_state \<Rightarrow> module_state outcome" where
  "module_calls [] m = Done m"
| "module_calls (c # cs) m = bnd (do_module_call c m) (module_calls cs)"

definition slab_live :: "module_state \<Rightarrow> bool" where
  "slab_live m \<longleftrightarrow> (\<exists>c. spfs_inode_SLAB m = Some c \<and> sl_live c)"

lemma get_slab_live: "slab_live m \<longleftrightarrow> (\<exists>c. get_slab m = Done c \<and> sl_live c \<and> spfs_inode_SLAB m = Some c)"
  by (auto simp: slab_live_def get_slab_def)

lemma kmem_cache_alloc_live: "kmem_cache_alloc g c = (r, c') \<Longrightarrow> sl_live c' = sl_live c"
  by (cases g) (auto split: if_splits)

lemma run_callbacks_live:
  assumes "spfs_inode_SLAB m = Some c" and "sl_live c"
  shows "run_callbacks is m = Done (m\<lparr>spfs_inode_SLAB := Some (c\<lparr>sl_free := rev is @ sl_free c\<rparr>)\<rparr>)"
  using assms
proof (induction "is" arbitrary: m c)
  case Nil
  then show ?case by simp
next
  case (Cons i "is")
  then show ?case
    using Cons.IH [of "m\<lparr>spfs_inode_SLAB := Some (c\<lparr>sl_free := i # sl_free c\<rparr>)\<rparr>" "c\<lparr>sl_free := i # sl_free c\<rparr>"]
    by (simp add: spfs_free_inode_cb_def get_slab_def)
qed

lemma rcu_barrier_live:
  "spfs_inode_SLAB m = Some c \<Longrightarrow> sl_live c \<Longrightarrow>
    rcu_barrier m = Done (m\<lparr>ms_rcu := [], spfs_inode_SLAB := Some (c\<lparr>sl_free := rev (ms_rcu m) @ sl_free c\<rparr>)\<rparr>)"
  using run_callbacks_live [of "m\<lparr>ms_rcu := []\<rparr>" c "ms_rcu m"] by (simp add: rcu_barrier_def)

lemma module_call_live:
  assumes "slab_live m"
  shows "\<exists>m'. do_module_call c m = Done m' \<and> slab_live m' \<and> ms_registered m' = ms_registered m"
proof -
  obtain sl where sl: "spfs_inode_SLAB m = Some sl" "sl_live sl" using assms by (auto simp: slab_live_def)
  show ?thesis
  proof (cases c)
    case (AllocInode g)
    obtain r sl' where "kmem_cache_alloc g sl = (r, sl')" by fastforce
    then show ?thesis
      using AllocInode sl kmem_cache_alloc_live
      by (auto simp: spfs_alloc_inode_def get_slab_def slab_live_def)
  next
    case (FreeInode i)
    then show ?thesis using sl by (simp add: spfs_free_inode_def slab_live_def)
  next
    case GracePeriod
    then show ?thesis using sl by (simp add: rcu_barrier_live slab_live_def)
  qed
qed

lemma module_calls_live:
  "slab_live m \<Longrightarrow> \<exists>m'. module_calls cs m = Done m' \<and> slab_live m' \<and> ms_registered m' = ms_registered m"
proof (induction cs arbitrary: m)
  case (Cons c cs)
  then show ?case using module_call_live [OF Cons.prems, of c] by fastforce
qed simp

lemma destroy_live:
  "slab_live m \<Longrightarrow> \<exists>m'. spfs_destroy_inode_SLAB m = Done m' \<and> \<not> slab_live m' \<and>
    ms_rcu m' = [] \<and> ms_registered m' = ms_registered m"
  by (auto simp: slab_live_def spfs_destroy_inode_SLAB_def rcu_barrier_live get_slab_def)

section \<open>A recycled inode\<close>

text \<open>
  \<open>alloc_inode\<close> of the kernel initialises the \<open>struct inode\<close> of the object it gets from the
  file system; the fields that follow it are not the kernel's.
\<close>

definition init_always_ok :: "(spfs_inode \<Rightarrow> spfs_inode) \<Rightarrow> bool" where
  "init_always_ok f \<longleftrightarrow> (\<forall>i. in_start (f i) = in_start i \<and> in_capacity (f i) = in_capacity i \<and>
     in_name (f i) = in_name i \<and> i_lock (f i) = i_lock i)"

definition private_fields :: "spfs_inode \<Rightarrow> u64 \<times> u32 \<times> byte list \<times> bool" where
  "private_fields i = (in_start i, in_capacity i, in_name i, i_lock i)"

lemma owner_ok_private: "owner_ok k \<Longrightarrow> private_fields (k_owner k dir i mode) = private_fields i"
proof -
  assume "owner_ok k"
  then obtain uid gid m where "k_owner k dir i mode = i\<lparr>i_uid := uid, i_gid := gid, i_mode := m\<rparr>"
    unfolding owner_ok_def by blast
  then show ?thesis by (simp add: private_fields_def)
qed

lemma setup_private: "spfs_setup_inode_fp i = Done j \<Longrightarrow> private_fields j = private_fields i"
  by (auto simp: spfs_setup_inode_fp_def private_fields_def split: if_splits)

lemma new_inode_private:
  assumes "spfs_new_inode k s parent mode = Done (Inode n, s')" and "owner_ok k"
    and "k_fresh k (sbi_id s) = Some i"
  shows "\<exists>j. icache s' n = Some j \<and> private_fields j = private_fields i"
proof -
  have i: "private_fields (i\<lparr>i_ino := x, i_kernel := z\<rparr>) = private_fields i"
    "private_fields (q\<lparr>i_mode := y\<rparr>) = private_fields q"
    "private_fields (q\<lparr>i_ctime := a\<rparr>) = private_fields q" "private_fields (q\<lparr>i_atime := a\<rparr>) = private_fields q"
    "private_fields (q\<lparr>i_mtime := a\<rparr>) = private_fields q" for x y z a q
    by (simp_all add: private_fields_def)
  obtain j where "icache s (sbi_id s) = None" and j: "s' = put_inode (s\<lparr>sbi_id := sbi_id s + 1,
      icache := (icache s)(sbi_id s \<mapsto> i\<lparr>i_ino := sbi_id s, i_kernel := True\<rparr>)\<rparr>) n j" and "private_fields j = private_fields i"
    using assms
    by (auto simp: spfs_new_inode_def iget_locked_def get_inode_def Let_def bnd_Done_iff i owner_ok_private
        split: option.splits if_splits dest!: setup_private)
  then show ?thesis by (auto simp: put_inode_def)
qed

section \<open>Properties\<close>

text \<open>
  Loading the module either registers the file system with a slab to take inodes from, or
  returns an error and leaves neither behind.
\<close>

lemma module_load:
  "\<exists>res m. spfs_init memory reg module_loaded = Done (res, m) \<and>
     ms_registered m = (res = 0) \<and> slab_live m = (res = 0)"
  by (auto simp: spfs_init_def spfs_create_inode_SLAB_def module_loaded_def spfs_destroy_inode_SLAB_def
      rcu_barrier_def get_slab_def slab_live_def ENOMEM_def Let_def)

text \<open>
  C18: After a successful load no sequence of allocations, frees and grace periods fails, and
  unloading returns with every queued callback run before the slab is destroyed. It destroys
  the slab also when the file system cannot be unregistered and stays registered.
\<close>

theorem module_unload_releases:
  assumes "spfs_init memory reg module_loaded = Done (0, m)"
  shows "\<exists>m' m''. module_calls cs m = Done m' \<and> spfs_exit unreg m' = Done m'' \<and>
    ms_rcu m'' = [] \<and> \<not> slab_live m'' \<and> ms_registered m'' = (unreg \<noteq> 0)"
proof -
  have m: "slab_live m" "ms_registered m" using module_load [of memory reg] assms by auto
  obtain m' where m': "module_calls cs m = Done m'" "slab_live m'" "ms_registered m'"
    using module_calls_live [OF m(1), of cs] m(2) by blast
  define u where "u = (if unreg = 0 then m'\<lparr>ms_registered := False\<rparr> else m')"
  have "slab_live u" using m'(2) by (simp add: u_def slab_live_def)
  then obtain m'' where "spfs_destroy_inode_SLAB u = Done m''" "\<not> slab_live m''" "ms_rcu m'' = []"
    "ms_registered m'' = ms_registered u" using destroy_live by blast
  then show ?thesis using m' by (auto simp: spfs_exit_def u_def Let_def)
qed

theorem module_unload_releases_witness:
  "\<exists>m m' m''. spfs_init True 0 module_loaded = Done (0, m) \<and>
    module_calls [AllocInode (FromPage file_sample), FreeInode file_sample] m = Done m' \<and>
    spfs_exit 0 m' = Done m'' \<and> ms_rcu m'' = []"
proof -
  have "\<exists>m. spfs_init True 0 module_loaded = Done (0, m)"
    by (simp add: spfs_init_def spfs_create_inode_SLAB_def)
  then obtain m where m: "spfs_init True 0 module_loaded = Done (0, m)" by blast
  show ?thesis
    using module_unload_releases [OF m, of "[AllocInode (FromPage file_sample), FreeInode file_sample]" 0] m
    by blast
qed

text \<open>
  C19: An inode object that was freed and is handed out again for a new inode keeps its private
  fields: the new file or directory starts with the blocks, the capacity, the name and the state
  of the mutex of the old one, since neither the constructor (which runs once per object) nor
  \<open>spfs_new_inode\<close> resets them.
\<close>

theorem recycled_inode_keeps_blocks:
  assumes "slab_live m" and "ms_rcu m = []"
    and "rcu_barrier (spfs_free_inode m old) = Done m1"
    and "spfs_alloc_inode (Recycled 0) m1 = Done (Some obj, m2)"
    and "init_always_ok init" and "k_fresh k (sbi_id s) = Some (init obj)" and "owner_ok k"
    and "spfs_new_inode k s parent mode = Done (Inode n, s')"
  shows "\<exists>j. icache s' n = Some j \<and> in_start j = in_start old \<and> in_capacity j = in_capacity old \<and>
    in_name j = in_name old \<and> i_lock j = i_lock old"
proof -
  obtain c where c: "spfs_inode_SLAB m = Some c" "sl_live c" using assms(1) by (auto simp: slab_live_def)
  have "m1 = m\<lparr>spfs_inode_SLAB := Some (c\<lparr>sl_free := old # sl_free c\<rparr>)\<rparr>"
    using assms(2,3) c rcu_barrier_live [of "spfs_free_inode m old" c] by (simp add: spfs_free_inode_def)
  then have "obj = old" using assms(4) c by (auto simp: spfs_alloc_inode_def get_slab_def)
  moreover have "private_fields (init obj) = private_fields obj"
    using assms(5) by (simp add: init_always_ok_def private_fields_def)
  ultimately show ?thesis
    using new_inode_private [OF assms(8,7,6)] by (simp add: private_fields_def)
qed

definition recycling_kernel :: kernel where
  "recycling_kernel = sample_kernel\<lparr>k_fresh := \<lambda>n. Some (file_sample\<lparr>i_ino := 0\<rparr>)\<rparr>"

theorem recycled_inode_keeps_blocks_witness:
  "\<exists>s' j. spfs_new_inode recycling_kernel sample_vfs (Some 1) 0x81A4 = Done (Inode 8, s') \<and>
    icache s' 8 = Some j \<and> in_start j = in_start file_sample"
proof -
  define c where "c = \<lparr>sl_live = True, sl_free = []\<rparr>"
  define m where "m = \<lparr>spfs_inode_SLAB = Some c, ms_registered = True, ms_rcu = []\<rparr>"
  have m: "slab_live m" "ms_rcu m = []" "spfs_inode_SLAB m = Some c" "sl_live c"
    by (simp_all add: m_def slab_live_def c_def)
  have f: "rcu_barrier (spfs_free_inode m file_sample) =
      Done (m\<lparr>spfs_inode_SLAB := Some (c\<lparr>sl_free := [file_sample]\<rparr>)\<rparr>)"
    using m rcu_barrier_live [of "spfs_free_inode m file_sample" c] by (simp add: spfs_free_inode_def c_def)
  obtain m2 where a: "spfs_alloc_inode (Recycled 0) (m\<lparr>spfs_inode_SLAB := Some (c\<lparr>sl_free := [file_sample]\<rparr>)\<rparr>) =
      Done (Some file_sample, m2)"
    by (simp add: spfs_alloc_inode_def get_slab_def c_def)
  have i: "init_always_ok (\<lambda>i. i\<lparr>i_ino := 0\<rparr>)" by (simp add: init_always_ok_def)
  have k: "k_fresh recycling_kernel (sbi_id sample_vfs) = Some (file_sample\<lparr>i_ino := 0\<rparr>)" "owner_ok recycling_kernel"
    by (simp add: recycling_kernel_def)
      (auto simp: recycling_kernel_def owner_ok_def sample_kernel_def)
  have id: "sbi_id sample_vfs = 8" by (simp add: sample_vfs_def spfs.extend_def dir_sample_fs_def)
  obtain s' where n: "spfs_new_inode recycling_kernel sample_vfs (Some 1) 0x81A4 = Done (Inode 8, s')"
    by (simp add: spfs_new_inode_def iget_locked_def id get_inode_def recycling_kernel_def sample_kernel_def
        spfs_setup_inode_fp_def S_ISREG_def put_inode_def sample_vfs_simps)
  show ?thesis
    using recycled_inode_keeps_blocks [OF m(1,2) f a i k n] n by blast
qed

end
