(* ===== verification/Vfs_Tables.thy ===== *)
theory Vfs_Tables
  imports Fs_Types Module_Life
begin

text \<open>
  The tables through which the kernel reaches the operations of sp.c, the file system type with
  \<open>spfs_mount\<close>, and which table an inode gets. A table is a record of the model's operations,
  \<open>None\<close> where the code leaves the pointer null; \<open>generic_file_llseek\<close>, \<open>generic_read_dir\<close>,
  \<open>mount_bdev\<close> and \<open>kill_block_super\<close> are functions of the kernel and parameters.
\<close>

section \<open>The tables\<close>

record file_operations =
  fo_llseek :: "(spfs_inode \<Rightarrow> int \<Rightarrow> int \<Rightarrow> int) option"
  fo_read :: "(vfs \<Rightarrow> u64 \<Rightarrow> nat \<Rightarrow> nat option \<Rightarrow> (int \<times> byte list \<times> nat option \<times> vfs) outcome) option"
  fo_write :: "(vfs \<Rightarrow> u64 \<Rightarrow> byte list \<Rightarrow> nat option \<Rightarrow> (int \<times> nat option \<times> vfs) outcome) option"
  fo_iterate :: "(vfs \<Rightarrow> u64 \<Rightarrow> nat \<Rightarrow> byte list \<Rightarrow> (int \<times> nat \<times> byte list \<times> vfs) outcome) option"

record inode_operations =
  io_create :: "vfs \<Rightarrow> u64 \<Rightarrow> byte list \<Rightarrow> u16 \<Rightarrow> (int \<times> u64 option \<times> vfs) outcome"
  io_lookup :: "vfs \<Rightarrow> u64 \<Rightarrow> byte list \<Rightarrow> (u64 option \<times> vfs) outcome"
  io_mkdir :: "vfs \<Rightarrow> u64 \<Rightarrow> byte list \<Rightarrow> u16 \<Rightarrow> (int \<times> u64 option \<times> vfs) outcome"

record super_operations =
  so_alloc_inode :: "grab \<Rightarrow> module_state \<Rightarrow> (spfs_inode option \<times> module_state) outcome"
  so_destroy_inode :: "module_state \<Rightarrow> spfs_inode \<Rightarrow> module_state"
  so_write_inode :: "vfs \<Rightarrow> u64 \<Rightarrow> (int \<times> vfs) outcome"
  so_put_super :: "vfs option \<Rightarrow> vfs option"

text \<open>
  What a call brings along that the model makes explicit: the fuel of the loops, the memory of
  the stack, the decisions of the kernel, and the caller's \<open>dir_emit\<close>.
\<close>

record call_env =
  ce_fuel :: nat
  ce_bfuel :: nat
  ce_tfuel :: nat
  ce_env :: env
  ce_kernel :: kernel
  ce_interrupted :: bool
  ce_emit :: "byte list \<Rightarrow> byte list \<Rightarrow> u64 \<Rightarrow> u16 \<Rightarrow> bool \<times> byte list"
  ce_emit_dots :: "nat \<Rightarrow> byte list \<Rightarrow> bool \<times> nat \<times> byte list"

definition spfs_inode_ops :: "call_env \<Rightarrow> inode_operations" where
  "spfs_inode_ops c = \<lparr>
     io_create = spfs_create (ce_kernel c) (ce_fuel c) (ce_env c),
     io_lookup = spfs_lookup (ce_kernel c) (ce_tfuel c) (ce_fuel c) (ce_env c),
     io_mkdir = spfs_mkdir (ce_kernel c) (ce_fuel c) (ce_env c)\<rparr>"

definition spfs_file_ops :: "call_env \<Rightarrow> file_operations" where
  "spfs_file_ops c = \<lparr>
     fo_llseek = None,
     fo_read = Some (read_file (ce_fuel c) (ce_bfuel c)),
     fo_write = Some (write_file (ce_fuel c) (ce_tfuel c) (ce_env c) (ce_interrupted c)),
     fo_iterate = None\<rparr>"

definition spfs_dir_ops ::
  "(spfs_inode \<Rightarrow> int \<Rightarrow> int \<Rightarrow> int) \<Rightarrow>
    (vfs \<Rightarrow> u64 \<Rightarrow> nat \<Rightarrow> nat option \<Rightarrow> (int \<times> byte list \<times> nat option \<times> vfs) outcome) \<Rightarrow>
    call_env \<Rightarrow> file_operations"
where
  "spfs_dir_ops generic_file_llseek generic_read_dir c = \<lparr>
     fo_llseek = Some generic_file_llseek,
     fo_read = Some generic_read_dir,
     fo_write = None,
     fo_iterate = Some (spfs_iterate (ce_emit c) (ce_emit_dots c) (ce_kernel c) (ce_tfuel c)
       (ce_fuel c) (ce_env c))\<rparr>"

definition spfs_super_ops :: "call_env \<Rightarrow> super_operations" where
  "spfs_super_ops c = \<lparr>
     so_alloc_inode = spfs_alloc_inode,
     so_destroy_inode = spfs_free_inode,
     so_write_inode = spfs_write_inode (ce_fuel c) (ce_env c),
     so_put_super = spfs_put_super\<rparr>"

section \<open>The file system type\<close>

text \<open>\<open>mount_bdev\<close> opens the device and hands \<open>fill_super\<close> to it.\<close>

type_synonym fill_super_fn = "dev \<Rightarrow> (int \<times> vfs option) outcome"

definition spfs_mount ::
  "(int \<Rightarrow> string \<Rightarrow> fill_super_fn \<Rightarrow> 'r) \<Rightarrow> fill_super_fn \<Rightarrow> int \<Rightarrow> string \<Rightarrow> 'r"
where
  "spfs_mount mount_bdev fill_super_block flags dev_name = mount_bdev flags dev_name fill_super_block"

record ('r, 'k) file_system_type =
  fst_name :: string
  fst_requires_dev :: bool
  fst_mount :: "int \<Rightarrow> string \<Rightarrow> 'r"
  fst_kill_sb :: 'k

definition spfs_fs_type ::
  "(int \<Rightarrow> string \<Rightarrow> fill_super_fn \<Rightarrow> 'r) \<Rightarrow> 'k \<Rightarrow> fill_super_fn \<Rightarrow> ('r, 'k) file_system_type"
where
  "spfs_fs_type mount_bdev kill_block_super fill_super_block = \<lparr>
     fst_name = ''spfs'', fst_requires_dev = True,
     fst_mount = spfs_mount mount_bdev fill_super_block,
     fst_kill_sb = kill_block_super\<rparr>"

section \<open>Which table an inode has\<close>

text \<open>What \<open>spfs_setup_inode_fp\<close> stores in \<open>i_fop\<close>; \<open>i_op\<close> is \<open>spfs_inode_ops\<close> in both cases.\<close>

definition inode_fop :: "'f \<Rightarrow> 'f \<Rightarrow> u16 \<Rightarrow> 'f outcome" where
  "inode_fop file_ops dir_ops mode =
     (if S_ISREG mode then Done file_ops
      else if S_ISDIR mode then Done dir_ops
      else Crash BugOn)"

lemma S_IS_exclusive: "S_ISREG mode \<Longrightarrow> \<not> S_ISDIR mode"
  by (simp add: S_ISREG_def S_ISDIR_def)

text \<open>
  Every inode that a run has in the cache has one of the two tables, by its type: a file has
  reading and writing and no listing, a directory has listing and no writing, and its reading is
  that of the kernel.
\<close>

lemma cached_inode_table:
  assumes "kernel_ok k" and "spfs_fill_super_block setbs is_bdev kz_sbi kz k fuel env d = Done (0, Some s)"
    and "fs_run s es s'" and "icache s' n = Some i"
  obtains "S_ISREG (i_mode i)"
      and "inode_fop (spfs_file_ops c) (spfs_dir_ops llseek read_dir c) (i_mode i) = Done (spfs_file_ops c)"
    | "S_ISDIR (i_mode i)"
      and "inode_fop (spfs_file_ops c) (spfs_dir_ops llseek read_dir c) (i_mode i) =
        Done (spfs_dir_ops llseek read_dir c)"
proof -
  have "inode_ok i"
    using typed.run [OF assms(3) list_all_True] fill_super_block_ok [OF assms(1,2)] cache_okD assms(4) by blast
  then show ?thesis
  proof (cases "S_ISREG (i_mode i)")
    case True
    then show ?thesis using that(1) by (simp add: inode_fop_def)
  next
    case False
    then show ?thesis using that(2) \<open>inode_ok i\<close> by (simp add: inode_ok_def inode_fop_def)
  qed
qed

text \<open>
  Through its table an inode is only reached by calls its type allows: the checks of the type in
  \<open>spfs_read\<close>, \<open>spfs_write\<close> and \<open>spfs_for_all_children\<close> never fail on such calls.
\<close>

lemma table_read_is_regular:
  assumes "inode_fop (spfs_file_ops c) (spfs_dir_ops llseek read_dir c) (i_mode i) = Done ops"
  shows "fo_write ops \<noteq> None \<longleftrightarrow> S_ISREG (i_mode i)" and "fo_iterate ops \<noteq> None \<longleftrightarrow> S_ISDIR (i_mode i)"
  using assms S_IS_exclusive [of "i_mode i"]
  by (auto simp: inode_fop_def spfs_file_ops_def spfs_dir_ops_def split: if_splits)

end
