(* ===== verification/Btree_Remove.thy ===== *)
theory Btree_Remove
  imports Bnode_Laws
begin

text \<open>
  The helpers of btree_remove.c that are C: the thresholds for a node that is too small or can
  give an entry away, the test for a leaf, and the merge of two nodes, whose two steps are
  stubs that return false. The removal itself is in \<open>Btree_Take\<close>.
\<close>

section \<open>Sizes\<close>

text \<open>The loop of \<open>is_leaf\<close> over the children: it stops at the first that is not 0.\<close>

fun is_leaf_loop :: "buf \<Rightarrow> nat list \<Rightarrow> bool outcome" where
  "is_leaf_loop b [] = Done True"
| "is_leaf_loop b (i # is) =
     bnd (bnode_get_child b i) (\<lambda>child. if child \<noteq> 0 then Done False else is_leaf_loop b is)"

definition is_leaf :: "buf \<Rightarrow> bool outcome" where
  "is_leaf b = bnd (bnode_length b) (\<lambda>length. is_leaf_loop b [0..<unat length + 1])"

definition order :: nat where
  "order = bnode_capacity + 1"

definition minimum_order :: nat where
  "minimum_order = order div 2"

definition is_deficient :: "buf \<Rightarrow> bool outcome" where
  "is_deficient b = bnd (bnode_length b) (\<lambda>length. Done (unat length < minimum_order))"

definition has_more_than_min :: "buf \<Rightarrow> bool outcome" where
  "has_more_than_min b = bnd (bnode_length b) (\<lambda>length. Done (minimum_order < unat length))"

text \<open>\<open>size_t\<close> arithmetic: a length above the capacity wraps around.\<close>

definition remaining_write :: "buf \<Rightarrow> u64 outcome" where
  "remaining_write b = bnd (bnode_length b) (\<lambda>length. Done (of_nat bnode_capacity - ucast length))"

section \<open>Merging\<close>

definition move_all_elements :: "buf \<Rightarrow> buf \<Rightarrow> bool \<times> buf \<times> buf" where
  "move_all_elements dest src = (False, dest, src)"

definition insert_all_children :: "buf \<Rightarrow> buf \<Rightarrow> bool \<times> buf \<times> buf" where
  "insert_all_children dest src = (False, dest, src)"

definition merge_nodes :: "buf \<Rightarrow> buf \<Rightarrow> (bool \<times> buf \<times> buf) outcome" where
  "merge_nodes dest src =
     bnd (bnode_length src) (\<lambda>length.
     bnd (remaining_write dest) (\<lambda>remaining.
     if remaining < ucast length then Done (False, dest, src)
     else
       let (result, dest, src) = move_all_elements dest src in
       if result then
         let (res, dest, src) = insert_all_children dest src in
         bug_on (\<not> res) (Done (result, dest, src))
       else Done (result, dest, src)))"

section \<open>What they compute\<close>

lemma is_leaf_loop_eq:
  "(\<And>i. i \<in> set is \<Longrightarrow> bnode_get_child b i = Done (c i)) \<Longrightarrow> is_leaf_loop b is = Done (\<forall>i\<in>set is. c i = 0)"
  by (induction "is") auto

lemma is_leaf_eq:
  assumes "bnode_length b = Done n" and "\<And>i. i \<le> unat n \<Longrightarrow> bnode_get_child b i = Done (c i)"
  shows "is_leaf b = Done (\<forall>i\<le>unat n. c i = 0)"
proof -
  have "is_leaf_loop b [0..<unat n + 1] = Done (\<forall>i\<in>set [0..<unat n + 1]. c i = 0)"
    using assms(2) by (intro is_leaf_loop_eq) auto
  then show ?thesis using assms(1) by (auto simp: is_leaf_def less_Suc_eq_le simp del: upt_Suc)
qed

text \<open>
  A node is deficient below 50 entries and can give one away above 50; merging two nodes
  never moves anything, whatever their sizes.
\<close>

lemma removal_thresholds:
  assumes "bnode_length b = Done n"
  shows "is_deficient b = Done (unat n < 50) \<and> has_more_than_min b = Done (50 < unat n) \<and>
    (bnode_length dest = Done m \<longrightarrow> merge_nodes dest b = Done (False, dest, b))"
  using assms by (simp add: is_deficient_def has_more_than_min_def minimum_order_def order_def
      bnode_capacity_def merge_nodes_def remaining_write_def move_all_elements_def Let_def)

end
