(* ===== verification/Btree_Take.thy ===== *)
theory Btree_Take
  imports Btree_Remove Btree
begin

text \<open>
  Removal from the B-tree: \<open>rebalance\<close>, the \<open>take\<close> functions and \<open>spfs_btree_remove\<close> of
  btree_remove.c. The file is a translation of C++ templates into C that was left half way and
  is not part of the build; it is read as follows. A node is named by its block in either half
  (\<open>struct spfs_bnode *\<close>, a block number or \<open>BTNode &\<close>), 0 is the null pointer. The functions
  of btree.c and of the file itself are those modelled before, the stubs included. The
  functions that neither defines, those of the containers \<open>elements\<close> and \<open>children\<close>, are a
  parameter, the record \<open>containers\<close>, of which nothing is assumed. \<open>capacity(elements)\<close> is the
  capacity of a node, and \<open>self\<close> of \<open>take_leaf\<close> is the node, as in its callers. \<open>balance\<close> of
  \<open>take\<close> is the pointer it is declared as; \<open>spfs_btree_remove\<close>, which was not adapted to the
  declaration, is read as passing the address of its variable \<open>balance\<close>.
\<close>

section \<open>What the file calls and does not define\<close>

text \<open>An entry (\<open>struct spfs_bentry *\<close>, \<open>T *\<close>) is the block of its node and its address there.\<close>

type_synonym entry_ref = "u64 \<times> u64"

text \<open>Where a removed entry goes: nowhere (\<open>BTreeNop\<close>), or over another entry.\<close>

datatype dest = Nop | Over entry_ref

datatype child_dir = ChildDir_LEFT | ChildDir_RIGHT

text \<open>
  The functions on the elements and children of a node, by the names the file uses. A pointer
  that is only tested is a \<open>bool\<close>.
\<close>

record 's containers =
  bin_insert :: "'s \<Rightarrow> u64 \<Rightarrow> entry_ref \<Rightarrow> u64 \<Rightarrow> (bool \<times> 's) outcome"
  bnode_elem_length :: "'s \<Rightarrow> u64 \<Rightarrow> u64 outcome"
  remaining_elem_write :: "'s \<Rightarrow> u64 \<Rightarrow> u64 outcome"
  is_elem_empty :: "'s \<Rightarrow> u64 \<Rightarrow> bool outcome"
  bnode_elem_insert :: "'s \<Rightarrow> u64 \<Rightarrow> entry_ref \<Rightarrow> (bool \<times> 's) outcome"
  stable_elem_remove :: "'s \<Rightarrow> u64 \<Rightarrow> nat \<Rightarrow> (bool \<times> 's) outcome"
  stable_child_remove :: "'s \<Rightarrow> u64 \<Rightarrow> nat \<Rightarrow> (bool \<times> 's) outcome"
  stable_elem_take :: "'s \<Rightarrow> u64 \<Rightarrow> nat \<Rightarrow> dest \<Rightarrow> (bool \<times> 's) outcome"
  index_of :: "'s \<Rightarrow> u64 \<Rightarrow> u64 \<Rightarrow> nat outcome"
  elem_at :: "'s \<Rightarrow> u64 \<Rightarrow> nat \<Rightarrow> u64 outcome"
  elems_length :: "'s \<Rightarrow> u64 \<Rightarrow> nat outcome"
  elems_last :: "'s \<Rightarrow> u64 \<Rightarrow> u64 option outcome"
  elems_empty :: "'s \<Rightarrow> u64 \<Rightarrow> bool outcome"
  child_at :: "'s \<Rightarrow> u64 \<Rightarrow> nat \<Rightarrow> u64 outcome"
  children_length :: "'s \<Rightarrow> u64 \<Rightarrow> nat outcome"
  children_last :: "'s \<Rightarrow> u64 \<Rightarrow> u64 outcome"
  children_empty :: "'s \<Rightarrow> u64 \<Rightarrow> bool outcome"
  node_empty :: "'s \<Rightarrow> u64 \<Rightarrow> bool outcome"
  move_out :: "'s \<Rightarrow> entry_ref \<Rightarrow> dest \<Rightarrow> 's outcome"
  delete_node :: "'s \<Rightarrow> u64 \<Rightarrow> 's outcome"
  no_return :: bool

section \<open>The stubs\<close>

definition bnode_stable_take_elem :: "'s \<Rightarrow> u64 \<Rightarrow> nat \<Rightarrow> entry_ref \<Rightarrow> bool \<times> 's" where
  "bnode_stable_take_elem s node index out = (False, s)"

definition bnode_stable_remove_child :: "'s \<Rightarrow> u64 \<Rightarrow> nat \<Rightarrow> bool \<times> 's" where
  "bnode_stable_remove_child s node index = (False, s)"

definition bnode_greatest_child :: "'s \<Rightarrow> u64 \<Rightarrow> u64" where
  "bnode_greatest_child s node = 0"

text \<open>The body of this \<open>bnode_bin_insert\<close> is a comment: it ends without a \<open>return\<close>.\<close>

definition bnode_bin_insert_stub :: "'s containers \<Rightarrow> 's \<Rightarrow> u64 \<Rightarrow> u64 \<Rightarrow> entry_ref \<Rightarrow> bool \<times> 's" where
  "bnode_bin_insert_stub L s dst lt v = (no_return L, s)"

section \<open>Rebalancing\<close>

text \<open>A call of the file's node helpers on the node of a block.\<close>

definition at_node :: "(buf \<Rightarrow> 'r outcome) \<Rightarrow> 'a spfs_scheme \<Rightarrow> u64 \<Rightarrow> 'r outcome" where
  "at_node f s node = bnd (fs_get s node) f"

definition merge_at :: "'a spfs_scheme \<Rightarrow> u64 \<Rightarrow> u64 \<Rightarrow> (bool \<times> 'a spfs_scheme) outcome" where
  "merge_at s dst src =
     bug_on (src = 0) (bug_on (dst = 0) (
     bnd (fs_get s dst) (\<lambda>dest_node.
     bnd (fs_get s src) (\<lambda>src_node.
     bnd (merge_nodes dest_node src_node) (\<lambda>(result, dest_node, src_node).
     Done (result, fs_put (fs_put s dst dest_node) src src_node))))))"

text \<open>
  The rotations: the result says that the tree is balanced. Left of the pivot is deficient:
  the pivot moves down to it and the first entry of its right sibling takes its place.
\<close>

definition rotate_left ::
  "'a spfs_scheme containers \<Rightarrow> 'a spfs_scheme \<Rightarrow> u64 \<Rightarrow> entry_ref \<Rightarrow> nat \<Rightarrow> (bool \<times> 'a spfs_scheme) outcome"
where
  "rotate_left L s parent pivot piv_idx =
     bnd (at_node (\<lambda>b. bnode_get_child b piv_idx) s parent) (\<lambda>subject.
     bnd (at_node (\<lambda>b. bnode_get_child b (piv_idx + 1)) s parent) (\<lambda>right_sibling.
     bug_on (subject = 0) (
     if right_sibling = 0 then Done (False, s) else
     bnd (at_node has_more_than_min s right_sibling) (\<lambda>more.
     if \<not> more then Done (False, s) else
     bnd (at_node (\<lambda>b. bnode_get_child b 0) s right_sibling) (\<lambda>right_smallest.
     bnd (bin_insert L s subject pivot right_smallest) (\<lambda>(res, s).
     bug_on (\<not> res) (
     let (tres, s) = bnode_stable_take_elem s right_sibling 0 pivot in
     bug_on (\<not> tres) (
     let (res, s) = bnode_stable_remove_child s right_sibling 0 in
     bug_on (\<not> res) (Done (True, s))))))))))"

text \<open>Right of the pivot is deficient: the mirror image, with the left sibling.\<close>

definition rotate_right ::
  "'a spfs_scheme containers \<Rightarrow> 'a spfs_scheme \<Rightarrow> u64 \<Rightarrow> entry_ref \<Rightarrow> nat \<Rightarrow> (bool \<times> 'a spfs_scheme) outcome"
where
  "rotate_right L s parent pivot piv_idx =
     bnd (at_node (\<lambda>b. bnode_get_child b (piv_idx + 1)) s parent) (\<lambda>subject.
     bnd (at_node (\<lambda>b. bnode_get_child b piv_idx) s parent) (\<lambda>left_sibling.
     bug_on (subject = 0) (
     if left_sibling = 0 then Done (False, s) else
     bnd (at_node has_more_than_min s left_sibling) (\<lambda>more.
     if \<not> more then Done (False, s) else
     let left_greatest = bnode_greatest_child s left_sibling in
     bug_on (left_greatest = 0) (
     let (res, s) = bnode_bin_insert_stub L s subject left_greatest pivot in
     bug_on (\<not> res) (
     bnd (bnode_elem_length L s left_sibling) (\<lambda>elems.
     let (res, s) = bnode_stable_take_elem s left_sibling (unat (elems - 1)) pivot in
     bug_on (\<not> res) (
     bnd (at_node bnode_child_length s left_sibling) (\<lambda>children.
     let (res, s) = bnode_stable_remove_child s left_sibling (children - 1) in
     bug_on (\<not> res) (Done (True, s)))))))))))"

text \<open>Unlinks a child of the parent when it has no elements; such a child must be a leaf.\<close>

definition unlink_empty ::
  "'a spfs_scheme containers \<Rightarrow> 'a spfs_scheme \<Rightarrow> u64 \<Rightarrow> u64 \<Rightarrow> nat \<Rightarrow> 'a spfs_scheme outcome"
where
  "unlink_empty L s parent child idx =
     (if child = 0 then Done s else
      bnd (is_elem_empty L s child) (\<lambda>empty.
      if \<not> empty then Done s else
      bnd (at_node is_leaf s child) (\<lambda>leaf. bug_on (\<not> leaf) (
      bnd (at_node (\<lambda>b. bnode_set_child b idx 0) s parent) (\<lambda>b. Done (fs_put s parent b))))))"

text \<open>
  The second half: both siblings merge around the pivot when the left one has room for it.
  The first result of \<open>rebalance\<close> says whether to go on with the parent.
\<close>

definition rebalance_merge ::
  "'a spfs_scheme containers \<Rightarrow> 'a spfs_scheme \<Rightarrow> u64 \<Rightarrow> entry_ref \<Rightarrow> nat \<Rightarrow> (bool \<times> 'a spfs_scheme) outcome"
where
  "rebalance_merge L s parent pivot piv_idx =
     bnd (at_node (\<lambda>b. bnode_get_child b piv_idx) s parent) (\<lambda>left_child.
     bnd (at_node (\<lambda>b. bnode_get_child b (piv_idx + 1)) s parent) (\<lambda>right_child.
     bug_on (left_child = 0 \<and> right_child = 0) (
     bnd (if right_child \<noteq> 0 \<and> left_child \<noteq> 0 then
            bnd (at_node is_deficient s left_child) (\<lambda>ldef.
            bnd (if ldef then Done True else at_node is_deficient s right_child) (\<lambda>def.
            if \<not> def then Done None else
            bnd (bnode_elem_length L s right_child) (\<lambda>elems.
            bnd (remaining_elem_write L s left_child) (\<lambda>remaining.
            Done (Some (elems + 1 \<le> remaining))))))
          else Done (Some False)) (\<lambda>cont.
     case cont of
       None \<Rightarrow> Done (False, s)
     | Some False \<Rightarrow>
         bnd (unlink_empty L s parent left_child piv_idx) (\<lambda>s.
         bnd (unlink_empty L s parent right_child (piv_idx + 1)) (\<lambda>s. Done (False, s)))
     | Some True \<Rightarrow>
         bnd (bnode_elem_insert L s left_child pivot) (\<lambda>(res, s). bug_on (\<not> res) (
         bnd (merge_at s left_child right_child) (\<lambda>(res, s). bug_on (\<not> res) (
         bnd (stable_elem_remove L s parent piv_idx) (\<lambda>(res, s). bug_on (\<not> res) (
         bnd (stable_child_remove L s parent (piv_idx + 1)) (\<lambda>(res, s). bug_on (\<not> res) (
         Done (True, s)))))))))))))"

definition rebalance ::
  "'a spfs_scheme containers \<Rightarrow> 'a spfs_scheme \<Rightarrow> u64 \<Rightarrow> u64 option \<Rightarrow> child_dir \<Rightarrow>
    (bool \<times> 'a spfs_scheme) outcome"
where
  "rebalance L s parent pivot dir =
     bnd (at_node is_leaf s parent) (\<lambda>leaf. bug_on leaf (
     case pivot of
       None \<Rightarrow> Crash BugOn
     | Some p \<Rightarrow>
         let piv_idx = bnode_index_of p in
         bug_on (piv_idx = bnode_capacity) (
         bnd (case dir of
                ChildDir_LEFT \<Rightarrow> rotate_left L s parent (parent, p) piv_idx
              | ChildDir_RIGHT \<Rightarrow> rotate_right L s parent (parent, p) piv_idx) (\<lambda>(balanced, s).
         if balanced then Done (False, s)
         else rebalance_merge L s parent (parent, p) piv_idx))))"

section \<open>Taking an entry\<close>

text \<open>The result of these says whether the node they took from is deficient now.\<close>

definition take_leaf ::
  "'a spfs_scheme containers \<Rightarrow> 'a spfs_scheme \<Rightarrow> u64 \<Rightarrow> u64 \<Rightarrow> dest \<Rightarrow> (bool \<times> 'a spfs_scheme) outcome"
where
  "take_leaf L s node subject dst =
     bnd (at_node is_leaf s node) (\<lambda>leaf. bug_on (\<not> leaf) (
     bnd (index_of L s node subject) (\<lambda>index.
     bnd (stable_elem_take L s node index dst) (\<lambda>(res, s). bug_on (\<not> res) (
     bnd (stable_child_remove L s node (index + 1)) (\<lambda>(res, s). bug_on (\<not> res) (
     bnd (at_node is_deficient s node) (\<lambda>deficient. Done (deficient, s)))))))))"

text \<open>The greatest and the smallest entry below a node; the fuel bounds the depth.\<close>

fun take_max ::
  "nat \<Rightarrow> 'a spfs_scheme containers \<Rightarrow> 'a spfs_scheme \<Rightarrow> u64 \<Rightarrow> dest \<Rightarrow> (bool \<times> 'a spfs_scheme) outcome"
where
  "take_max 0 L s node dst = Crash NoFuel"
| "take_max (Suc fuel) L s node dst =
     bnd (at_node is_leaf s node) (\<lambda>leaf.
     if leaf then
       bnd (elems_last L s node) (\<lambda>subject.
       case subject of None \<Rightarrow> Crash BugOn | Some p \<Rightarrow> take_leaf L s node p dst)
     else
       bnd (elems_length L s node) (\<lambda>last_idx.
       bnd (child_at L s node last_idx) (\<lambda>greatest.
       bug_on (greatest = 0) (
       bnd (take_max fuel L s greatest dst) (\<lambda>(balance, s).
       if balance then
         bnd (elem_at L s node (last_idx - 1)) (\<lambda>pivot.
         rebalance L s node (Some pivot) ChildDir_RIGHT)
       else Done (False, s))))))"

fun take_min ::
  "nat \<Rightarrow> 'a spfs_scheme containers \<Rightarrow> 'a spfs_scheme \<Rightarrow> u64 \<Rightarrow> dest \<Rightarrow> (bool \<times> 'a spfs_scheme) outcome"
where
  "take_min 0 L s node dst = Crash NoFuel"
| "take_min (Suc fuel) L s node dst =
     bnd (at_node is_leaf s node) (\<lambda>leaf.
     if leaf then bnd (elem_at L s node 0) (\<lambda>subject. take_leaf L s node subject dst)
     else
       bnd (child_at L s node 0) (\<lambda>smallest.
       bug_on (smallest = 0) (
       bnd (take_min fuel L s smallest dst) (\<lambda>(balance, s).
       if balance then
         bnd (elem_at L s node 0) (\<lambda>pivot.
         rebalance L s node (Some pivot) ChildDir_LEFT)
       else Done (False, s)))))"

text \<open>An entry of an inner node is replaced by its neighbour from below.\<close>

definition take_int_node ::
  "nat \<Rightarrow> 'a spfs_scheme containers \<Rightarrow> 'a spfs_scheme \<Rightarrow> u64 \<Rightarrow> u64 \<Rightarrow> dest \<Rightarrow> (bool \<times> 'a spfs_scheme) outcome"
where
  "take_int_node fuel L s node subject dst =
     bnd (index_of L s node subject) (\<lambda>index.
     bug_on (index = bnode_capacity) (
     bnd (move_out L s (node, subject) dst) (\<lambda>s.
     bnd (child_at L s node index) (\<lambda>lt.
     if lt \<noteq> 0 then
       bnd (elems_empty L s lt) (\<lambda>empty. bug_on empty (
       bnd (children_empty L s lt) (\<lambda>empty. bug_on empty (
       bnd (node_empty L s lt) (\<lambda>empty. bug_on empty (
       bnd (take_max fuel L s lt (Over (node, subject))) (\<lambda>(balance, s).
       if balance then rebalance L s node (Some subject) ChildDir_LEFT else Done (False, s))))))))
     else
       bnd (child_at L s node (index + 1)) (\<lambda>gt.
       bug_on (gt = 0) (
       bnd (node_empty L s gt) (\<lambda>empty. bug_on empty (
       bnd (take_min fuel L s gt (Over (node, subject))) (\<lambda>(balance, s).
       if balance then rebalance L s node (Some subject) ChildDir_RIGHT else Done (False, s))))))))))"

definition take_wrapper ::
  "nat \<Rightarrow> 'a spfs_scheme containers \<Rightarrow> 'a spfs_scheme \<Rightarrow> u64 \<Rightarrow> u64 \<Rightarrow> dest \<Rightarrow> (bool \<times> 'a spfs_scheme) outcome"
where
  "take_wrapper fuel L s node subject dst =
     bnd (at_node is_leaf s node) (\<lambda>leaf.
     if leaf then take_leaf L s node subject dst
     else take_int_node fuel L s node subject dst)"

section \<open>Removing a number\<close>

text \<open>
  \<open>take\<close>: \<open>balance\<close> is a pointer, \<open>None\<close> when it is null and otherwise with the value it points to.
  Only the case of the null node writes through it. The other assignments to \<open>balance\<close> change the
  parameter itself, which is not read any more, so that what \<open>take_wrapper\<close> and \<open>rebalance\<close>
  return is lost; and \<open>if (balance)\<close> asks whether the pointer is null. The results: whether the
  number was found, and the pointer with what it points to then.
\<close>

fun btree_take ::
  "nat \<Rightarrow> 'a spfs_scheme containers \<Rightarrow> 'a spfs_scheme \<Rightarrow> u64 \<Rightarrow> u64 \<Rightarrow> bool option \<Rightarrow>
    (bool \<times> bool option \<times> 'a spfs_scheme) outcome"
where
  "btree_take fuel L s node needle balance =
     (if node = 0 then
        (case balance of None \<Rightarrow> Crash NullDeref | Some _ \<Rightarrow> Done (False, Some False, s))
      else
        case fuel of
          0 \<Rightarrow> Crash NoFuel
        | Suc fuel \<Rightarrow>
            bnd (at_node (\<lambda>b. bnode_bin_find_gte b needle) s node) (\<lambda>gte.
            case gte of
              Some p \<Rightarrow>
                bnd (at_node (\<lambda>b. bentry_id b p) s node) (\<lambda>id.
                if bentry_is_eq id needle then
                  bnd (take_wrapper fuel L s node p Nop) (\<lambda>(_, s). Done (True, balance, s))
                else
                  bnd (index_of L s node p) (\<lambda>index.
                  bnd (at_node (\<lambda>b. bnode_get_child b index) s node) (\<lambda>child.
                  bnd (btree_take fuel L s child needle balance) (\<lambda>(result, balance, s).
                  if balance \<noteq> None then
                    bnd (rebalance L s node (Some p) ChildDir_LEFT) (\<lambda>(_, s). Done (result, balance, s))
                  else Done (result, balance, s)))))
            | None \<Rightarrow>
                bnd (children_last L s node) (\<lambda>child.
                bnd (btree_take fuel L s child needle balance) (\<lambda>(result, balance, s).
                if balance \<noteq> None then
                  bnd (elems_last L s node) (\<lambda>pivot.
                  bug_on (pivot = None) (
                  bnd (rebalance L s node pivot ChildDir_RIGHT) (\<lambda>(_, s). Done (result, balance, s))))
                else Done (result, balance, s)))))"

declare btree_take.simps [simp del]

text \<open>The root is replaced by its only child when it has become empty.\<close>

definition spfs_btree_remove ::
  "nat \<Rightarrow> 'a spfs_scheme containers \<Rightarrow> 'a spfs_scheme \<Rightarrow> u64 \<Rightarrow> (bool \<times> 'a spfs_scheme) outcome"
where
  "spfs_btree_remove fuel L s ino =
     bnd (btree_take fuel L s (tree_start s) ino (Some False)) (\<lambda>(result, balance, s).
     if balance \<noteq> Some True then Done (result, s) else
     let old = tree_start s in
     bnd (elems_empty L s old) (\<lambda>empty.
     if \<not> empty then Done (result, s) else
     bnd (children_length L s old) (\<lambda>children.
     bug_on (children \<noteq> 1) (
     bnd (child_at L s old 0) (\<lambda>first.
     bnd (delete_node L (s\<lparr>tree_start := first\<rparr>) old) (\<lambda>s. Done (result, s)))))))"

end
