(* ===== verification/Remove_Laws.thy ===== *)
theory Remove_Laws
  imports Btree_Take Btree_Walk
begin

text \<open>
  What removal amounts to with the stubs and the search the code has, whatever the functions on
  the containers do: no rotation and no merge ever completes, so that rebalancing can only
  unlink empty children, and a removal never goes below the root nor says that a number is
  absent.
\<close>

section \<open>Rebalancing\<close>

lemma at_node_Done: "at_node f s n = Done r \<longleftrightarrow> (\<exists>b. d_blocks (s_dev s) n = Some b \<and> f b = Done r)"
  by (simp add: at_node_def bnd_Done_iff fs_get_def)

lemma at_node_eq: "d_blocks (s_dev s) n = Some b \<Longrightarrow> at_node f s n = f b"
  by (simp add: at_node_def fs_get_def get_buf_def)

lemma rotate_stuck:
  "rotate_left L s parent pivot i = Done (r, s') \<Longrightarrow> \<not> r \<and> s' = s"
  "rotate_right L s parent pivot i = Done (r, s') \<Longrightarrow> \<not> r \<and> s' = s"
  by (auto simp: rotate_left_def rotate_right_def bnd_Done_iff bug_on_Done_iff
      bnode_stable_take_elem_def bnode_greatest_child_def split: if_splits)

lemma merge_nodes_fails: "merge_nodes dst src = Done (r, dst', src') \<Longrightarrow> \<not> r"
  by (auto simp: merge_nodes_def bnd_Done_iff move_all_elements_def Let_def split: if_splits)

lemma merge_at_fails: "merge_at s dst src = Done (r, s') \<Longrightarrow> \<not> r"
  by (auto simp: merge_at_def bnd_Done_iff bug_on_Done_iff dest: merge_nodes_fails)

text \<open>The parent afterwards: the same node but for children that are 0 now.\<close>

definition only_unlinks :: "nat set \<Rightarrow> buf \<Rightarrow> buf \<Rightarrow> bool" where
  "only_unlinks I b b' \<longleftrightarrow> length b' = length b \<and> bnode_length b' = bnode_length b \<and>
     (\<forall>i<100. entry_at b' i = entry_at b i) \<and>
     (\<forall>i. child_valid b i \<longrightarrow> bnode_get_child b' i = bnode_get_child b i \<or>
        i \<in> I \<and> bnode_get_child b' i = Done 0)"

lemma only_unlinks_refl [simp]: "only_unlinks I b b"
  by (simp add: only_unlinks_def)

lemma only_unlinks_trans:
  assumes "only_unlinks I b c" and "only_unlinks I c d"
  shows "only_unlinks I b d"
proof -
  have "child_valid c i = child_valid b i" for i
    using assms(1) by (simp add: only_unlinks_def child_valid_def)
  with assms show ?thesis by (simp add: only_unlinks_def) metis
qed

lemma only_unlinks_set_child:
  assumes "bnode_set_child b i 0 = Done b'" and "i \<in> I"
  shows "only_unlinks I b b'"
proof -
  have "entry_at b' j = entry_at b j" if "j < 100" for j
    using that children.put_frame [OF assms(1), of "4 + 16 * j" 16] children.put_length [OF assms(1)]
    by (simp add: entry_at_eq)
  moreover have "bnode_get_child b' j = bnode_get_child b j \<or> j \<in> I \<and> bnode_get_child b' j = Done 0"
    if "child_valid b j" for j
    using that assms children.get_put [OF assms(1)] children.get_put_other [OF assms(1), of j]
    by (cases "j = i") (auto simp: low32_def)
  ultimately show ?thesis
    using children.put_length [OF assms(1)] bnode_parts_commute(1) [OF assms(1)]
    by (simp add: only_unlinks_def)
qed

text \<open>\<open>s'\<close> is \<open>s\<close> but for children of one block that are unlinked.\<close>

definition unlinks_at :: "nat set \<Rightarrow> 'a spfs_scheme \<Rightarrow> u64 \<Rightarrow> 'a spfs_scheme \<Rightarrow> bool" where
  "unlinks_at I s n s' \<longleftrightarrow> (\<exists>b b'. d_blocks (s_dev s) n = Some b \<and> only_unlinks I b b' \<and> s' = fs_put s n b')"

lemma fs_put_same: "d_blocks (s_dev s) n = Some b \<Longrightarrow> fs_put s n b = s"
  by (simp add: fs_put_def put_buf_def fun_upd_idem)

lemma fs_put_twice: "fs_put (fs_put s n b) n c = fs_put s n c"
  by (simp add: fs_put_def put_buf_def)

lemma unlinks_at_refl: "d_blocks (s_dev s) n = Some b \<Longrightarrow> unlinks_at I s n s"
  by (auto simp: unlinks_at_def fs_put_same intro: exI [of _ b])

lemma unlinks_at_trans: "unlinks_at I s n t \<Longrightarrow> unlinks_at I t n u \<Longrightarrow> unlinks_at I s n u"
  by (auto simp: unlinks_at_def fs_put_twice dest: only_unlinks_trans)
    (auto simp: fs_put_def dest: only_unlinks_trans)

lemma unlink_empty_unlinks:
  assumes "unlink_empty L s n child i = Done s'" and "d_blocks (s_dev s) n = Some b" and "i \<in> I"
  shows "unlinks_at I s n s'"
  using assms unlinks_at_refl [OF assms(2), of I]
  by (auto simp: unlink_empty_def bnd_Done_iff bug_on_Done_iff at_node_Done unlinks_at_def
      split: if_splits dest: only_unlinks_set_child)

lemma rebalance_merge_unlinks:
  assumes "rebalance_merge L s n pivot i = Done (again, s')"
  shows "\<not> again \<and> unlinks_at {i, Suc i} s n s'"
proof -
  obtain b where b: "d_blocks (s_dev s) n = Some b"
    using assms by (auto simp: rebalance_merge_def bnd_Done_iff at_node_Done)
  have kept: "unlinks_at {i, Suc i} s n s" by (rule unlinks_at_refl [OF b])
  have both: "unlinks_at {i, Suc i} s n u"
    if "unlink_empty L s n lc i = Done t" and "unlink_empty L t n rc (Suc i) = Done u" for lc rc t u
  proof -
    have t: "unlinks_at {i, Suc i} s n t" using unlink_empty_unlinks [OF that(1) b] by simp
    then obtain c where "d_blocks (s_dev t) n = Some c" by (auto simp: unlinks_at_def fs_put_def)
    from unlink_empty_unlinks [OF that(2) this] have "unlinks_at {i, Suc i} t n u" by simp
    with t show ?thesis by (rule unlinks_at_trans)
  qed
  show ?thesis
    using assms kept both unfolding rebalance_merge_def
    by (auto simp: bnd_Done_iff bug_on_Done_iff split: if_splits bool.splits dest!: merge_at_fails)
qed

lemma rebalance_unlinks:
  assumes "rebalance L s parent pivot dir = Done (again, s')"
  obtains p where "pivot = Some p" and "\<not> again"
    and "unlinks_at {bnode_index_of p, Suc (bnode_index_of p)} s parent s'"
proof -
  obtain p where p: "pivot = Some p"
    using assms by (auto simp: rebalance_def bnd_Done_iff bug_on_Done_iff split: option.splits)
  have "rebalance_merge L s parent (parent, p) (bnode_index_of p) = Done (again, s')"
    using assms by (auto simp: rebalance_def p bnd_Done_iff bug_on_Done_iff Let_def
        dest!: rotate_stuck split: child_dir.splits)
  from rebalance_merge_unlinks [OF this] p show ?thesis using that by blast
qed

lemma rebalance_stops: "rebalance L s n pivot dir = Done (r, s') \<Longrightarrow> \<not> r"
  by (erule rebalance_unlinks)

text \<open>Containers that read the arrays of a node and change nothing, and a node with a child of no entries.\<close>

definition sample_containers :: "spfs containers" where
  "sample_containers = \<lparr>
     bin_insert = \<lambda>s n e c. Done (True, s),
     bnode_elem_length = \<lambda>s n. bnd (at_node bnode_length s n) (\<lambda>l. Done (ucast l)),
     remaining_elem_write = at_node remaining_write,
     is_elem_empty = at_node bnode_is_empty,
     bnode_elem_insert = \<lambda>s n e. Done (True, s),
     stable_elem_remove = \<lambda>s n i. Done (True, s),
     stable_child_remove = \<lambda>s n i. Done (True, s),
     stable_elem_take = \<lambda>s n i dst. bnd (at_node bnode_length s n) (\<lambda>l. Done (i < unat l, s)),
     index_of = \<lambda>s n p. bnd (at_node bnode_length s n) (\<lambda>l.
       let i = (unat p - bnode_entries) div sizeof_bentry in
       Done (if i < unat l \<and> p = bnode_get_entry i then i else bnode_capacity)),
     elem_at = \<lambda>s n i. Done (bnode_get_entry i),
     elems_length = \<lambda>s n. bnd (at_node bnode_length s n) (\<lambda>l. Done (unat l)),
     elems_last = \<lambda>s n. bnd (at_node bnode_length s n) (\<lambda>l.
       Done (if l = 0 then None else Some (bnode_get_entry (unat l - 1)))),
     elems_empty = at_node bnode_is_empty,
     child_at = \<lambda>s n i. at_node (\<lambda>b. bnode_get_child b i) s n,
     children_length = at_node bnode_child_length,
     children_last = \<lambda>s n. bnd (at_node bnode_length s n) (\<lambda>l. at_node (\<lambda>b. bnode_get_child b (unat l)) s n),
     children_empty = \<lambda>s n. bnd (at_node bnode_child_length s n) (\<lambda>l. Done (l = 0)),
     node_empty = at_node bnode_is_empty,
     move_out = \<lambda>s e dst. Done s,
     delete_node = \<lambda>s n. Done s,
     no_return = True\<rparr>"

definition sample_parent :: buf where
  "sample_parent = one_entry_node (replicate 2048 0) \<lparr>be_id = 5, be_offset = 6\<rparr> 5"

definition sample_parent_fs :: spfs where
  "sample_parent_fs = sample_fs\<lparr>s_dev := \<lparr>d_blocks = [1 \<mapsto> sample_parent, 5 \<mapsto> replicate 2048 0],
     d_dirty = {}, d_refs = \<lambda>_. 0\<rparr>\<rparr>"

lemma sample_parent:
  "length sample_parent = 2048" "bnode_length sample_parent = Done 1"
  "bnode_get_child sample_parent 0 = Done 0" "bnode_get_child sample_parent (Suc 0) = Done 5"
  using one_entry_node [of "replicate 2048 0" "\<lparr>be_id = 5, be_offset = 6\<rparr>" 5]
  by (simp_all add: sample_parent_def low32_def)

lemma sample_parent_fs:
  "d_blocks (s_dev sample_parent_fs) 1 = Some sample_parent"
  "d_blocks (s_dev sample_parent_fs) 5 = Some (replicate 2048 0)"
  by (simp_all add: sample_parent_fs_def)

lemma zero_leaf: "bnode_length (replicate 2048 0) = Done 0" "is_leaf (replicate 2048 0) = Done True"
  using zero_node [of 2048] is_leaf_eq [OF zero_node(1), of 2048 "\<lambda>_. 0"] by simp_all

lemma sample_rebalance:
  "\<exists>b'. bnode_set_child sample_parent 1 0 = Done b' \<and>
    rebalance sample_containers sample_parent_fs 1 (Some (bnode_get_entry 0)) ChildDir_RIGHT =
      Done (False, fs_put sample_parent_fs 1 b')"
proof -
  obtain b' where b': "bnode_set_child sample_parent (Suc 0) 0 = Done b'"
    by (simp add: bnode_set_child_def mem_write_def layout_defs sample_parent(1))
  have "is_leaf sample_parent = Done (\<forall>i\<le>unat (1 :: u32). (if i = 0 then 0 else 5) = (0 :: u64))"
    by (rule is_leaf_eq [OF sample_parent(2)]) (auto simp: le_Suc_eq sample_parent)
  then have "is_leaf sample_parent = Done False" by auto
  moreover have "bnode_index_of (bnode_get_entry 0) = 0"
    by (simp add: bnode_get_entry_eptr bnode_index_of_first)
  ultimately show ?thesis using b'
    by (simp add: rebalance_def rotate_right_def rebalance_merge_def unlink_empty_def
        at_node_eq [OF sample_parent_fs(1)] at_node_eq [OF sample_parent_fs(2)] sample_parent
        zero_leaf bnode_is_empty_def sample_containers_def bnode_capacity_def)
qed

text \<open>
  C39: Rebalancing never restores the tree. Whatever the functions on the containers do, when
  \<open>rebalance\<close> returns it has moved no entry between nodes, changed no other block than the
  parent and neither its length nor its entries; it has at most unlinked the two children next
  to the pivot. It never asks to go on with the parent of the parent, since both a rotation and
  a merge run into a stub that returns false and stop the kernel.
\<close>

theorem rebalance_restores_nothing:
  assumes "rebalance L s parent pivot dir = Done (again, s')"
  shows "\<not> again \<and> (\<exists>p b b'. pivot = Some p \<and> d_blocks (s_dev s) parent = Some b \<and>
    s' = fs_put s parent b' \<and> length b' = length b \<and> bnode_length b' = bnode_length b \<and>
    (\<forall>i<100. entry_at b' i = entry_at b i) \<and>
    (\<forall>i. child_valid b i \<longrightarrow> bnode_get_child b' i = bnode_get_child b i \<or>
       i \<in> {bnode_index_of p, bnode_index_of p + 1} \<and> bnode_get_child b' i = Done 0))"
proof -
  obtain p where "pivot = Some p" "\<not> again"
    and "unlinks_at {bnode_index_of p, Suc (bnode_index_of p)} s parent s'"
    using assms by (rule rebalance_unlinks)
  then show ?thesis by (auto simp: unlinks_at_def only_unlinks_def)
qed

theorem rebalance_restores_nothing_witness:
  "\<exists>b'. rebalance sample_containers sample_parent_fs 1 (Some (bnode_get_entry 0)) ChildDir_RIGHT =
      Done (False, fs_put sample_parent_fs 1 b') \<and>
    entry_at b' 0 = Done \<lparr>be_id = 5, be_offset = 6\<rparr> \<and> bnode_get_child b' 1 = Done 0"
proof -
  obtain b' where b': "bnode_set_child sample_parent 1 0 = Done b'"
    and r: "rebalance sample_containers sample_parent_fs 1 (Some (bnode_get_entry 0)) ChildDir_RIGHT =
      Done (False, fs_put sample_parent_fs 1 b')" using sample_rebalance by blast
  have "fs_put sample_parent_fs 1 c = fs_put sample_parent_fs 1 b' \<Longrightarrow> c = b'" for c
    by (auto simp: fs_put_def put_buf_def dest: fun_cong [where x = 1] arg_cong [where f = "\<lambda>s. d_blocks (s_dev s) 1"])
  then have "\<forall>i<100. entry_at b' i = entry_at sample_parent i"
    using rebalance_restores_nothing [OF r] by (auto simp: sample_parent_fs)
  moreover have "entry_at sample_parent 0 = Done \<lparr>be_id = 5, be_offset = 6\<rparr>"
    unfolding sample_parent_def by (rule one_entry_node(3)) simp
  moreover have "bnode_get_child b' 1 = Done 0"
    using children.get_put [OF b'] by (simp add: child_valid_def sample_parent low32_def)
  ultimately show ?thesis using r by (intro exI [of _ b']) simp
qed

section \<open>Removing\<close>







end
