(* ===== verification/Lock_Order.thy ===== *)
theory Lock_Order
  imports Spfs_Prelude
begin

text \<open>
  The mutexes of the module and the order its operations take them in. Each function of sp.c,
  btree.c and free_list.c that locks is the list of its lock operations, as a function of the
  branches it takes; a call of the VFS is the list of all of them. Tasks make calls one after
  the other, and their lock operations interleave in any order; a task in which the kernel
  crashes dies where it is and keeps what it holds. The locale states that mutexes are taken in
  the order of a rank; then only a mutex that nobody will ever unlock can stop the tasks, and
  those are the mutexes a dead task held and those that a failed read or write leaves locked.
\<close>

section \<open>The mutexes and the lock operations of the code\<close>

text \<open>
  \<open>sbi->id_lock\<close>, \<open>sbi->tree.lock\<close>, \<open>free_list->lock\<close> and the \<open>lock\<close> of an inode.
  \<open>NewInode n\<close> is the state \<open>I_NEW\<close> of an inode: \<open>iget_locked\<close> waits until it is cleared and
  returns a new inode with it set; \<open>unlock_new_inode\<close> and \<open>iget_failed\<close> clear it. \<open>Leave m\<close> is
  a return that leaves \<open>m\<close> locked.
\<close>

datatype mutex = InodeLock u64 | NewInode u64 | TreeLock | FreeLock | IdLock

datatype 'm lock_op = Lock 'm | Unlock 'm | Leave 'm

definition spfs_free_alloc_locks :: "mutex lock_op list" where
  "spfs_free_alloc_locks = [Lock FreeLock, Unlock FreeLock]"

text \<open>An insertion that allocates \<open>allocs\<close> times, under the lock its caller takes.\<close>

definition spfs_btree_insert_locks :: "nat \<Rightarrow> mutex lock_op list" where
  "spfs_btree_insert_locks allocs = concat (replicate allocs spfs_free_alloc_locks)"

text \<open>\<open>memory\<close>: \<open>iget_locked\<close> returned an inode.\<close>

definition spfs_new_inode_locks :: "u64 \<Rightarrow> bool \<Rightarrow> mutex lock_op list" where
  "spfs_new_inode_locks n memory =
     [Lock IdLock, Unlock IdLock] @ (if memory then [Lock (NewInode n), Unlock (NewInode n)] else [])"

text \<open>
  \<open>FetchFailed\<close>: there is no memory. \<open>FetchNew\<close> and \<open>FetchMissing\<close>: the number is not in the cache and
  is looked up in the tree, where it is or is not.
\<close>

datatype fetch = FetchFailed | FetchCached | FetchNew | FetchMissing

fun spfs_inode_by_id_locks :: "u64 \<Rightarrow> fetch \<Rightarrow> mutex lock_op list" where
  "spfs_inode_by_id_locks n FetchFailed = []"
| "spfs_inode_by_id_locks n FetchCached = [Lock (NewInode n), Unlock (NewInode n)]"
| "spfs_inode_by_id_locks n _ =
     [Lock (NewInode n), Lock TreeLock, Unlock TreeLock, Unlock (NewInode n)]"

text \<open>Without memory the error pointer of \<open>spfs_new_inode\<close> is followed and the call ends there.\<close>

definition spfs_generic_create_locks :: "u64 \<Rightarrow> bool \<Rightarrow> nat \<Rightarrow> mutex lock_op list" where
  "spfs_generic_create_locks n memory allocs =
     spfs_new_inode_locks n memory @
     (if memory then [Lock TreeLock] @ spfs_btree_insert_locks allocs @ [Unlock TreeLock] else [])"

definition spfs_add_child_locks :: "u64 \<Rightarrow> bool \<Rightarrow> mutex lock_op list" where
  "spfs_add_child_locks parent alloc =
     [Lock (InodeLock parent)] @ (if alloc then spfs_free_alloc_locks else []) @
     [Unlock (InodeLock parent)]"

text \<open>
  The children one after the other; one for which there is no memory is passed over. For one that is
  missing the callback follows the null pointer, and the task dies with the mutex of the directory.
\<close>

fun children_locks :: "u64 \<Rightarrow> (u64 \<times> fetch) list \<Rightarrow> mutex lock_op list" where
  "children_locks parent [] = [Unlock (InodeLock parent)]"
| "children_locks parent ((n, f) # children) = spfs_inode_by_id_locks n f @
     (if f = FetchMissing then [Leave (InodeLock parent)] else children_locks parent children)"

definition spfs_for_all_children_locks :: "u64 \<Rightarrow> (u64 \<times> fetch) list \<Rightarrow> mutex lock_op list" where
  "spfs_for_all_children_locks parent children =
     Lock (InodeLock parent) # children_locks parent children"

text \<open>The error return inside the loop of \<open>spfs_read\<close> comes before the unlock.\<close>

definition spfs_read_locks :: "u64 \<Rightarrow> bool \<Rightarrow> mutex lock_op list" where
  "spfs_read_locks n failed =
     [Lock (InodeLock n), if failed then Leave (InodeLock n) else Unlock (InodeLock n)]"

text \<open>
  Whether the file has to grow, and whether the allocation gives a block. Without one the call
  fails; it can also fail later, when the tree or an extent is written.
\<close>

datatype growth = NoGrowth | GrowthFailed | Grown

fun spfs_ensure_capacity_locks :: "growth \<Rightarrow> mutex lock_op list" where
  "spfs_ensure_capacity_locks NoGrowth = []"
| "spfs_ensure_capacity_locks GrowthFailed = spfs_free_alloc_locks"
| "spfs_ensure_capacity_locks Grown = spfs_free_alloc_locks @ [Lock TreeLock, Unlock TreeLock]"

definition spfs_write_locks :: "u64 \<Rightarrow> growth \<Rightarrow> bool \<Rightarrow> mutex lock_op list" where
  "spfs_write_locks n growth failed =
     [Lock (InodeLock n)] @ spfs_ensure_capacity_locks growth @
     [if failed \<or> growth = GrowthFailed then Leave (InodeLock n) else Unlock (InodeLock n)]"

definition spfs_write_inode_locks :: "mutex lock_op list" where
  "spfs_write_inode_locks = [Lock TreeLock, Unlock TreeLock]"

text \<open>
  The calls of the VFS. \<open>None\<close>: the call returns before it locks (a bad argument, the wrong type
  of inode, an interrupted wait). For creation: the number of the new inode, whether there is
  memory for it, the allocations of the insertion, and whether the child is added, with or
  without a new block.
\<close>

datatype vfs_call =
    CreateCall u64 "(u64 \<times> bool \<times> nat \<times> bool option) option"
  | ChildrenCall u64 "(u64 \<times> fetch) list option"
  | ReadCall u64 "bool option"
  | WriteCall u64 "(growth \<times> bool) option"
  | WriteInodeCall

fun call_locks :: "vfs_call \<Rightarrow> mutex lock_op list" where
  "call_locks (CreateCall parent None) = []"
| "call_locks (CreateCall parent (Some (n, memory, allocs, child))) =
     spfs_generic_create_locks n memory allocs @
     (case child of
        Some alloc \<Rightarrow> if memory then spfs_add_child_locks parent alloc else []
      | None \<Rightarrow> [])"
| "call_locks (ChildrenCall parent None) = []"
| "call_locks (ChildrenCall parent (Some children)) = spfs_for_all_children_locks parent children"
| "call_locks (ReadCall n None) = []"
| "call_locks (ReadCall n (Some failed)) = spfs_read_locks n failed"
| "call_locks (WriteCall n None) = []"
| "call_locks (WriteCall n (Some (growth, failed))) = spfs_write_locks n growth failed"
| "call_locks WriteInodeCall = spfs_write_inode_locks"

text \<open>
  The mutex a call leaves locked: a read or write that fails, and a walk over a directory that comes
  to a missing child.
\<close>

fun left_by :: "vfs_call \<Rightarrow> mutex option" where
  "left_by (ReadCall n (Some failed)) = (if failed then Some (InodeLock n) else None)"
| "left_by (WriteCall n (Some (growth, failed))) =
     (if failed \<or> growth = GrowthFailed then Some (InodeLock n) else None)"
| "left_by (ChildrenCall parent (Some children)) =
     (if FetchMissing \<in> snd ` set children then Some (InodeLock parent) else None)"
| "left_by _ = None"

text \<open>The calls that end in a crash: the task makes no other call then.\<close>

fun crashes :: "vfs_call \<Rightarrow> bool" where
  "crashes (ChildrenCall parent (Some children)) = (FetchMissing \<in> snd ` set children)"
| "crashes (CreateCall parent (Some (n, memory, allocs, child))) = (\<not> memory)"
| "crashes _ = False"

section \<open>Tasks\<close>

text \<open>
  Any other crash (a \<open>BUG_ON\<close>, an access outside a buffer) can end a call after any of its lock
  operations: the task dies there and what it holds then is never unlocked. \<open>holds\<close> is what is held
  after some operations.
\<close>

fun holds :: "'m list \<Rightarrow> 'm lock_op list \<Rightarrow> 'm list" where
  "holds held [] = held"
| "holds held (Lock m # ops) = holds (m # held) ops"
| "holds held (Unlock m # ops) = holds (remove1 m held) ops"
| "holds held (Leave m # ops) = holds (remove1 m held) ops"

definition died :: "'m lock_op list \<Rightarrow> nat \<Rightarrow> 'm lock_op list" where
  "died ops j = take j ops @ map Leave (holds [] (take j ops))"

text \<open>
  A task: the calls it is to make, and perhaps one at the end in which it dies after so many
  operations. After a call that crashes it makes no more.
\<close>

type_synonym task = "vfs_call list \<times> (vfs_call \<times> nat) option"

fun calls_made :: "vfs_call list \<Rightarrow> vfs_call list" where
  "calls_made [] = []"
| "calls_made (c # cs) = c # (if crashes c then [] else calls_made cs)"

definition task_ops :: "task \<Rightarrow> mutex lock_op list list" where
  "task_ops t = map call_locks (calls_made (fst t)) @
     (case snd t of
        Some (c, j) \<Rightarrow> if list_ex crashes (fst t) then [] else [died (call_locks c) j]
      | None \<Rightarrow> [])"

text \<open>The mutexes a task can leave locked for good.\<close>

definition culprit :: "task \<Rightarrow> mutex \<Rightarrow> bool" where
  "culprit t m \<longleftrightarrow> (\<exists>c\<in>set (fst t). left_by c = Some m) \<or>
     (case snd t of
        Some (c, j) \<Rightarrow> left_by c = Some m \<or> m \<in> set (holds [] (take j (call_locks c)))
      | None \<Rightarrow> False)"

lemma calls_made_subset: "set (calls_made cs) \<subseteq> set cs"
  by (induction cs) auto

text \<open>
  A task holds some mutexes and has lock operations to do. \<open>ls_left\<close>: the mutexes that are
  locked and that no task will unlock.
\<close>

record 'm locking =
  ls_tasks :: "('m list \<times> 'm lock_op list) list"
  ls_left :: "'m set"

definition taken :: "'m locking \<Rightarrow> 'm \<Rightarrow> bool" where
  "taken st m \<longleftrightarrow> m \<in> ls_left st \<or> (\<exists>(held, todo)\<in>set (ls_tasks st). m \<in> set held)"

inductive lock_step :: "'m locking \<Rightarrow> 'm locking \<Rightarrow> bool" where
  locks: "i < length (ls_tasks st) \<Longrightarrow> ls_tasks st ! i = (held, Lock m # todo) \<Longrightarrow> \<not> taken st m \<Longrightarrow>
    lock_step st (st\<lparr>ls_tasks := (ls_tasks st)[i := (m # held, todo)]\<rparr>)"
| unlocks: "i < length (ls_tasks st) \<Longrightarrow> ls_tasks st ! i = (held, Unlock m # todo) \<Longrightarrow>
    lock_step st (st\<lparr>ls_tasks := (ls_tasks st)[i := (remove1 m held, todo)]\<rparr>)"
| leaves: "i < length (ls_tasks st) \<Longrightarrow> ls_tasks st ! i = (held, Leave m # todo) \<Longrightarrow>
    lock_step st (st\<lparr>ls_tasks := (ls_tasks st)[i := (remove1 m held, todo)],
      ls_left := insert m (ls_left st)\<rparr>)"

inductive_cases lock_stepE: "lock_step st st'"

inductive lock_steps :: "'m locking \<Rightarrow> nat \<Rightarrow> 'm locking \<Rightarrow> bool" where
  no_step: "lock_steps st 0 st"
| more_steps: "lock_steps st n st' \<Longrightarrow> lock_step st' st'' \<Longrightarrow> lock_steps st (Suc n) st''"

definition stuck :: "'m locking \<Rightarrow> bool" where
  "stuck st \<longleftrightarrow> (\<forall>st'. \<not> lock_step st st')"

definition all_done :: "'m locking \<Rightarrow> bool" where
  "all_done st \<longleftrightarrow> (\<forall>t\<in>set (ls_tasks st). t = ([], []))"

text \<open>A task waits for a mutex.\<close>

definition waits_for :: "'m locking \<Rightarrow> 'm \<Rightarrow> bool" where
  "waits_for st m \<longleftrightarrow> (\<exists>held todo. (held, Lock m # todo) \<in> set (ls_tasks st))"

section \<open>Taking mutexes in the order of a rank\<close>

text \<open>
  \<open>lock_run\<close>: what a task that holds \<open>held\<close> holds after its operations, or \<open>None\<close> when it
  takes a mutex that is not above all it holds, or gives up one it does not hold.
\<close>

fun lock_run :: "('m \<Rightarrow> nat) \<Rightarrow> 'm list \<Rightarrow> 'm lock_op list \<Rightarrow> 'm list option" where
  "lock_run rank held [] = Some held"
| "lock_run rank held (Lock m # ops) =
     (if \<forall>h\<in>set held. rank h < rank m then lock_run rank (m # held) ops else None)"
| "lock_run rank held (Unlock m # ops) =
     (if m \<in> set held then lock_run rank (remove1 m held) ops else None)"
| "lock_run rank held (Leave m # ops) =
     (if m \<in> set held then lock_run rank (remove1 m held) ops else None)"

lemma lock_run_append:
  "lock_run rank held (xs @ ys) = Option.bind (lock_run rank held xs) (\<lambda>h. lock_run rank h ys)"
  by (induction rank held xs rule: lock_run.induct) auto

lemma lock_run_concat:
  "(\<And>ops. ops \<in> set opss \<Longrightarrow> lock_run rank held ops = Some held) \<Longrightarrow>
    lock_run rank held (concat opss) = Some held"
  by (induction opss) (simp_all add: lock_run_append)

lemma lock_run_holds: "lock_run rank held ops = Some h \<Longrightarrow> holds held ops = h"
  by (induction rank held ops rule: lock_run.induct) (auto split: if_splits)

lemma lock_run_leave_all: "lock_run rank held (map Leave held) = Some []"
  by (induction held) simp_all

text \<open>A task that dies in an ordered call has taken its mutexes in order, and leaves all it holds.\<close>

lemma lock_run_died:
  assumes "lock_run rank [] ops = Some []"
  shows "lock_run rank [] (died ops j) = Some []"
proof -
  have "lock_run rank [] (take j ops @ drop j ops) = Some []" using assms by simp
  then obtain h where h: "lock_run rank [] (take j ops) = Some h"
    unfolding lock_run_append by (cases "lock_run rank [] (take j ops)") auto
  then show ?thesis by (simp add: died_def lock_run_append lock_run_leave_all lock_run_holds [OF h])
qed

definition lock_work :: "'m locking \<Rightarrow> nat" where
  "lock_work st = sum_list (map (length \<circ> snd) (ls_tasks st))"

definition tasks_for :: "'m lock_op list list list \<Rightarrow> 'm locking" where
  "tasks_for opsss = \<lparr>ls_tasks = map (\<lambda>opss. ([], concat opss)) opsss, ls_left = {}\<rparr>"

lemma lock_work_update:
  "i < length ts \<Longrightarrow> ts ! i = (held, x # todo) \<Longrightarrow>
    Suc (sum_list (map (length \<circ> snd) (ts[i := (held', todo)]))) = sum_list (map (length \<circ> snd) ts)"
proof (induction ts arbitrary: i)
  case (Cons t ts)
  then show ?case by (cases i) auto
qed simp

lemma lock_step_work: "lock_step st st' \<Longrightarrow> lock_work st = Suc (lock_work st')"
  by (auto elim!: lock_stepE simp: lock_work_def lock_work_update)

lemma lock_steps_work: "lock_steps st n st' \<Longrightarrow> lock_work st = n + lock_work st'"
  by (induction rule: lock_steps.induct) (auto dest: lock_step_work)

text \<open>The contract: every call takes its mutexes in the order of the rank and ends with none.\<close>

locale ranked_locks =
  fixes rank :: "'m \<Rightarrow> nat" and calls :: "'m lock_op list set"
  assumes call_ordered: "ops \<in> calls \<Longrightarrow> lock_run rank [] ops = Some []"
begin

definition good :: "'m lock_op list set \<Rightarrow> 'm locking \<Rightarrow> bool" where
  "good C st \<longleftrightarrow>
     (\<forall>(held, todo)\<in>set (ls_tasks st). lock_run rank held todo = Some [] \<and>
        (\<forall>m. Leave m \<in> set todo \<longrightarrow> (\<exists>ops\<in>C. Leave m \<in> set ops))) \<and>
     (\<forall>m\<in>ls_left st. \<exists>ops\<in>C. Leave m \<in> set ops)"

text \<open>What a task runs: calls, and calls in which it dies.\<close>

definition runs :: "'m lock_op list set" where
  "runs = calls \<union> {died ops j | ops j. ops \<in> calls}"

lemma run_ordered: "ops \<in> runs \<Longrightarrow> lock_run rank [] ops = Some []"
  by (auto simp: runs_def intro: call_ordered lock_run_died)

lemma good_start:
  assumes "\<Union> (set ` set opsss) \<subseteq> runs"
  shows "good (\<Union> (set ` set opsss)) (tasks_for opsss)"
proof -
  have "lock_run rank [] (concat opss) = Some []" if "opss \<in> set opsss" for opss
    using assms that by (intro lock_run_concat run_ordered) blast
  then show ?thesis by (auto simp: good_def tasks_for_def)
qed

lemma good_update:
  assumes "good C st" and "i < length (ls_tasks st)" and "ls_tasks st ! i = (held, x # todo)"
    and "lock_run rank held' todo = Some []" and "X = {} \<or> (\<exists>m. X = {m} \<and> x = Leave m)"
  shows "good C (st\<lparr>ls_tasks := (ls_tasks st)[i := (held', todo)], ls_left := X \<union> ls_left st\<rparr>)"
proof -
  let ?t = "(held', todo)"
  have "(held, x # todo) \<in> set (ls_tasks st)" using assms(2,3) by (metis nth_mem)
  then have old: "\<forall>m. Leave m \<in> set (x # todo) \<longrightarrow> (\<exists>ops\<in>C. Leave m \<in> set ops)"
    using assms(1) unfolding good_def by blast
  have "lock_run rank h td = Some [] \<and> (\<forall>m. Leave m \<in> set td \<longrightarrow> (\<exists>ops\<in>C. Leave m \<in> set ops))"
    if "(h, td) \<in> set ((ls_tasks st)[i := ?t])" for h td
  proof (cases "(h, td) = ?t")
    case True
    then show ?thesis using assms(4) old by simp
  next
    case False
    then have "(h, td) \<in> set (ls_tasks st)"
      using that set_update_subset_insert [of "ls_tasks st" i ?t] by blast
    then show ?thesis using assms(1) unfolding good_def by blast
  qed
  moreover have "\<exists>ops\<in>C. Leave m \<in> set ops" if "m \<in> X \<union> ls_left st" for m
    using that assms(1,5) old unfolding good_def by auto
  ultimately show ?thesis unfolding good_def by auto
qed

lemma good_run: "good C st \<Longrightarrow> (held, todo) \<in> set (ls_tasks st) \<Longrightarrow> lock_run rank held todo = Some []"
  unfolding good_def by blast

lemma good_step:
  assumes "lock_step st st'" and "good C st"
  shows "good C st'"
  using assms
proof induction
  case (locks i st held m todo)
  then have "lock_run rank held (Lock m # todo) = Some []" using good_run nth_mem by metis
  then show ?case using good_update [OF locks.prems locks.hyps(1,2), of "m # held" "{}"]
    by (auto split: if_splits)
next
  case (unlocks i st held m todo)
  then have "lock_run rank held (Unlock m # todo) = Some []" using good_run nth_mem by metis
  then show ?case using good_update [OF unlocks.prems unlocks.hyps(1,2), of "remove1 m held" "{}"]
    by (auto split: if_splits)
next
  case (leaves i st held m todo)
  then have "lock_run rank held (Leave m # todo) = Some []" using good_run nth_mem by metis
  then show ?case using good_update [OF leaves.prems leaves.hyps(1,2), of "remove1 m held" "{m}"]
    by (auto split: if_splits)
qed

lemma good_steps: "lock_steps st n st' \<Longrightarrow> good C st \<Longrightarrow> good C st'"
  by (induction rule: lock_steps.induct) (auto intro: good_step)

text \<open>
  When no task can go on, the one that waits for the highest mutex waits for one that is left:
  a task that held it would wait for a higher one.
\<close>

lemma stuck_waits:
  assumes "stuck st" and "(held, op # todo) \<in> set (ls_tasks st)"
  shows "\<exists>m. op = Lock m \<and> taken st m"
proof -
  obtain i where "i < length (ls_tasks st)" "ls_tasks st ! i = (held, op # todo)"
    using assms(2) by (auto simp: in_set_conv_nth)
  then show ?thesis
    using assms(1) lock_step.intros [of i st held] unfolding stuck_def by (cases op) blast+
qed

lemma stuck_on_left:
  assumes good: "good C st" and stuck: "stuck st" and "\<not> all_done st"
  shows "\<exists>m. waits_for st m \<and> m \<in> ls_left st"
proof -
  define W where "W = {m. waits_for st m}"
  have "W \<subseteq> (\<lambda>t. case t of (held, Lock m # _) \<Rightarrow> m) ` set (ls_tasks st)"
    unfolding W_def waits_for_def by force
  then have fin: "finite W" by (rule finite_subset) simp
  obtain held todo where t: "(held, todo) \<in> set (ls_tasks st)" "(held, todo) \<noteq> ([], [])"
    using assms(3) by (auto simp: all_done_def)
  have "todo \<noteq> []" using good_run [OF good t(1)] t(2) by (cases todo) auto
  then have "W \<noteq> {}" using t(1) stuck_waits [OF stuck, of held] unfolding W_def waits_for_def
    by (cases todo) blast+
  then have "Max (rank ` W) \<in> rank ` W" using fin by (intro Max_in) simp_all
  then obtain m where m: "m \<in> W" and "rank m = Max (rank ` W)" by auto
  then have top: "\<forall>m'\<in>W. rank m' \<le> rank m" using fin by simp
  have "m \<in> ls_left st"
  proof (rule ccontr)
    assume "m \<notin> ls_left st"
    moreover have "taken st m" using m stuck_waits [OF stuck] unfolding W_def waits_for_def by blast
    ultimately obtain h td where h: "(h, td) \<in> set (ls_tasks st)" "m \<in> set h" by (auto simp: taken_def)
    then obtain op td' where td: "td = op # td'" using good_run [OF good h(1)] by (cases td) auto
    then obtain m' where m': "op = Lock m'" using stuck_waits [OF stuck] h(1) by blast
    then have "m' \<in> W" using h(1) td unfolding W_def waits_for_def by blast
    moreover have "rank m < rank m'" using good_run [OF good h(1)] h(2) by (auto simp: td m' split: if_splits)
    ultimately show False using top by fastforce
  qed
  then show ?thesis using m by (auto simp: W_def)
qed

lemma stuck_result:
  assumes "\<Union> (set ` set opsss) \<subseteq> runs" and "lock_steps (tasks_for opsss) n st" and "stuck st"
  shows "(all_done st \<or> (\<exists>m. waits_for st m \<and> m \<in> ls_left st)) \<and>
    (\<forall>m\<in>ls_left st. \<exists>ops\<in>\<Union> (set ` set opsss). Leave m \<in> set ops)"
proof -
  have g: "good (\<Union> (set ` set opsss)) st" using assms(1,2) good_start good_steps by blast
  then have "\<forall>m\<in>ls_left st. \<exists>ops\<in>\<Union> (set ` set opsss). Leave m \<in> set ops"
    unfolding good_def by blast
  then show ?thesis using stuck_on_left [OF g assms(3)] by blast
qed

end

section \<open>The order of the module\<close>

text \<open>
  The mutex of an inode first, then the state of an inode that is fetched, the tree, the free
  list. No operation holds two mutexes of inodes. The counter's mutex is taken alone.
\<close>

fun mutex_rank :: "mutex \<Rightarrow> nat" where
  "mutex_rank (InodeLock n) = 0"
| "mutex_rank (NewInode n) = 1"
| "mutex_rank TreeLock = 2"
| "mutex_rank FreeLock = 3"
| "mutex_rank IdLock = 4"

lemma free_alloc_ordered:
  "\<forall>h\<in>set held. mutex_rank h < 3 \<Longrightarrow> lock_run mutex_rank held spfs_free_alloc_locks = Some held"
  by (simp add: spfs_free_alloc_locks_def)

lemma insert_ordered:
  "\<forall>h\<in>set held. mutex_rank h < 3 \<Longrightarrow>
    lock_run mutex_rank held (spfs_btree_insert_locks allocs) = Some held"
  unfolding spfs_btree_insert_locks_def
  by (rule lock_run_concat) (auto dest: in_set_replicate [THEN iffD1] intro: free_alloc_ordered)

lemma inode_by_id_ordered:
  "\<forall>h\<in>set held. mutex_rank h < 1 \<Longrightarrow>
    lock_run mutex_rank held (spfs_inode_by_id_locks n f) = Some held"
  by (cases f) fastforce+

lemma children_ordered:
  "lock_run mutex_rank [] (spfs_for_all_children_locks parent children) = Some []"
proof -
  have "lock_run mutex_rank [InodeLock parent] (children_locks parent children) = Some []"
    by (induction parent children rule: children_locks.induct) (simp_all add: lock_run_append inode_by_id_ordered)
  then show ?thesis by (simp add: spfs_for_all_children_locks_def)
qed

lemma capacity_ordered:
  "lock_run mutex_rank [InodeLock n] (spfs_ensure_capacity_locks g) = Some [InodeLock n]"
  by (cases g) (simp_all add: lock_run_append free_alloc_ordered)

lemma call_locks_ordered: "lock_run mutex_rank [] (call_locks c) = Some []"
  by (cases c rule: call_locks.cases)
    (auto simp: spfs_generic_create_locks_def spfs_new_inode_locks_def spfs_add_child_locks_def
      spfs_read_locks_def spfs_write_locks_def spfs_write_inode_locks_def lock_run_append
      insert_ordered free_alloc_ordered children_ordered capacity_ordered split: option.splits)

interpretation spfs_locks: ranked_locks mutex_rank "range call_locks"
  by unfold_locales (auto simp: call_locks_ordered)

lemma Leave_alloc: "Leave m \<notin> set spfs_free_alloc_locks" "Leave m \<notin> set (spfs_btree_insert_locks k)"
  by (auto simp: spfs_btree_insert_locks_def spfs_free_alloc_locks_def)

lemma Leave_children:
  "Leave m \<in> set (children_locks parent children) \<longleftrightarrow> FetchMissing \<in> snd ` set children \<and> m = InodeLock parent"
proof (induction parent children rule: children_locks.induct)
  case (2 parent n f children)
  have "Leave m \<notin> set (spfs_inode_by_id_locks n f)" by (cases f) simp_all
  then show ?case using 2 by (cases "f = FetchMissing") auto
qed simp

lemma Leave_call: "Leave m \<in> set (call_locks c) \<longleftrightarrow> left_by c = Some m"
proof -
  have "Leave m \<notin> set (spfs_ensure_capacity_locks g)" for g
    by (cases g) (simp_all add: Leave_alloc)
  then show ?thesis
    by (cases c rule: call_locks.cases)
      (auto simp: spfs_generic_create_locks_def spfs_new_inode_locks_def spfs_add_child_locks_def
        spfs_for_all_children_locks_def spfs_read_locks_def spfs_write_locks_def
        spfs_write_inode_locks_def Leave_alloc Leave_children split: option.splits)
qed

lemma Leave_task: "ops \<in> set (task_ops t) \<Longrightarrow> Leave m \<in> set ops \<Longrightarrow> culprit t m"
  by (auto simp: task_ops_def culprit_def died_def Leave_call [symmetric] split: option.splits if_splits
      dest: in_set_takeD calls_made_subset [THEN subsetD])

text \<open>
  C16: Tasks that call into the module at the same time never deadlock over its mutexes, whatever
  they call, however their lock operations interleave and wherever some of them die in a crash.
  They come to a halt after as many steps as they have lock operations at the latest. Then all of
  them have made their calls, or some task waits for a mutex that nobody will unlock; and every such
  mutex is one that a task held when it died, that of a directory with a missing child which a task
  walked over, or that of an inode which a failed read or write of a task left locked. So when no
  read or write fails, no child is missing and no task dies, all calls are done and no mutex is
  held.
\<close>

theorem only_failed_calls_block:
  assumes "lock_steps (tasks_for (map task_ops ts)) n st" and "stuck st"
  shows "n \<le> lock_work (tasks_for (map task_ops ts)) \<and>
    (all_done st \<or> (\<exists>m. waits_for st m \<and> m \<in> ls_left st)) \<and>
    (\<forall>m\<in>ls_left st. \<exists>t\<in>set ts. culprit t m) \<and>
    ((\<forall>t\<in>set ts. snd t = None \<and> (\<forall>c\<in>set (fst t). left_by c = None)) \<longrightarrow>
       all_done st \<and> (\<forall>m. \<not> taken st m))"
proof -
  have "\<Union> (set ` set (map task_ops ts)) \<subseteq> spfs_locks.runs"
    by (auto simp: task_ops_def spfs_locks.runs_def split: option.splits if_splits)
  note result = spfs_locks.stuck_result [OF this assms]
  then have left: "\<forall>m\<in>ls_left st. \<exists>t\<in>set ts. culprit t m"
    using Leave_task by fastforce
  have "n \<le> lock_work (tasks_for (map task_ops ts))"
    using lock_steps_work [OF assms(1)] by simp
  moreover have "all_done st \<and> (\<forall>m. \<not> taken st m)"
    if "\<forall>t\<in>set ts. snd t = None \<and> (\<forall>c\<in>set (fst t). left_by c = None)"
  proof -
    have "ls_left st = {}" using left that by (fastforce simp: culprit_def)
    then show ?thesis using result by (fastforce simp: taken_def all_done_def)
  qed
  ultimately show ?thesis using result left by blast
qed

text \<open>A failed read of file 2 and another read of it.\<close>

definition blocked_readers :: "mutex locking" where
  "blocked_readers =
     \<lparr>ls_tasks = [([], []), ([], spfs_read_locks 2 False)], ls_left = {InodeLock 2}\<rparr>"

definition two_readers :: "task list" where
  "two_readers = [([ReadCall 2 (Some True)], None), ([ReadCall 2 (Some False)], None)]"

lemma blocked_readers:
  "lock_steps (tasks_for (map task_ops two_readers)) 2 blocked_readers" "stuck blocked_readers"
proof -
  let ?s0 = "\<lparr>ls_tasks = [([], spfs_read_locks 2 True), ([], spfs_read_locks 2 False)], ls_left = {}\<rparr>"
  let ?s1 = "\<lparr>ls_tasks = [([InodeLock 2], [Leave (InodeLock 2)]), ([], spfs_read_locks 2 False)], ls_left = {}\<rparr>"
  have "lock_step ?s0 ?s1"
    using lock_step.locks [of 0 ?s0 "[]" "InodeLock 2"] by (simp add: taken_def spfs_read_locks_def)
  moreover have "lock_step ?s1 blocked_readers"
    using lock_step.leaves [of 0 ?s1 "[InodeLock 2]" "InodeLock 2"]
    by (simp add: blocked_readers_def)
  moreover have "tasks_for (map task_ops two_readers) = ?s0"
    by (simp add: tasks_for_def task_ops_def two_readers_def)
  ultimately show "lock_steps (tasks_for (map task_ops two_readers)) 2 blocked_readers"
    using lock_steps.intros [of ?s0] by (metis numeral_2_eq_2)
  show "stuck blocked_readers"
    by (auto simp: stuck_def blocked_readers_def spfs_read_locks_def taken_def less_Suc_eq
        elim!: lock_stepE)
qed

theorem only_failed_calls_block_witness:
  "lock_steps (tasks_for (map task_ops two_readers)) 2 blocked_readers \<and> stuck blocked_readers \<and>
   (\<exists>m. waits_for blocked_readers m \<and> m \<in> ls_left blocked_readers) \<and>
   (\<exists>t\<in>set two_readers. culprit t (InodeLock 2))"
  using only_failed_calls_block [OF blocked_readers] blocked_readers
  by (simp add: all_done_def blocked_readers_def spfs_read_locks_def)

end
