(* ===== verification/Fsck_Chain.thy ===== *)
theory Fsck_Chain
  imports Mount
begin

text \<open>
  The two readers of the free list, fsck and the kernel at mount, on the same device: what the
  kernel takes for a chain of well-formed blocks fsck accepts, as long as the addresses of the
  blocks stay below 4 GiB, where the product fsck computes in 32 bits wraps around.
\<close>

lemma chain_head_0: "fl_chain d cs \<Longrightarrow> chain_head cs = 0 \<longleftrightarrow> cs = []"
  by (cases cs) auto

lemma low32_ucast_0: "low32 x = x \<Longrightarrow> (ucast x :: u32) = 0 \<longleftrightarrow> x = 0"
  by (metis low32_def ucast_0)

lemma block_address:
  assumes "unat (h :: u64) * unat (m :: u32) < 2 ^ 32" and "m \<noteq> 0"
  shows "unat ((ucast h :: u32) * m) = unat h * unat m"
proof -
  have "unat h * 1 \<le> unat h * unat m" using assms(2) by (intro mult_le_mono2) (simp add: unat_gt_0 Suc_le_eq)
  then have "unat h < 2 ^ 32" using assms(1) by linarith
  then show ?thesis using assms(1) by (simp add: unat_word_ariths unat_ucast_u64_u32)
qed

text \<open>The lines fsck prints for a chain: for each block its header and its nodes, in order.\<close>

definition node_wire :: "spfs_free_node \<Rightarrow> fl_entry_wire" where
  "node_wire n = \<lparr>e_start = ucast (fn_start n), e_blocks = fn_blocks n\<rparr>"

fun chain_lines :: "(u64 \<times> spfs_free_node list) list \<Rightarrow> fsck_line list" where
  "chain_lines [] = []"
| "chain_lines ((h, ns) # cs) =
     HeaderLine \<lparr>h_magic = mkfs_magic, h_entries = of_nat (length ns), h_next = ucast (chain_head cs)\<rparr> #
     map (\<lambda>n. EntryLine (node_wire n)) ns @ chain_lines cs"

lemma read_free_entry_ok:
  assumes "load (f_data f) (f_off f) 8 = fl_entry_bytes n" and "f_off f + 8 \<le> length (f_data f)"
  shows "read_free_entry f = (Inr (node_wire n), f\<lparr>f_off := f_off f + 8\<rparr>)"
proof -
  have "load (f_data f) (f_off f) (4 + 4) = be_bytes 4 (unat (ucast (fn_start n) :: u32)) @ be_bytes 4 (unat (fn_blocks n))"
    using assms(1) by (simp add: fl_entry_bytes_def)
  note parts = load_prefix [OF this]
  show ?thesis using parts assms(2)
    by (simp add: read_free_entry_def fsck_read_u32_ok node_wire_def)
qed

lemma printed_entries_ok:
  "load (f_data f) (f_off f) (8 * length ns) = concat (map fl_entry_bytes ns) \<Longrightarrow>
    f_off f + 8 * length ns \<le> length (f_data f) \<Longrightarrow>
    printed_entries (length ns) f = map (\<lambda>n. EntryLine (node_wire n)) ns"
proof (induction ns arbitrary: f)
  case (Cons n ns)
  have "load (f_data f) (f_off f) (8 + 8 * length ns) = fl_entry_bytes n @ concat (map fl_entry_bytes ns)"
    using Cons.prems(1) by simp
  moreover have "length (fl_entry_bytes n) = 8" by (simp add: fl_entry_bytes_def)
  moreover have "f_off f + 8 \<le> length (f_data f)" using Cons.prems(2) by simp
  ultimately have head: "load (f_data f) (f_off f) 8 = fl_entry_bytes n"
    and tail: "load (f_data f) (f_off f + 8) (8 * length ns) = concat (map fl_entry_bytes ns)"
    using load_prefix by blast+
  then show ?case
    using Cons.IH [of "f\<lparr>f_off := f_off f + 8\<rparr>"] Cons.prems(2) read_free_entry_ok [OF head]
    by (simp add: print_free_entry_def)
qed simp

lemma fsck_chain_loop:
  assumes dev: "d_blocks d = image_blocks (unat (m_block_size super)) (f_data f)"
    and chain: "fl_chain d cs" and "cs \<noteq> []" and "length cs \<le> fuel"
    and small: "\<forall>(h, ns)\<in>set cs. unat h * unat (m_block_size super) < 2 ^ 32"
    and bsz: "m_block_size super \<noteq> 0"
  shows "(\<exists>off. fsck_free_loop fuel f super (ucast (chain_head cs)) = Done (0, f\<lparr>f_off := off\<rparr>)) \<and>
    printed_free_list fuel f super (ucast (chain_head cs)) = chain_lines cs"
  using chain assms(3,4) small dev
proof (induction cs arbitrary: f fuel)
  case (Cons c cs)
  obtain h ns where c: "c = (h, ns)" by (cases c)
  obtain m where m: "fuel = Suc m" using Cons.prems(3) by (cases fuel) auto
  from Cons.prems(1) obtain b where b: "d_blocks d h = Some b"
    and blk: "is_fl_block b (chain_head cs) ns" and chain: "fl_chain d cs"
    by (auto simp: c split: option.splits)
  let ?B = "unat (m_block_size super)" and ?pos = "unat h * unat (m_block_size super)"
  have inside: "(unat h + 1) * ?B \<le> length (f_data f)" and bl: "b = load (f_data f) ?pos ?B"
    using b Cons.prems(5) by (auto simp: image_blocks_def split: if_splits)
  have room: "?pos + ?B \<le> length (f_data f)" using inside by (simp add: algebra_simps)
  then have lb: "length b = ?B" by (simp add: bl)
  have pos: "unat (ucast h * m_block_size super) = ?pos"
    using Cons.prems(4) bsz by (intro block_address) (auto simp: c)
  define g where "g = f\<lparr>f_off := ?pos\<rparr>"
  have len: "12 + 8 * length ns \<le> ?B" "16 \<le> ?B" and hd: "load b 0 12 = fl_header_bytes (of_nat (length ns)) (chain_head cs)"
    and num: "unat (of_nat (length ns) :: u32) = length ns"
    and low: "low32 (chain_head cs) = chain_head cs"
    and bytes: "load b 12 (8 * length ns) = concat (map fl_entry_bytes ns)"
    using blk lb by (simp_all add: is_fl_block_def unat_of_nat)
  have "load (f_data g) (f_off g) 12 = fl_header_bytes (of_nat (length ns)) (chain_head cs)"
    using hd load_load [of 0 12 ?B] len by (simp add: bl g_def)
  then have hdr: "read_free_list_header g = (Inr \<lparr>h_magic = mkfs_magic, h_entries = of_nat (length ns),
      h_next = ucast (chain_head cs)\<rparr>, g\<lparr>f_off := f_off g + 12\<rparr>)"
    using room len by (intro fsck_header_ok) (simp_all add: g_def)
  have ent: "fsck_entries (length ns) (g\<lparr>f_off := ?pos + 12\<rparr>) =
      (True, g\<lparr>f_off := ?pos + 12 + 8 * length ns\<rparr>)"
    using room len by (subst fsck_entries_ok) (simp_all add: g_def)
  let ?g' = "g\<lparr>f_off := ?pos + 12 + 8 * length ns\<rparr>"
  have "load (f_data g) (?pos + 12) (8 * length ns) = concat (map fl_entry_bytes ns)"
    using bytes load_load [of 12 "8 * length ns" ?B] len by (simp add: bl g_def)
  then have lines: "printed_entries (length ns) (g\<lparr>f_off := ?pos + 12\<rparr>) = map (\<lambda>n. EntryLine (node_wire n)) ns"
    using room len by (intro printed_entries_ok) (simp_all add: g_def)
  have step: "fsck_free_loop fuel f super (ucast h) =
      (if cs = [] then Done (0, ?g') else fsck_free_loop m ?g' super (ucast (chain_head cs)))"
    using hdr ent num low32_ucast_0 [OF low] chain_head_0 [OF chain]
    by (simp add: m pos g_def Let_def)
  have out: "printed_free_list fuel f super (ucast h) =
      HeaderLine \<lparr>h_magic = mkfs_magic, h_entries = of_nat (length ns), h_next = ucast (chain_head cs)\<rparr> #
      map (\<lambda>n. EntryLine (node_wire n)) ns @
      (if cs = [] then [] else printed_free_list m ?g' super (ucast (chain_head cs)))"
    using hdr ent lines num low32_ucast_0 [OF low] chain_head_0 [OF chain]
    by (simp add: m pos g_def print_free_header_def)
  show ?case
  proof (cases "cs = []")
    case True
    then show ?thesis using step out by (auto simp: c g_def)
  next
    case False
    have "(\<exists>off. fsck_free_loop m ?g' super (ucast (chain_head cs)) = Done (0, ?g'\<lparr>f_off := off\<rparr>)) \<and>
        printed_free_list m ?g' super (ucast (chain_head cs)) = chain_lines cs"
      using Cons.IH [OF chain False, of m ?g'] Cons.prems(3,4,5) by (simp add: m g_def)
    then show ?thesis using step out False by (auto simp: c g_def)
  qed
qed simp

lemma fsck_loop_wraps:
  "block * m_block_size super = block' * m_block_size super \<Longrightarrow>
    fsck_free_loop fuel f super block = fsck_free_loop fuel f super block'"
  by (cases fuel) simp_all

text \<open>
  C26: fsck and the kernel agree on the free list: on a device whose super block fsck accepts and
  whose free list the kernel reads as a chain of well-formed blocks, fsck returns 0 and prints the
  super block and every block with its nodes, the nodes the kernel has in its list after
  mounting, when every block of the chain lies below 4 GiB. fsck does not tell
  two blocks apart whose addresses are the same modulo 4 GiB: it reads the one below instead.
\<close>

theorem fsck_and_kernel_read_list:
  assumes "28 \<le> length (f_data f)" and "load (f_data f) 0 28 = super_bytes w"
    and "fsck_super_block (wire_of w) = 0"
    and "d_blocks d = image_blocks (unat (w_block_size w)) (f_data f)"
    and "fl_chain d cs" and "chain_head cs = ucast (w_free_list_offset w)" and "cs \<noteq> []"
    and "length cs \<le> fuel" and "\<forall>(h, ns)\<in>set cs. unat h * unat (w_block_size w) < 2 ^ 32"
    and "\<forall>j. kz j"
  shows "fsck_main fuel True True f = Done 0 \<and>
    fsck_printed fuel True True f = SuperLine (wire_of w) # chain_lines cs \<and>
    (\<exists>list. spfs_free_init kz fuel d (ucast (w_free_list_offset w)) = Done (0, list, d) \<and>
       fl_root list = rev (concat (map snd cs))) \<and>
    (\<forall>b b' g. b * w_block_size w = b' * w_block_size w \<longrightarrow>
       fsck_free_loop fuel g (wire_of w) b = fsck_free_loop fuel g (wire_of w) b')"
proof -
  have super: "read_super_block True f = (Inr (wire_of w), f\<lparr>f_off := 28\<rparr>)"
    by (rule read_super_block_bytes [OF assms(1,2)])
  have bsz: "m_block_size (wire_of w) \<noteq> 0"
    using assms(3) by (auto simp: fsck_super_block_def split: if_splits)
  have "m_free_list_offset (wire_of w) = ucast (chain_head cs)"
    by (simp add: wire_of_def assms(6))
  moreover have "(\<exists>off. fsck_free_loop fuel (f\<lparr>f_off := 28\<rparr>) (wire_of w) (ucast (chain_head cs)) =
      Done (0, f\<lparr>f_off := off\<rparr>)) \<and>
      printed_free_list fuel (f\<lparr>f_off := 28\<rparr>) (wire_of w) (ucast (chain_head cs)) = chain_lines cs"
    using fsck_chain_loop [of d "wire_of w" "f\<lparr>f_off := 28\<rparr>" cs fuel] assms(4,5,7,8,9) bsz
    by (simp add: wire_of_def)
  ultimately have "fsck_main fuel True True f = Done 0"
    and "fsck_printed fuel True True f = SuperLine (wire_of w) # chain_lines cs"
    using super assms(3) by (auto simp: fsck_main_def fsck_free_list_def fsck_printed_def print_super_def)
  moreover have "\<exists>list. spfs_free_init kz fuel d (chain_head cs) = Done (0, list, d) \<and>
      fl_root list = rev (concat (map snd cs))"
    using free_init_loop_spec [OF assms(5,8), of kz] assms(10) by (simp add: spfs_free_init_def)
  moreover have "m_block_size (wire_of w) = w_block_size w" by (simp add: wire_of_def)
  then have "\<forall>b b' g. b * w_block_size w = b' * w_block_size w \<longrightarrow>
      fsck_free_loop fuel g (wire_of w) b = fsck_free_loop fuel g (wire_of w) b'"
    using fsck_loop_wraps [of _ "wire_of w"] by metis
  ultimately show ?thesis unfolding assms(6) by blast
qed

theorem fsck_and_kernel_read_list_witness:
  "\<exists>d list. d_blocks d = image_blocks 2048 (f_data sample_mkfs) \<and>
    fsck_main 1 True True sample_mkfs = Done 0 \<and>
    length (fsck_printed 1 True True sample_mkfs) = 3 \<and>
    spfs_free_init (\<lambda>_. True) 1 d 1 = Done (0, list, d) \<and> length (fl_root list) = 1"
proof -
  define d where "d = \<lparr>d_blocks = image_blocks 2048 (f_data sample_mkfs), d_dirty = {}, d_refs = \<lambda>_. 0\<rparr>"
  note geo = sample_geometry
  have "fl_chain d [(1, [image_node sample_disk sample_stat])]"
    using mkfs_image_chain [OF geo(1), of d] by (simp add: d_def sample_mkfs_def geo)
  moreover have "fsck_super_block (wire_of (image_super sample_stat)) = 0"
    by (simp add: fsck_super_block_def wire_of_def image_super_def magic_eq sample_stat_def)
  moreover have "w_block_size (image_super sample_stat) = 2048"
      "w_free_list_offset (image_super sample_stat) = 1"
    by (simp_all add: image_super_def sample_stat_def)
  moreover have "28 \<le> length (f_data sample_mkfs)"
      "load (f_data sample_mkfs) 0 28 = super_bytes (image_super sample_stat)"
    using mkfs_image_parts [OF geo(1)] by (simp_all add: sample_mkfs_def sample_disk_def)
  ultimately have "fsck_main 1 True True sample_mkfs = Done 0 \<and>
    fsck_printed 1 True True sample_mkfs = SuperLine (wire_of (image_super sample_stat)) #
      chain_lines [(1, [image_node sample_disk sample_stat])] \<and>
    (\<exists>list. spfs_free_init (\<lambda>_. True) 1 d 1 = Done (0, list, d) \<and>
       fl_root list = [image_node sample_disk sample_stat])"
    using fsck_and_kernel_read_list [of sample_mkfs "image_super sample_stat" d
        "[(1, [image_node sample_disk sample_stat])]" 1 "\<lambda>_. True"] by (simp add: d_def)
  then show ?thesis by (intro exI [of _ d]) (auto simp: d_def)
qed

end
