(* ===== verification/First_Write.thy ===== *)
theory First_Write
  imports First_File File_Write
begin

text \<open>
  Across components, further than the first file: writing to it. The file was created, but the
  root of the tree is a block that was never written, in which the file cannot be found when the
  new extent is recorded. The code of that failure is returned as the number of bytes written.
\<close>

lemma btree_modify_zero_root:
  assumes "tree_start s \<noteq> 0" and "d_blocks (s_dev s) (tree_start s) = Some (replicate n 0)" and "1612 \<le> n"
  shows "spfs_btree_modify (Suc fuel) env s ino c cb = Done (1, c, s)"
  using assms zero_node [OF assms(3)]
  by (cases fuel) (simp_all add: spfs_btree_modify_def sb_bread_readable bnode_bin_find_gte_empty)

text \<open>One block is enough for the header of an extent and the bytes.\<close>

lemma calc_one_block:
  assumes "in_capacity inode = 0" and "0 < n" and "n + 16 \<le> unat bsz"
  shows "spfs_calc_extra_blocks bsz inode 0 (of_nat n) = Done 1"
proof -
  have n: "n < 2 ^ 32" using assms(3) u32_bound [of bsz] by simp
  then have u: "unat (of_nat n :: u64) = n" by (simp add: unat_of_nat)
  then have nz: "\<not> (of_nat n :: u64) \<le> 0" using assms(2) by (auto simp: word_le_nat_alt)
  have "unat (of_nat n + spfs_sizeof_file_extent_header) = n + 16"
    using n u by (subst unat_add_small) (simp_all add: spfs_sizeof_file_extent_header_def)
  moreover have "(n + 16 + unat bsz - 1) div unat bsz = 1"
    using assms(2,3) by (intro div_nat_eqI) simp_all
  ultimately show ?thesis
    using nz assms(1,3) by (simp add: spfs_calc_extra_blocks_def spfs_blocks_for_def blocks_for_loop_eq)
qed

lemma first_growth:
  assumes space: "zeroed_space bsz 1 s" and bsz: "unat (sbi_block_size s) = bsz" "1620 \<le> bsz"
    and root: "tree_start s \<noteq> 0" "d_blocks (s_dev s) (tree_start s) = Some (replicate bsz 0)"
      "unat (tree_start s) \<notin> free_sectors (sbi_free_list s)"
    and fresh: "in_start inode = 0" "in_capacity inode = 0"
    and len: "0 < n" "n + 16 \<le> bsz"
  obtains e c s' where "spfs_ensure_capacity (Suc fuel) env s inode 0 (of_nat n) =
      Done (1, 0, inode\<lparr>in_start := e, in_capacity := c\<rparr>, s')"
    and "d_blocks (s_dev s') = (d_blocks (s_dev s))(e \<mapsto>
      store (replicate bsz 0) 0 (extent_header_bytes \<lparr>fe_next = 0, fe_capacity = 1, fe_length = 0\<rparr>))"
    and "e \<noteq> 0"
proof -
  obtain e fl where a: "spfs_free_alloc (sbi_free_list s) 1 = (e, fl)" "e \<noteq> 0"
    and b: "d_blocks (s_dev s) e = Some (replicate bsz 0)" and free: "unat e \<in> free_sectors (sbi_free_list s)"
    using zeroed_space_alloc [of bsz 0 s] space by (metis One_nat_def)
  let ?h = "\<lparr>fe_next = 0, fe_capacity = 1, fe_length = 0\<rparr>"
  define t where "t = s\<lparr>sbi_free_list := fl,
    s_dev := mark_buffer_dirty (put_buf (s_dev s) e (store (replicate bsz 0) 0 (extent_header_bytes ?h))) e\<rparr>"
  have alloc: "spfs_file_extent_alloc s 1 = Done (e, t)"
    using a b bsz(2) by (simp add: spfs_file_extent_alloc_def fs_alloc_def fs_bread_def sb_bread_readable
        spfs_make_file_extent_eq fs_put_def fs_dirty_def fs_brelse_def put_buf_def mark_buffer_dirty_def
        brelse_def t_def)
  have "tree_start s \<noteq> e" using root(3) free by auto
  then have "spfs_btree_modify (Suc fuel) env t ino ctx cb = Done (1, ctx, t)"
    for ino cb and ctx :: spfs_modify_start
    using root bsz(2) by (intro btree_modify_zero_root [of _ bsz]) (simp_all add: t_def)
  then have "\<exists>c. spfs_ensure_capacity (Suc fuel) env s inode 0 (of_nat n) =
      Done (1, 0, inode\<lparr>in_start := e, in_capacity := c\<rparr>, t)"
    using calc_one_block [OF fresh(2) len(1), of "sbi_block_size s"] len(2) bsz(1) alloc a(2) fresh(1)
    by (simp add: spfs_ensure_capacity_def spfs_file_extent_data_bytes_def) (rule exI, rule refl)
  then show thesis using that a(2) by (auto simp: t_def)
qed

text \<open>The write itself: it returns with the mutex of the inode locked.\<close>

lemma first_write_code:
  assumes space: "zeroed_space bsz 1 s" and bsz: "unat (sbi_block_size s) = bsz" "1620 \<le> bsz"
    and root: "tree_start s \<noteq> 0" "d_blocks (s_dev s) (tree_start s) = Some (replicate bsz 0)"
      "unat (tree_start s) \<notin> free_sectors (sbi_free_list s)"
    and inode: "S_ISREG (i_mode inode)" "in_start inode = 0" "in_capacity inode = 0" "i_size inode = 0"
      "\<not> i_lock inode"
    and src: "src \<noteq> []" "length src + 16 \<le> bsz"
  obtains e inode' s' where "spfs_write wfuel (Suc fuel) env False s inode src (Some p) = Done (1, inode', Some 0, s')"
    and "i_lock inode'" and "S_ISREG (i_mode inode')" and "i_size inode' = 0"
    and "d_blocks (s_dev s') = (d_blocks (s_dev s))(e \<mapsto>
      store (replicate bsz 0) 0 (extent_header_bytes \<lparr>fe_next = 0, fe_capacity = 1, fe_length = 0\<rparr>))"
    and "e \<noteq> 0"
proof -
  let ?i = "inode\<lparr>i_lock := True\<rparr>"
  obtain e c s' where g: "spfs_ensure_capacity (Suc fuel) env s ?i 0 (of_nat (length src)) =
      Done (1, 0, ?i\<lparr>in_start := e, in_capacity := c\<rparr>, s')"
    and d: "d_blocks (s_dev s') = (d_blocks (s_dev s))(e \<mapsto>
      store (replicate bsz 0) 0 (extent_header_bytes \<lparr>fe_next = 0, fe_capacity = 1, fe_length = 0\<rparr>))"
    and "e \<noteq> 0"
    by (rule first_growth [OF space bsz root, of ?i "length src" fuel env]) (use inode src in simp_all)
  then have w: "spfs_write wfuel (Suc fuel) env False s inode src (Some p) =
      Done (1, ?i\<lparr>in_start := e, in_capacity := c\<rparr>, Some 0, s')"
    using inode src by (simp add: spfs_write_def mutex_lock_def Let_def)
  show thesis by (rule that [OF w]) (use d \<open>e \<noteq> 0\<close> inode in simp_all)
qed

text \<open>
  C2: The first write to the first file: on a zeroed device with more than four and fewer than
  \<open>2 ^ 32\<close> data blocks of at least 1620 bytes, of a block size the kernel can mount, made by mkfs,
  mounted and with a regular file created in it (with memory for the free list and two inodes, whose
  objects are unlocked and without blocks), a write to the file of at least one byte and at most the
  block size less 16 returns 1, as if one byte had been written. Nothing of the bytes is on the disk:
  the one block that changes holds the header of an extent of length 0 and zeros, the size of the
  file stays 0 and the position is 0. The mutex of the file stays locked, so that every later read
  of some bytes and every later write of some bytes that is not interrupted waits forever.
\<close>

theorem first_write_is_lost:
  assumes "geometry_ok f st" and "1620 \<le> unat (st_blksize st)"
    and "4 < data_blocks f st" and "data_blocks f st < 2 ^ 32" and "f_data f = replicate (f_room f) 0"
    and "mkfs_main True f (Some st) = Done (res, g)"
    and "serves page sector setbs (f_data g)" and "d_dirty d = {}" and "mountable page sector st"
    and "\<forall>j. kz j" and "owner_ok k" and "k_fresh k 1 = Some i" and "k_fresh k 2 = Some j"
    and "in_start i = 0" and "\<not> i_lock i"
    and "in_start j = 0" and "in_capacity j = 0" and "i_size j = 0" and "\<not> i_lock j"
    and "length name < 256" and "S_ISREG mode"
    and "src \<noteq> []" and "length src + 16 \<le> unat (st_blksize st)"
  shows "\<exists>s s' inode e inode' s''.
    spfs_fill_super_block setbs True True kz k (Suc fuel) env d = Done (0, Some s) \<and>
    spfs_create k fuel env s (sbi_root_id s) name mode = Done (0, Some 2, s') \<and>
    icache s' 2 = Some inode \<and>
    spfs_write wfuel (Suc tf) env False s' inode src (Some p) = Done (1, inode', Some 0, s'') \<and>
    d_blocks (s_dev s'') = (d_blocks (s_dev s'))(e \<mapsto> store (replicate (unat (st_blksize st)) 0) 0
      (extent_header_bytes \<lparr>fe_next = 0, fe_capacity = 1, fe_length = 0\<rparr>)) \<and>
    i_size inode' = 0 \<and>
    (\<forall>fuel bfuel n q. 0 < n \<longrightarrow> spfs_read fuel bfuel s'' inode' n (Some q) = Crash SelfDeadlock) \<and>
    (\<forall>fuel tfuel env data q. data \<noteq> [] \<longrightarrow>
       spfs_write fuel tfuel env False s'' inode' data (Some q) = Crash SelfDeadlock)"
proof -
  let ?B = "unat (st_blksize st)"
  note srv = assms(7) [unfolded mkfs_main_image(2) [OF assms(1,6)]]
  obtain s b0 where m: "spfs_fill_super_block setbs True True kz k (Suc fuel) env d = Done (0, Some s)"
    and s: "icache s = [1 \<mapsto> fresh_root k i]" "sbi_id s = 2" "sbi_root_id s = 1"
      "tree_start s = 0" "tree_blocks s = 1" "zeroed_space ?B 4 s"
      "d_blocks (s_dev s) 0 = Some b0" "length b0 = ?B"
      "\<forall>n b. d_blocks (s_dev s) n = Some b \<longrightarrow> length b = ?B"
    by (rule fresh_mount [OF assms(1-5) srv assms(8-10) zero_less_Suc assms(12)])
  have "sbi_block_size s = ucast (st_blksize st)"
    using spfs_fill_super_block_fresh [where kz = kz and env = env and d = d and fuel = "Suc fuel", OF assms(1) srv assms(8,9) _ _ assms(12)]
      assms(10) m by auto
  moreover have "?B < 2 ^ 32" using assms(1) by (simp add: geometry_ok_def)
  ultimately have bs: "unat (sbi_block_size s) = ?B" by simp
  have new: "k_fresh k (sbi_id s) = Some j" "icache s (sbi_id s) = None" "sbi_id s \<noteq> 0" "low32 (sbi_id s) = sbi_id s"
    using assms(13) by (simp_all add: s(1,2) low32_def)
  have root_dir: "icache s 1 = Some (fresh_root k i)" "in_start (fresh_root k i) = 0" "\<not> i_lock (fresh_root k i)"
    using assms(14,15) by (simp_all add: s(1))
  have room: "zeroed_space ?B (Suc (Suc (Suc 1))) s" using s(6) by (simp add: numeral_eq_Suc)
  obtain r inode s' where c: "spfs_create k fuel env s 1 name mode = Done (0, Some 2, s')"
    and cache: "icache s' = (icache s)(2 \<mapsto> inode,
      1 \<mapsto> (fresh_root k i)\<lparr>in_capacity := in_capacity (fresh_root k i) + 1, in_start := r\<rparr>)"
    and ino: "S_ISREG (i_mode inode)" "in_start inode = in_start j" "in_capacity inode = in_capacity j"
      "i_size inode = i_size j" "i_lock inode = i_lock j"
    and sp: "zeroed_space ?B 1 s'" and root: "tree_start s' \<noteq> 0"
      "d_blocks (s_dev s') (tree_start s') = Some (replicate ?B 0)"
      "unat (tree_start s') \<notin> free_sectors (sbi_free_list s')"
    and bs': "sbi_block_size s' = sbi_block_size s"
    using first_create [OF assms(11) new root_dir s(4,5) room s(7,8) assms(2,20,21), of fuel env]
    unfolding s(2) by metis
  have "icache s' 2 = Some inode" by (simp add: cache)
  obtain e inode' s'' where w: "spfs_write wfuel (Suc tf) env False s' inode src (Some p) = Done (1, inode', Some 0, s'')"
    and i': "i_lock inode'" "S_ISREG (i_mode inode')" "i_size inode' = 0"
    and dev: "d_blocks (s_dev s'') = (d_blocks (s_dev s'))(e \<mapsto> store (replicate ?B 0) 0
      (extent_header_bytes \<lparr>fe_next = 0, fe_capacity = 1, fe_length = 0\<rparr>))"
    by (rule first_write_code [OF sp _ assms(2) root, of inode src wfuel tf env p])
      (use assms ino bs bs' in simp_all)
  have "spfs_read fuel bfuel s'' inode' n (Some q) = Crash SelfDeadlock" if "0 < n" for fuel bfuel n q
    using that i' by (simp add: spfs_read_def mutex_lock_def)
  moreover have "spfs_write fuel tfuel env False s'' inode' data (Some q) = Crash SelfDeadlock"
    if "data \<noteq> []" for fuel tfuel env data q
    using that i' by (simp add: spfs_write_def mutex_lock_def)
  ultimately show ?thesis using m c s(3) \<open>icache s' 2 = Some inode\<close> w dev i'(3) by (simp add: s(3)) blast
qed

text \<open>A slab that hands out objects as its constructor leaves them.\<close>

definition clean_inode :: spfs_inode where
  "clean_inode = (dir_sample_inode 0)\<lparr>in_capacity := 0\<rparr>"

definition clean_kernel :: kernel where
  "clean_kernel = sample_kernel\<lparr>k_fresh := \<lambda>n. Some clean_inode\<rparr>"

lemma clean_kernel: "owner_ok clean_kernel" "k_fresh clean_kernel n = Some clean_inode"
  using sample_kernel_simps(1) by (simp_all add: clean_kernel_def owner_ok_def)

lemma clean_inode: "in_start clean_inode = 0" "in_capacity clean_inode = 0" "i_size clean_inode = 0" "\<not> i_lock clean_inode"
  by (simp_all add: clean_inode_def dir_sample_inode_def)

theorem first_write_is_lost_witness:
  "mkfs_main True sample_disk (Some sample_stat) = Done (0, sample_mkfs) \<and>
   (\<exists>s s' inode inode' s''.
    spfs_fill_super_block (device_setbs 4096 512 (f_data sample_mkfs)) True True (\<lambda>_. True) clean_kernel 1
      sample_env (s_dev empty_fs) = Done (0, Some s) \<and>
    spfs_create clean_kernel 0 sample_env s (sbi_root_id s) [65] 0x81A4 = Done (0, Some 2, s') \<and>
    icache s' 2 = Some inode \<and>
    spfs_write 1 1 sample_env False s' inode [72, 105] (Some 0) = Done (1, inode', Some 0, s'') \<and>
    spfs_read 1 1 s'' inode' 2 (Some 0) = Crash SelfDeadlock)"
proof -
  obtain s s' inode inode' s'' where
    "spfs_fill_super_block (device_setbs 4096 512 (f_data sample_mkfs)) True True (\<lambda>_. True) clean_kernel (Suc 0)
      sample_env (s_dev empty_fs) = Done (0, Some s)"
    "spfs_create clean_kernel 0 sample_env s (sbi_root_id s) [65] 0x81A4 = Done (0, Some 2, s')"
    "icache s' 2 = Some inode"
    "spfs_write 1 (Suc 0) sample_env False s' inode [72, 105] (Some 0) = Done (1, inode', Some 0, s'')"
    "\<forall>fuel bfuel n q. 0 < n \<longrightarrow> spfs_read fuel bfuel s'' inode' n (Some q) = Crash SelfDeadlock"
    using first_write_is_lost [OF sample_geometry(1) _ _ _ sample_disk_zero sample_mkfs serves_device
        clean_device sample_mountable(1), where kz = "\<lambda>_. True" and
        k = clean_kernel and i = clean_inode and j = clean_inode and name = "[65]" and
        mode = "0x81A4" and fuel = 0 and env = sample_env and wfuel = 1 and tf = 0 and
        src = "[72, 105]" and p = 0]
    by (auto simp: sample_geometry clean_kernel clean_inode S_ISREG_def)
  with sample_mkfs show ?thesis
    by (intro conjI exI [of _ s] exI [of _ s'] exI [of _ inode] exI [of _ inode'] exI [of _ s'']) simp_all
qed

end
