(* ===== verification/Spec2Isabelle.thy ===== *)
theory Spec2Isabelle
  imports Image Fs_Types Error_Paths Write_Call Fuel Vfs_Tables Remove_Laws Lock_Order Fsck_Chain First_Write
begin

text \<open>
  spfs: a small Linux file system (kernel module, mkfs and fsck), modelled in HOL.

  The program. The module (sp.c, btree.c, free_list.c, util.c) mounts a block device whose
  block 0 is the super block, keeps the inodes in a B-tree of blocks, the free blocks in a list
  read at mount, directories as chains of blocks of inode numbers and files as chains of
  extents. mkfs.spfs.c writes an empty file system, fsck.spfs.c reads it back. The VFS calls
  the operations of sp.c on cached inodes; these call the tree (btree.c), the free list
  (free_list.c) and, for every field of a block, the cursor functions of util.c.

  Conventions. A function of the code is a HOL function with the state passed through and
  returned; the state is the record \<open>spfs\<close> (\<open>Fs_State\<close>: the device and the private data of
  the super block) and its extension \<open>vfs\<close> (\<open>Vfs\<close>: the cache of inodes). Machine integers are
  words of their width. A call returns \<open>Done\<close> of its results (return codes as the negated
  errno values the code uses) or a \<open>crash\<close>: a \<open>BUG_ON\<close>, an access outside a buffer, a null or
  error pointer followed, a mutex locked twice by one task. \<open>b_data\<close> of a block is a list of
  bytes on the device; two holders of a block see the same bytes. What the code reads before
  it is initialised is a parameter (\<open>env\<close>), and so is what the kernel decides (\<open>kernel\<close>:
  memory for an inode, the time, the owner; \<open>sb_set_blocksize\<close>, which takes the powers of two from
  512 to the size of a page that are not below the logical block size of the device; \<open>dir_emit\<close>).
  The fields of \<open>struct inode\<close> that belong to the kernel are one flag of an inode, \<open>i_kernel\<close>: whether
  they are as the kernel set them up. Using them otherwise is a bad access.

  Theories and the code they model:
  \<^item> \<open>Spfs_Prelude\<close>: outcomes, buffers, byte order. \<open>Sb_Util\<close>: util.c; the locale
    \<open>wire_field\<close> is the contract of a pair of a read and a write, interpreted for each pair.
  \<^item> \<open>Block_Dev\<close>: the calls of the buffer cache (\<open>sb_bread\<close>, \<open>brelse\<close>, dirty buffers).
  \<^item> \<open>Free_List\<close>: free_list.c; the locale \<open>block_allocator\<close> is the contract of allocation,
    interpreted for the list and, in \<open>Fs_State\<close>, for the mounted file system.
  \<^item> \<open>Inode_Codec\<close>: \<open>struct spfs_inode\<close> (shared.h) and its wire format in btree.c.
  \<^item> \<open>Bnode\<close>, \<open>Bnode_Search\<close>, \<open>Bnode_Laws\<close>: the nodes of btree.c, its search and its
    insertion; the locale \<open>node_array\<close> is the contract of the two arrays of a node.
  \<^item> \<open>Btree\<close>, \<open>Btree_Walk\<close>, \<open>Btree_Growth\<close>: the tree of btree.c: look up, modify, insert.
  \<^item> \<open>Dir_Block\<close>, \<open>Dir_Laws\<close>: directory blocks and \<open>spfs_add_child\<close> of sp.c.
  \<^item> \<open>File_Extent\<close>, \<open>File_Laws\<close>, \<open>File_Read\<close>, \<open>File_Write\<close>: extents, \<open>spfs_read\<close> and
    \<open>spfs_write\<close> of sp.c. \<open>File_Blocks\<close>: writing over the blocks of an extent as storing into a
    list of bytes. \<open>File_Bounds\<close>: what a write can touch, and the capacity that is
    reserved. \<open>Write_Call\<close>: a call of \<open>spfs_write\<close> from the position to the bytes on the disk.
  \<^item> \<open>Super_Block\<close>, \<open>Vfs\<close>, \<open>Vfs_Laws\<close>: the super block, the inode cache, create, mkdir,
    lookup, iterate, write_inode and mounting, from sp.c; the locale \<open>walk_relation\<close> carries
    what fetching an inode keeps over to a walk over a directory. \<open>Error_Paths\<close>: errors that
    are met and not handled.
  \<^item> \<open>Module_Life\<close>: \<open>spfs_init\<close>, \<open>spfs_exit\<close> and the slab of inodes, from sp.c.
  \<^item> \<open>Mkfs\<close>, \<open>Fsck\<close>, \<open>Image\<close>: mkfs.spfs.c and fsck.spfs.c on an open file, and the image.
  \<^item> \<open>Mount\<close>, \<open>First_File\<close>, \<open>First_Write\<close>: from mkfs over mount to the first file, its lookup, and
    the first write to it (the property on the first file is in \<open>Fs_Runs\<close>).
  \<^item> \<open>Evolve\<close>, \<open>Evolve_Ops\<close>, \<open>Fs_Machine\<close>, \<open>Fs_Runs\<close>, \<open>Fs_Types\<close>: sequences of calls; the
    step relation \<open>fs_step\<close>, one call or the eviction of an inode from the cache, runs \<open>fs_run\<close>, and the locale \<open>step_relation\<close> that carries what
    every call keeps over to runs; the type of the inodes in the cache.
  \<^item> \<open>Fuel\<close>: the order of outcomes and the locale \<open>fuelled\<close>.
  \<^item> \<open>Btree_Remove\<close>, \<open>Btree_Take\<close>, \<open>Remove_Laws\<close>: btree_remove.c. The file is a port of C++
    templates that was left unfinished and is not built; how it is read is said at the top of
    \<open>Btree_Take\<close>. The container functions it calls and nobody defines are the record
    \<open>containers\<close>, a parameter.
  \<^item> \<open>Lock_Order\<close>: the mutexes, the order in which sp.c, btree.c and free_list.c take them, and
    tasks whose lock operations interleave and that may die in a crash; the locale \<open>ranked_locks\<close> is the contract of an
    order, interpreted on the calls of the module.
  \<^item> \<open>Vfs_Tables\<close>: the tables of operations, \<open>spfs_mount\<close>, and which table an inode has.
  \<^item> \<open>Fsck_Chain\<close>: fsck and the kernel on the same free list.

  What is shown. Data: fields, inodes, headers of blocks, the super block and the free list can
  be read back as they were written (\<open>Sb_Util\<close>, \<open>Inode_Codec\<close>, \<open>Image\<close>); the name of an inode
  is the exception, since \<open>spfs_sb_write_str\<close> writes bytes of the stack. Free list: what is read
  at mount is what the chain describes, an allocation takes a region of free blocks and no
  other. Directories and files: a directory stands for a list of numbers and a file for a list
  of bytes; adding a child appends to the list, lookup finds the first child of a name, iterate
  lists the rest from a position, read returns the bytes from a position, and writing to an
  extent stores the bytes at the position, over whatever blocks that goes. Bounds: a write
  changes no block outside the extent, whatever is on the disk, and the capacity that is
  reserved takes what is to be written, with less than a block to spare. Tree: a modification
  is seen by the next lookup of the same inode and by no other; the search ends on every node.
  Whole program: a device written by mkfs passes fsck (for block sizes that are multiples of
  512) and mounts exactly when the kernel accepts its block size, a file can be created in it and is found again; no sequence of calls frees a
  block, changes the size of a buffer or loses the root of the tree, and every cached inode is a
  regular file or a directory with a name of 256 bytes.
  fsck and the kernel agree on the free list below 4 GiB, and fsck prints it. Tasks that call in at the same time never
  deadlock over the mutexes of the module: what can stop them is a mutex that a task which died in a
  crash held, or that a failed read or write left locked.
  The theorems also pin down where the code falls short: the search takes a distance in bytes
  for one in entries, so that every insertion below a root fails and a mounted file system takes
  one file only; the first insertion overwrites the super block; a directory whose blocks are
  full loses its children, also when no block can be allocated; bytes that were in a block before
  are read as children; a child that is missing from the tree crashes lookup and listing, and an
  inode that cannot be made crashes creation; a write reports an error when it has written something; error
  returns of read and write leave the mutex of the inode locked, for good; the first write to
  the first file is such a case, and reports a byte that it did not write; an inode that is on the
  disk crashes the kernel when it is fetched, since a stack object is copied over the fields of the
  kernel; the removal from the tree, whose rotations and merges are stubs, reports success for every
  number and takes a slot that is no entry.

  Fuel. A loop of the code that follows block numbers found on the disk has no bound in the
  code, so it has fuel here (depth of the tree, blocks of a chain, extents, blocks of an
  extent), and running out is the outcome \<open>NoFuel\<close>. The theorems say how much is enough: as
  many rounds as the chain has elements (\<open>length chain \<le> fuel\<close>, \<open>length es \<le> fuel\<close>,
  \<open>length bs < fuel\<close>). \<open>Fuel\<close> shows that fuel has no other effect: a result reached with some
  fuel is the result with more. Loops with a bound of their own use it: 16 rounds for the
  search of a node (\<open>bnode_search_stops\<close> shows that they are enough), 101 for the entries of
  a node, the length of a block for the children in it, the capacity of an extent for its
  blocks. A chain of free-list blocks that comes back to one
  of its blocks exhausts every fuel (\<open>free_init_cyclic_chain\<close>).

  Not modelled. Concurrency of the data: in the state an operation runs to its end before the
  next one starts; a mutex is a flag of the inode, and those of the tree, of the free list and of
  the inode counter are taken and released inside one operation. \<open>Lock_Order\<close> has the mutexes
  alone, interleaved, without the data; there a task can crash after any of its lock operations.
  Messages (\<open>pr_err\<close>, and \<open>printf\<close> except for the lines of fsck) and the reference
  counts of inodes: an inode of the cache can be evicted between any two calls.
  Faults of \<open>copy_to_user\<close> and \<open>copy_from_user\<close>, whose results the code ignores. A buffer that
  cannot be read is a block that is absent from the device; read errors that come and go are
  not modelled. The scripts and the build files.
\<close>

end
